(* ===== verification/Prelude.thy ===== *)
theory Prelude
  imports Main "HOL-Library.Char_ord" "HOL-Library.List_Lexorder" "HOL-Library.AList"
begin

text \<open>
  Shared vocabulary of the development: the Python string operations the sources call
  (\<open>str.strip\<close>, \<open>str.lower\<close>, \<open>str.splitlines\<close>, \<open>str.split\<close>, \<open>str.startswith\<close>,
  \<open>str.join\<close>), read on characters of code point below 256 (one Isabelle \<open>char\<close> per
  code point), the path type, the Python exceptions the sources raise (\<open>exn\<close>) with the
  bind \<open>sbind\<close> of a raising computation, and the generic lemmas on lists and maps that the
  component theories share. The collection \<open>py_simps\<close> gathers the characteristic
  equations of the string operations for evaluation on literals.
\<close>

named_theorems py_simps "evaluation equations of the modelled Python string operations"

type_synonym path = "string list"
  \<comment> \<open>a \<open>pathlib.Path\<close> as the list of its parts; Python orders paths part by part\<close>

section \<open>Exceptions\<close>

text \<open>The Python exceptions the sources raise, with their messages.\<close>

datatype exn =
    TaskCommandError string string string  \<comment> \<open>message, captured stdout, captured stderr\<close>
  | ValueError string
  | KeyError string
  | FileNotFoundError string
  | IndexError string
  | AttributeError string
  | TypeError string
  | OSError string
  | RuntimeError string
  | NotImplementedError

section \<open>Characters\<close>

definition py_isspace :: "char \<Rightarrow> bool" where
  "py_isspace c \<longleftrightarrow>
     (let n = (of_char c :: nat)
      in (9 \<le> n \<and> n \<le> 13) \<or> (28 \<le> n \<and> n \<le> 32) \<or> n = 133 \<or> n = 160)"

definition py_is_linebreak :: "char \<Rightarrow> bool" where
  "py_is_linebreak c \<longleftrightarrow>
     (let n = (of_char c :: nat) in (10 \<le> n \<and> n \<le> 13) \<or> (28 \<le> n \<and> n \<le> 30) \<or> n = 133)"

definition py_lower_char :: "char \<Rightarrow> char" where
  "py_lower_char c =
     (let n = (of_char c :: nat)
      in if (65 \<le> n \<and> n \<le> 90) \<or> (192 \<le> n \<and> n \<le> 222 \<and> n \<noteq> 215)
         then char_of (n + 32) else c)"

definition py_isdigit :: "char \<Rightarrow> bool" where
  "py_isdigit c \<longleftrightarrow> (let n = (of_char c :: nat) in 48 \<le> n \<and> n \<le> 57)"

section \<open>String operations\<close>

definition py_lstrip :: "string \<Rightarrow> string" where
  "py_lstrip s = dropWhile py_isspace s"

definition py_rstrip :: "string \<Rightarrow> string" where
  "py_rstrip s = rev (dropWhile py_isspace (rev s))"

definition py_strip :: "string \<Rightarrow> string" where
  "py_strip s = py_rstrip (py_lstrip s)"

definition py_lstrip_chars :: "char \<Rightarrow> string \<Rightarrow> string" where
  \<comment> \<open>\<open>s.lstrip(c)\<close> for a one-character argument\<close>
  "py_lstrip_chars c s = dropWhile (\<lambda>x. x = c) s"

definition py_lower :: "string \<Rightarrow> string" where
  "py_lower s = map py_lower_char s"

definition py_startswith :: "string \<Rightarrow> string \<Rightarrow> bool" where
  "py_startswith s p \<longleftrightarrow> take (length p) s = p"

definition py_endswith :: "string \<Rightarrow> string \<Rightarrow> bool" where
  "py_endswith s p \<longleftrightarrow> length p \<le> length s \<and> drop (length s - length p) s = p"

definition py_slice_inner :: "string \<Rightarrow> string" where
  \<comment> \<open>\<open>s[1:-1]\<close>\<close>
  "py_slice_inner s = take (length s - 2) (drop 1 s)"

fun py_splitlines_aux :: "string \<Rightarrow> string \<Rightarrow> string list" where
  "py_splitlines_aux cur [] = (if cur = [] then [] else [cur])"
| "py_splitlines_aux cur (c # cs) =
     (if c = CHR 0x0D \<and> cs \<noteq> [] \<and> hd cs = CHR 0x0A then cur # py_splitlines_aux [] (tl cs)
      else if py_is_linebreak c then cur # py_splitlines_aux [] cs
      else py_splitlines_aux (cur @ [c]) cs)"

definition py_splitlines :: "string \<Rightarrow> string list" where
  "py_splitlines s = py_splitlines_aux [] s"

fun py_split_ws_aux :: "string \<Rightarrow> string \<Rightarrow> string list" where
  "py_split_ws_aux cur [] = (if cur = [] then [] else [cur])"
| "py_split_ws_aux cur (c # cs) =
     (if py_isspace c then (if cur = [] then py_split_ws_aux [] cs else cur # py_split_ws_aux [] cs)
      else py_split_ws_aux (cur @ [c]) cs)"

definition py_split_ws :: "string \<Rightarrow> string list" where
  \<comment> \<open>\<open>s.split()\<close>: runs of whitespace separate, no empty words\<close>
  "py_split_ws s = py_split_ws_aux [] s"

fun py_split_char :: "char \<Rightarrow> string \<Rightarrow> string list" where
  \<comment> \<open>\<open>s.split(c)\<close> for a one-character separator: always at least one part\<close>
  "py_split_char c [] = [[]]"
| "py_split_char c (x # xs) =
     (if x = c then [] # py_split_char c xs
      else (case py_split_char c xs of [] \<Rightarrow> [[x]] | w # ws \<Rightarrow> (x # w) # ws))"

definition py_split1 :: "char \<Rightarrow> string \<Rightarrow> string \<times> string" where
  \<comment> \<open>\<open>s.split(c, 1)\<close> on a string that contains \<open>c\<close>\<close>
  "py_split1 c s = (takeWhile (\<lambda>x. x \<noteq> c) s, drop 1 (dropWhile (\<lambda>x. x \<noteq> c) s))"

fun py_find_split :: "string \<Rightarrow> string \<Rightarrow> (string \<times> string) option" where
  \<comment> \<open>the first occurrence of a non-empty separator: text before it, text after it\<close>
  "py_find_split sep [] = None"
| "py_find_split sep (c # cs) =
     (if py_startswith (c # cs) sep then Some ([], drop (length sep) (c # cs))
      else map_option (\<lambda>(a, b). (c # a, b)) (py_find_split sep cs))"

fun py_split_max :: "string \<Rightarrow> nat \<Rightarrow> string \<Rightarrow> string list" where
  \<comment> \<open>\<open>s.split(sep, n)\<close> for a non-empty separator\<close>
  "py_split_max sep 0 s = [s]"
| "py_split_max sep (Suc n) s =
     (case py_find_split sep s of None \<Rightarrow> [s] | Some (a, b) \<Rightarrow> a # py_split_max sep n b)"

fun py_join :: "string \<Rightarrow> string list \<Rightarrow> string" where
  \<comment> \<open>\<open>sep.join(ws)\<close>\<close>
  "py_join sep [] = []"
| "py_join sep [w] = w"
| "py_join sep (w # ws) = w @ sep @ py_join sep ws"

section \<open>Decimal and hexadecimal text of numbers\<close>

definition digit_char :: "nat \<Rightarrow> char" where
  "digit_char d = char_of (48 + d)"

fun nat_str :: "nat \<Rightarrow> string" where
  \<comment> \<open>\<open>str(n)\<close> for a natural number\<close>
  "nat_str n = (if n < 10 then [digit_char n] else nat_str (n div 10) @ [digit_char (n mod 10)])"

declare nat_str.simps [simp del]

definition int_str :: "int \<Rightarrow> string" where
  "int_str i = (if i < 0 then CHR ''-'' # nat_str (nat (- i)) else nat_str (nat i))"

definition hex2 :: "nat \<Rightarrow> string" where
  \<comment> \<open>two lower-case hexadecimal digits of a byte, as in \<open>'\\x%02x'\<close>\<close>
  "hex2 n = (let h = (\<lambda>d. if d < 10 then digit_char d else char_of (87 + d))
             in [h (n div 16), h (n mod 16)])"

definition digits_value :: "string \<Rightarrow> nat" where
  \<comment> \<open>\<open>int(ds)\<close> for a string of decimal digits\<close>
  "digits_value ds = foldl (\<lambda>n c. 10 * n + (of_char c - 48)) 0 ds"

abbreviation quoted :: "string \<Rightarrow> string" where
  \<comment> \<open>\<open>'{s}'\<close> inside an f-string\<close>
  "quoted s \<equiv> CHR 0x27 # s @ [CHR 0x27]"

lemmas py_string_defs [py_simps] =
  py_isspace_def py_is_linebreak_def py_lower_char_def py_isdigit_def
  py_lstrip_def py_rstrip_def py_strip_def py_lstrip_chars_def py_lower_def
  py_startswith_def py_endswith_def py_slice_inner_def py_splitlines_def py_split_ws_def
  py_split1_def

section \<open>Raising code\<close>

definition sbind :: "'e + 'a \<Rightarrow> ('a \<Rightarrow> 'e + 'b) \<Rightarrow> 'e + 'b" where
  \<comment> \<open>run the rest of the code unless the first step raised\<close>
  "sbind x f = (case x of Inl e \<Rightarrow> Inl e | Inr a \<Rightarrow> f a)"

lemma sbind_simps [simp]: "sbind (Inl e) f = Inl e" "sbind (Inr a) f = f a"
  by (simp_all add: sbind_def)

lemma sbind_eq_Inr [simp]: "sbind m f = Inr y \<longleftrightarrow> (\<exists>x. m = Inr x \<and> f x = Inr y)"
  by (cases m) (simp_all add: sbind_def)

section \<open>Generic lemmas\<close>

lemma py_startswith_Nil [simp]: "py_startswith s []"
  by (simp add: py_startswith_def)

lemma py_startswith_append [simp]: "py_startswith (p @ s) p"
  by (simp add: py_startswith_def)

lemma py_lower_idem [simp]: "py_lower (py_lower s) = py_lower s"
proof -
  have "py_lower_char (py_lower_char c) = py_lower_char c" for c
    by (simp add: py_lower_char_def Let_def)
  then show ?thesis by (simp add: py_lower_def)
qed

lemma py_lower_length [simp]: "length (py_lower s) = length s"
  by (simp add: py_lower_def)

lemma py_split_char_nonempty [simp]: "py_split_char c s \<noteq> []"
  by (induction s) (auto split: list.splits)

lemma py_split_max_nonempty [simp]: "py_split_max sep n s \<noteq> []"
  by (cases n) (auto split: option.splits)

lemma py_split_max_length: "length (py_split_max sep n s) \<le> Suc n"
  by (induction sep n s rule: py_split_max.induct) (auto split: option.splits)

lemma py_lstrip_length [simp]: "length (py_lstrip s) \<le> length s"
  by (simp add: py_lstrip_def length_dropWhile_le)

lemma py_strip_length [simp]: "length (py_strip s) \<le> length s"
proof -
  have "length (rev (dropWhile py_isspace (rev (py_lstrip s)))) \<le> length (py_lstrip s)"
    by (metis length_dropWhile_le length_rev)
  then show ?thesis using py_lstrip_length[of s] by (simp add: py_strip_def py_rstrip_def del: py_lstrip_length)
qed

lemma py_split_char_part_length: "w \<in> set (py_split_char c s) \<Longrightarrow> length w \<le> length s"
proof (induction s arbitrary: w)
  case Nil
  then show ?case by simp
next
  case (Cons x xs)
  then show ?case
    by (fastforce split: if_splits list.splits)
qed

lemma py_split1_snd_length [simp]: "length (snd (py_split1 c s)) \<le> length s"
  using length_dropWhile_le[of "\<lambda>x. x \<noteq> c" s] by (simp add: py_split1_def)

lemma digits_value_snoc [simp]: "digits_value (ds @ [c]) = 10 * digits_value ds + (of_char c - 48)"
  by (simp add: digits_value_def)

lemma of_char_digit_char [simp]: "d < 10 \<Longrightarrow> of_char (digit_char d) = 48 + d"
  by (simp add: digit_char_def)

lemma digits_value_nat_str [simp]: "digits_value (nat_str n) = n"
proof (induction n rule: nat_str.induct)
  case (1 n)
  show ?case
  proof (cases "n < 10")
    case True
    then show ?thesis by (simp add: nat_str.simps[of n] digits_value_def)
  next
    case False
    then have "digits_value (nat_str n) = 10 * digits_value (nat_str (n div 10)) + n mod 10"
      by (simp add: nat_str.simps[of n])
    with "1.IH" False show ?thesis by simp
  qed
qed

lemma nat_str_inj: "nat_str m = nat_str n \<longleftrightarrow> m = n"
  by (metis digits_value_nat_str)

lemma map_of_update_same [simp]: "map_of (AList.update k v al) k = Some v"
  by (simp add: update_conv')

lemma map_of_update_other [simp]: "k' \<noteq> k \<Longrightarrow> map_of (AList.update k v al) k' = map_of al k'"
  by (simp add: update_conv')

lemma py_isspace_lower_char [simp]: "py_isspace (py_lower_char c) = py_isspace c"
proof -
  have "of_char c < (256::nat)" by (rule nat_of_char_less_256)
  then show ?thesis
    by (simp add: py_isspace_def py_lower_char_def Let_def)
qed

lemma py_strip_lower: "py_strip (py_lower s) = py_lower (py_strip s)"
proof -
  have "py_isspace \<circ> py_lower_char = py_isspace" by (simp add: comp_def)
  then show ?thesis
    by (simp add: py_strip_def py_rstrip_def py_lstrip_def py_lower_def dropWhile_map rev_map)
qed

lemma py_isdigit_digit_char [simp]: "d < 10 \<Longrightarrow> py_isdigit (digit_char d)"
  by (simp add: py_isdigit_def)

lemma nat_str_digits: "nat_str n \<noteq> [] \<and> list_all py_isdigit (nat_str n)"
proof (induction n rule: nat_str.induct)
  case (1 n)
  then show ?case by (simp add: nat_str.simps[of n])
qed

lemma py_isdigit_minus [simp]: "\<not> py_isdigit CHR ''-''"
  by (simp add: py_isdigit_def)

lemma py_lower_char_minus [simp]: "py_lower_char CHR ''-'' = CHR ''-''"
  by (simp add: py_lower_char_def)

lemma py_isdigit_not_space: "py_isdigit c \<Longrightarrow> \<not> py_isspace c"
  by (auto simp: py_isdigit_def py_isspace_def Let_def)

lemma py_strip_id: "list_all (\<lambda>c. \<not> py_isspace c) s \<Longrightarrow> py_strip s = s"
proof -
  assume a: "list_all (\<lambda>c. \<not> py_isspace c) s"
  then have "dropWhile py_isspace s = s" by (cases s) auto
  moreover have "dropWhile py_isspace (rev s) = rev s" using a by (cases "rev s") (auto simp: list_all_iff)
  ultimately show ?thesis by (simp add: py_strip_def py_lstrip_def py_rstrip_def)
qed

lemma py_lower_char_digit: "py_isdigit c \<Longrightarrow> py_lower_char c = c"
  by (simp add: py_isdigit_def py_lower_char_def Let_def)

end
