(* ===== verification/Frontmatter.thy ===== *)
theory Frontmatter
  imports Prelude
begin

text \<open>
  The header parser of \<open>src/scripts/automation/frontmatter.py\<close>: the value type of a
  parsed header, the scalar coercion \<open>_parse_scalar\<close>, the mutually recursive block and
  sequence parsers \<open>_parse_block\<close>/\<open>_parse_sequence\<close> with their while loops, the
  fallback entry point \<open>_fallback_parse\<close>, and \<open>read_note\<close>, which splits a raw text
  into header and body. \<open>yaml.safe_load\<close> is a parameter \<open>S\<close>: \<open>None\<close> when PyYAML
  is not installed, in which case \<open>_yaml_load\<close> is \<open>_fallback_parse\<close> and never
  raises; with PyYAML, a header that does not parse or is not a mapping raises. Python dictionaries keep insertion
  order and overwrite in place, which is \<open>AList.update\<close> on association lists.
\<close>

section \<open>Values and scalar coercion\<close>

datatype yval =
    YNone
  | YBool bool
  | YInt int
  | YFloat int nat
    \<comment> \<open>\<open>YFloat m k\<close> is the decimal \<open>m / 10^k\<close>, normalised (no trailing fraction zeros)\<close>
  | YStr string
  | YList "yval list"
  | YMap "(string \<times> yval) list"

type_synonym header = "(string \<times> yval) list"

fun yval_wf :: "yval \<Rightarrow> bool" where
  \<comment> \<open>a value Python could hold: the keys of every dictionary, nested ones included, are unique\<close>
  "yval_wf (YList xs) = list_all yval_wf xs"
| "yval_wf (YMap kvs) = (distinct (map fst kvs) \<and> list_all (\<lambda>kv. yval_wf (snd kv)) kvs)"
| "yval_wf _ = True"

definition header_wf :: "header \<Rightarrow> bool" where
  "header_wf kvs \<longleftrightarrow> distinct (map fst kvs) \<and> list_all (\<lambda>kv. yval_wf (snd kv)) kvs"

definition is_int_token :: "string \<Rightarrow> bool" where
  \<comment> \<open>\<open>re.fullmatch(r"-?\d+", token)\<close>\<close>
  "is_int_token t =
     (case t of [] \<Rightarrow> False
      | c # cs \<Rightarrow> if c = CHR ''-'' then cs \<noteq> [] \<and> list_all py_isdigit cs else list_all py_isdigit t)"

definition int_of_token :: "string \<Rightarrow> int" where
  \<comment> \<open>\<open>int(token)\<close> on a token accepted by \<open>is_int_token\<close>\<close>
  "int_of_token t =
     (if t \<noteq> [] \<and> hd t = CHR ''-'' then - int (digits_value (tl t)) else int (digits_value t))"

definition is_float_token :: "string \<Rightarrow> bool" where
  \<comment> \<open>\<open>re.fullmatch(r"-?\d+\.\d+", token)\<close>\<close>
  "is_float_token t =
     (let u = (if t \<noteq> [] \<and> hd t = CHR ''-'' then tl t else t);
          r = dropWhile py_isdigit u
      in takeWhile py_isdigit u \<noteq> [] \<and> r \<noteq> [] \<and> hd r = CHR ''.'' \<and> tl r \<noteq> []
         \<and> list_all py_isdigit (tl r))"

fun normalise_decimal :: "int \<Rightarrow> nat \<Rightarrow> int \<times> nat" where
  "normalise_decimal m 0 = (m, 0)"
| "normalise_decimal m (Suc k) =
     (if m mod 10 = 0 then normalise_decimal (m div 10) k else (m, Suc k))"

definition float_of_token :: "string \<Rightarrow> int \<times> nat" where
  \<comment> \<open>\<open>float(token)\<close> on a token accepted by \<open>is_float_token\<close>, as an exact decimal\<close>
  "float_of_token t =
     (let neg = (t \<noteq> [] \<and> hd t = CHR ''-'');
          u = (if neg then tl t else t);
          a = takeWhile py_isdigit u; b = tl (dropWhile py_isdigit u);
          m = int (digits_value (a @ b))
      in normalise_decimal (if neg then - m else m) (length b))"

definition null_tokens :: "string list" where
  "null_tokens = [[], ''~'', ''null'', ''Null'', ''NULL'']"

function parse_scalar :: "string \<Rightarrow> yval" where
  "parse_scalar token0 =
     (let token = py_strip token0 in
      if token \<in> set null_tokens then YNone
      else if py_lower token \<in> set [''true'', ''false''] then YBool (py_lower token = ''true'')
      else if py_startswith token [CHR 0x27] \<and> py_endswith token [CHR 0x27]
        then YStr (py_slice_inner token)
      else if py_startswith token [CHR 0x22] \<and> py_endswith token [CHR 0x22]
        then YStr (py_slice_inner token)
      else if is_int_token token then YInt (int_of_token token)
      else if is_float_token token then case_prod YFloat (float_of_token token)
      else if py_startswith token ''['' \<and> py_endswith token '']'' then
        (let inner = py_strip (py_slice_inner token) in
         if inner = [] then YList []
         else YList (map parse_scalar (py_split_char CHR '','' inner)))
      else if py_startswith token ''{'' \<and> py_endswith token ''}'' then
        (let inner = py_strip (py_slice_inner token) in
         if inner = [] then YMap []
         else YMap (fold (\<lambda>part result.
                      if CHR '':'' \<notin> set part then result
                      else (case py_split1 CHR '':'' part of (key, value) \<Rightarrow>
                              AList.update (py_strip key) (parse_scalar (py_strip value)) result))
                    (py_split_char CHR '','' inner) []))
      else YStr token)"
  by pat_completeness auto

lemma bracketed_length:
  assumes "py_startswith t [a]" and "py_endswith t [b]" and "a \<noteq> b"
  shows "2 \<le> length t"
  using assms by (cases t rule: remdups_adj.cases) (auto simp: py_startswith_def py_endswith_def)

lemma inner_shorter:
  assumes "py_startswith t [a]" and "py_endswith t [b]" and "a \<noteq> b"
  shows "length (py_strip (py_slice_inner t)) < length t"
proof -
  have "length (py_strip (py_slice_inner t)) \<le> length (py_slice_inner t)"
    by (rule py_strip_length)
  moreover have "length (py_slice_inner t) = length t - 2"
    by (simp add: py_slice_inner_def)
  ultimately show ?thesis
    using bracketed_length[OF assms] by linarith
qed

termination parse_scalar
proof (relation "measure length")
  fix token0 token inner x
  assume tok: "token = py_strip token0" "py_startswith token ''['' \<and> py_endswith token '']''"
    and inner: "inner = py_strip (py_slice_inner token)" and x: "x \<in> set (py_split_char CHR '','' inner)"
  have "length inner < length token"
    using inner_shorter[of token "CHR ''[''" "CHR '']''"] tok(2) inner by simp
  moreover have "length x \<le> length inner"
    using x by (rule py_split_char_part_length)
  moreover have "length token \<le> length token0"
    using tok(1) by simp
  ultimately show "(x, token0) \<in> measure length"
    by simp
next
  fix token0 token inner x key val
  assume tok: "token = py_strip token0" "py_startswith token ''{'' \<and> py_endswith token ''}''"
    and inner: "inner = py_strip (py_slice_inner token)" and x: "x \<in> set (py_split_char CHR '','' inner)"
    and kv: "(key, val) = py_split1 CHR '':'' x"
  have "length inner < length token"
    using inner_shorter[of token "CHR ''{''" "CHR ''}''"] tok(2) inner by simp
  moreover have "length x \<le> length inner"
    using x by (rule py_split_char_part_length)
  moreover have "length val \<le> length x"
    using py_split1_snd_length[of "CHR '':''" x] kv by (metis snd_conv)
  moreover have "length (py_strip val) \<le> length val" by (rule py_strip_length)
  moreover have "length token \<le> length token0"
    using tok(1) by simp
  ultimately show "(py_strip val, token0) \<in> measure length"
    unfolding in_measure by linarith
qed simp

declare parse_scalar.simps [simp del]

section \<open>Block and sequence parsers\<close>

definition indent_of :: "string \<Rightarrow> nat" where
  \<comment> \<open>\<open>len(line) - len(line.lstrip(" "))\<close>\<close>
  "indent_of line = length line - length (py_lstrip_chars CHR '' '' line)"

text \<open>
  The guards at the top of the two while loops, in the order the code tests them: a
  blank line is skipped, a dedented line or a line that breaks the block's shape ends
  the loop, otherwise the line is an entry or opens a nested structure.
\<close>

datatype block_line = BBlank | BStop | BEntry string string | BOpen string

definition classify_block_line :: "nat \<Rightarrow> string \<Rightarrow> block_line" where
  "classify_block_line indent line =
     (let stripped = py_strip line in
      if stripped = [] then BBlank
      else if indent_of line < indent then BStop
      else if CHR '':'' \<notin> set stripped then BStop
      else (case py_split1 CHR '':'' line of (key_part, value_part) \<Rightarrow>
              if py_strip value_part \<noteq> [] then BEntry (py_strip key_part) (py_strip value_part)
              else BOpen (py_strip key_part)))"

datatype seq_line = SBlank | SStop | SItem string | SOpen nat

definition classify_seq_line :: "nat \<Rightarrow> string \<Rightarrow> seq_line" where
  "classify_seq_line indent line =
     (let stripped = py_strip line in
      if stripped = [] then SBlank
      else if indent_of line < indent then SStop
      else if \<not> py_startswith stripped ''- '' then SStop
      else (let item_value = py_strip (drop 2 stripped) in
            if item_value \<noteq> [] then SItem item_value else SOpen (indent_of line + 2)))"

function (domintros)
  parse_block :: "string list \<Rightarrow> nat \<Rightarrow> nat \<Rightarrow> header \<times> nat"
and block_loop :: "string list \<Rightarrow> nat \<Rightarrow> nat \<Rightarrow> header \<Rightarrow> header \<times> nat"
and parse_sequence :: "string list \<Rightarrow> nat \<Rightarrow> nat \<Rightarrow> yval list option \<times> nat"
and seq_loop :: "string list \<Rightarrow> nat \<Rightarrow> nat \<Rightarrow> yval list \<Rightarrow> bool \<Rightarrow> yval list \<times> nat \<times> bool"
where
  "parse_block lines start indent = block_loop lines indent start []"
| "block_loop lines indent index mapping =
     (if index < length lines then
        (case classify_block_line indent (lines ! index) of
           BBlank \<Rightarrow> block_loop lines indent (Suc index) mapping
         | BStop \<Rightarrow> (mapping, index)
         | BEntry key value \<Rightarrow>
             block_loop lines indent (Suc index) (AList.update key (parse_scalar value) mapping)
         | BOpen key \<Rightarrow>
             (case parse_sequence lines (Suc index) (indent + 2) of
                (Some seq, new_index) \<Rightarrow>
                  block_loop lines indent new_index (AList.update key (YList seq) mapping)
              | (None, _) \<Rightarrow>
                  (case parse_block lines (Suc index) (indent + 2) of
                     (nested, new_index) \<Rightarrow>
                       block_loop lines indent new_index (AList.update key (YMap nested) mapping))))
      else (mapping, index))"
| "parse_sequence lines start indent =
     (case seq_loop lines indent start [] False of
        (items, index, consumed) \<Rightarrow> if \<not> consumed then (None, start) else (Some items, index))"
| "seq_loop lines indent index items consumed =
     (if index < length lines then
        (case classify_seq_line indent (lines ! index) of
           SBlank \<Rightarrow> seq_loop lines indent (Suc index) items consumed
         | SStop \<Rightarrow> (items, index, consumed)
         | SItem item_value \<Rightarrow>
             seq_loop lines indent (Suc index) (items @ [parse_scalar item_value]) True
         | SOpen next_indent \<Rightarrow>
             (case parse_sequence lines (Suc index) next_indent of
                (Some seq, new_index) \<Rightarrow> seq_loop lines indent new_index (items @ [YList seq]) True
              | (None, _) \<Rightarrow>
                  (case parse_block lines (Suc index) next_indent of
                     (nested, new_index) \<Rightarrow>
                       seq_loop lines indent new_index (items @ [YMap nested]) True)))
      else (items, index, consumed))"
  by pat_completeness auto

abbreviation parse_dom where
  "parse_dom \<equiv> parse_block_block_loop_parse_sequence_seq_loop_dom"

text \<open>
  The loops resume at the index a nested call returns, so their termination rests on
  the fact that no call moves backwards. It is proved first for the arguments where the
  function is defined (its domain), then used in the termination proof.
\<close>

lemma parse_index_mono_dom:
  "parse_dom (Inl (Inl (lines, start, indent))) \<Longrightarrow> start \<le> snd (parse_block lines start indent)"
  "parse_dom (Inl (Inr (lines, indent, index, mapping))) \<Longrightarrow>
     index \<le> snd (block_loop lines indent index mapping)"
  "parse_dom (Inr (Inl (lines, start, indent))) \<Longrightarrow> start \<le> snd (parse_sequence lines start indent)"
  "parse_dom (Inr (Inr (lines, indent, index, items, consumed))) \<Longrightarrow>
     index \<le> fst (snd (seq_loop lines indent index items consumed))"
proof (induction lines start indent and lines indent index mapping and lines start indent
    and lines indent index items consumed rule: parse_block_block_loop_parse_sequence_seq_loop.pinduct)
  case (1 lines start indent)
  then show ?case by (simp add: parse_block.psimps)
next
  case (2 lines indent index mapping)
  show ?case
    using 2 by (subst block_loop.psimps[OF 2(1)])
      (fastforce split: block_line.splits option.splits prod.splits)
next
  case (3 lines start indent)
  then show ?case by (auto simp: parse_sequence.psimps split: prod.splits)
next
  case (4 lines indent index items consumed)
  show ?case
    using 4 by (subst seq_loop.psimps[OF 4(1)])
      (fastforce split: seq_line.splits option.splits prod.splits)
qed

lemma parse_index_mono_dom_eq:
  "(m, i) = parse_block lines start indent \<Longrightarrow> parse_dom (Inl (Inl (lines, start, indent))) \<Longrightarrow> start \<le> i"
  "(r, i) = parse_sequence lines start indent \<Longrightarrow> parse_dom (Inr (Inl (lines, start, indent))) \<Longrightarrow> start \<le> i"
  using parse_index_mono_dom(1)[of lines start indent] parse_index_mono_dom(3)[of lines start indent]
  by (metis snd_conv)+

termination parse_block
proof (relation "measure (\<lambda>x. case x of
      Inl (Inl (lines, start, indent)) \<Rightarrow> 2 * (length lines - start) + 1
    | Inl (Inr (lines, indent, index, mapping)) \<Rightarrow> 2 * (length lines - index)
    | Inr (Inl (lines, start, indent)) \<Rightarrow> 2 * (length lines - start) + 1
    | Inr (Inr (lines, indent, index, items, consumed)) \<Rightarrow> 2 * (length lines - index))")
qed (auto dest: parse_index_mono_dom_eq)

declare block_loop.simps [simp del] seq_loop.simps [simp del]

definition fallback_parse :: "string \<Rightarrow> header" where
  "fallback_parse text = fst (parse_block (py_splitlines text) 0 0)"

datatype header_error =
    YAMLError string  \<comment> \<open>\<open>yaml.YAMLError\<close> of \<open>yaml.safe_load\<close>, with its message\<close>
  | HeaderValueError string  \<comment> \<open>the \<open>ValueError\<close> of \<open>_yaml_load\<close>\<close>

type_synonym safe_load = "string \<Rightarrow> string + yval"
  \<comment> \<open>\<open>yaml.safe_load\<close>: the document it builds, or the message of the error it raises\<close>

definition yaml_load :: "safe_load option \<Rightarrow> string \<Rightarrow> header_error + header" where
  \<comment> \<open>\<open>_yaml_load(text)\<close>; \<open>S\<close> is \<open>None\<close> when \<open>import yaml\<close> failed\<close>
  "yaml_load S text =
     (case S of
        None \<Rightarrow> Inr (fallback_parse text)
      | Some safe_load \<Rightarrow>
          if py_strip text = [] then Inr []
          else (case safe_load text of
                  Inl msg \<Rightarrow> Inl (YAMLError msg)
                | Inr YNone \<Rightarrow> Inr []
                | Inr (YMap d) \<Rightarrow> Inr d
                | Inr _ \<Rightarrow> Inl (HeaderValueError ''Frontmatter must be a mapping.'')))"

section \<open>Reading a note\<close>

record note_record =
  nr_path :: path
  nr_frontmatter :: header
  nr_content :: string
  nr_raw_text :: string

definition read_note :: "safe_load option \<Rightarrow> path \<Rightarrow> string \<Rightarrow> header_error + note_record" where
  \<comment> \<open>\<open>read_note\<close> after \<open>path.read_text()\<close> returned \<open>raw\<close>\<close>
  "read_note S p raw =
     (let parts = py_split_max ''---'' 2 raw in
      if py_startswith raw ''---'' \<and> 3 \<le> length parts
      then (case yaml_load S (parts ! 1) of
              Inl e \<Rightarrow> Inl e
            | Inr frontmatter \<Rightarrow>
                Inr \<lparr>nr_path = p, nr_frontmatter = frontmatter,
                     nr_content = py_lstrip_chars CHR ''\<newline>'' (parts ! 2), nr_raw_text = raw\<rparr>)
      else Inr \<lparr>nr_path = p, nr_frontmatter = [], nr_content = raw, nr_raw_text = raw\<rparr>)"

section \<open>Round trip of scalars\<close>

lemma int_str_shape:
  "int_str i \<noteq> [] \<and> (hd (int_str i) = CHR ''-'' \<or> py_isdigit (hd (int_str i))) \<and>
   list_all (\<lambda>c. \<not> py_isspace c) (int_str i)"
proof -
  have d: "list_all (\<lambda>c. \<not> py_isspace c) (nat_str n)" for n
    using nat_str_digits[of n] by (auto simp: list_all_iff py_isdigit_not_space)
  have h: "nat_str n \<noteq> [] \<and> py_isdigit (hd (nat_str n))" for n
    using nat_str_digits[of n] by (cases "nat_str n") auto
  have "\<not> py_isspace CHR ''-''" by (simp add: py_isspace_def)
  then show ?thesis using d h by (auto simp: int_str_def)
qed

lemma is_int_token_int_str: "is_int_token (int_str i)"
  using nat_str_digits[of "nat (- i)"] nat_str_digits[of "nat i"]
  by (cases "nat_str (nat i)") (auto simp: is_int_token_def int_str_def)
lemma int_of_token_int_str: "int_of_token (int_str i) = i"
proof -
  have "hd (nat_str (nat i)) \<noteq> CHR ''-''"
    using nat_str_digits[of "nat i"] by (cases "nat_str (nat i)") auto
  then show ?thesis using nat_str_digits[of "nat i"] by (auto simp: int_of_token_def int_str_def)
qed
section \<open>Dictionaries of the parsed header\<close>

lemma header_wf_update: "header_wf m \<Longrightarrow> yval_wf v \<Longrightarrow> header_wf (AList.update k v m)"
proof (induction m)
  case (Cons kv m)
  then show ?case
    by (cases kv) (auto simp: header_wf_def distinct_update dom_update)
qed (simp add: header_wf_def)

lemma yval_wf_YMap [simp]: "yval_wf (YMap kvs) = header_wf kvs"
  by (simp add: header_wf_def)

declare yval_wf.simps(2) [simp del]

lemma fold_header_wf:
  "(\<And>x m. x \<in> set xs \<Longrightarrow> header_wf m \<Longrightarrow> header_wf (f x m)) \<Longrightarrow> header_wf m \<Longrightarrow> header_wf (fold f xs m)"
  by (induction xs arbitrary: m) auto

lemma parse_scalar_wf: "yval_wf (parse_scalar t)"
proof (induction t rule: parse_scalar.induct)
  case (1 token0)
  show ?case
    using 1 by (subst parse_scalar.simps)
      (auto simp: Let_def list_all_iff header_wf_def[of "[]"]
            intro!: fold_header_wf header_wf_update split: prod.splits)
qed
lemma parser_wf_all:
  "header_wf (fst (parse_block lines start indent))"
  "header_wf mapping \<Longrightarrow> header_wf (fst (block_loop lines indent index mapping))"
  "case fst (parse_sequence lines start indent) of None \<Rightarrow> True | Some items \<Rightarrow> list_all yval_wf items"
  "list_all yval_wf items \<Longrightarrow> list_all yval_wf (fst (seq_loop lines indent index items consumed))"
proof (induction lines start indent and lines indent index mapping and lines start indent
         and lines indent index items consumed rule: parse_block_block_loop_parse_sequence_seq_loop.induct)
  case (1 lines start indent)
  then show ?case by (simp add: header_wf_def)
next
  case (2 lines indent index mapping)
  show ?case
    using 2 by (subst block_loop.simps)
      (auto intro!: header_wf_update parse_scalar_wf
            split: block_line.splits option.splits prod.splits;
       metis header_wf_update yval_wf.simps(1) yval_wf_YMap)
next
  case (3 lines start indent)
  then show ?case by (auto split: prod.splits)
next
  case (4 lines indent index items consumed)
  show ?case
  proof (cases "index < length lines")
    case False
    then show ?thesis using 4 by (subst seq_loop.simps) simp
  next
    case True
    show ?thesis
    proof (cases "classify_seq_line indent (lines ! index)")
      case SBlank
      then show ?thesis using True 4 by (subst seq_loop.simps) simp
    next
      case SStop
      then show ?thesis using True 4 by (subst seq_loop.simps) simp
    next
      case (SItem v)
      then show ?thesis using True 4 by (subst seq_loop.simps) (simp add: parse_scalar_wf)
    next
      case (SOpen k)
      obtain x y where ps: "parse_sequence lines (Suc index) k = (x, y)" by fastforce
      show ?thesis
      proof (cases x)
        case None
        obtain xa ya where pb: "parse_block lines (Suc index) k = (xa, ya)" by fastforce
        have "header_wf xa" using "4.IH"(4)[OF True SOpen ps[symmetric] None] pb by simp
        then have "list_all yval_wf (fst (seq_loop lines indent ya (items @ [YMap xa]) True))"
          using "4.IH"(5)[OF True SOpen ps[symmetric] None pb[symmetric]] "4.prems" by simp
        then show ?thesis using True SOpen ps None pb by (subst seq_loop.simps) simp
      next
        case (Some x2)
        have "list_all yval_wf x2" using "4.IH"(3)[OF True SOpen] ps Some by simp
        then have "list_all yval_wf (fst (seq_loop lines indent y (items @ [YList x2]) True))"
          using "4.IH"(6)[OF True SOpen ps[symmetric] Some] "4.prems" by simp
        then show ?thesis using True SOpen ps Some by (subst seq_loop.simps) simp
      qed
    qed
  qed
qed

end
