(* ===== verification/Notes.thy ===== *)
theory Notes
  imports Frontmatter
begin

text \<open>
  \<open>src/scripts/automation/notes.py\<close>: the hashed payload of a note
  (\<open>NotePayload\<close>, \<open>to_payload\<close>), its \<open>tags\<close> property and \<open>has_tag\<close>, and the
  ingestion walk \<open>iter_note_payloads\<close> over a file system. \<open>str()\<close> of a header
  value, which \<open>tags\<close> and the task consumer apply, is modelled here as
  \<open>py_str\<close>/\<open>py_repr\<close>. The SHA-256 digest \<open>_compute_hash\<close> is a parameter
  \<open>H\<close> of the model: only its being a function of the raw text is used. The
  \<open>pathlib\<close> operations the sources share (\<open>Path(s)\<close>, \<open>str(path)\<close>,
  \<open>resolve()\<close> without symbolic links, \<open>exists()\<close>,
  \<open>mkdir(parents=True, exist_ok=True)\<close>) are defined here on paths as
  lists of parts.
\<close>

section \<open>str() and repr() of header values\<close>

definition repr_printable :: "char \<Rightarrow> bool" where
  "repr_printable c \<longleftrightarrow>
     (let n = (of_char c :: nat) in 32 \<le> n \<and> n \<noteq> 127 \<and> \<not> (128 \<le> n \<and> n \<le> 160) \<and> n \<noteq> 173)"

definition repr_char :: "char \<Rightarrow> char \<Rightarrow> string" where
  "repr_char q c =
     (if c = q \<or> c = CHR 0x5C then [CHR 0x5C, c]
      else if c = CHR 0x09 then [CHR 0x5C, CHR ''t'']
      else if c = CHR 0x0A then [CHR 0x5C, CHR ''n'']
      else if c = CHR 0x0D then [CHR 0x5C, CHR ''r'']
      else if \<not> repr_printable c then CHR 0x5C # CHR ''x'' # hex2 (of_char c)
      else [c])"

definition repr_str :: "string \<Rightarrow> string" where
  \<comment> \<open>\<open>repr(s)\<close>: single quotes unless the text has one and no double quote\<close>
  "repr_str s =
     (let q = (if CHR 0x27 \<in> set s \<and> CHR 0x22 \<notin> set s then CHR 0x22 else CHR 0x27)
      in q # concat (map (repr_char q) s) @ [q])"

definition float_str :: "int \<Rightarrow> nat \<Rightarrow> string" where
  \<comment> \<open>\<open>repr(float)\<close> in positional notation\<close>
  "float_str m k =
     (let s = nat_str (nat \<bar>m\<bar>);
          ds = replicate (Suc k - length s) CHR ''0'' @ s;
          body = (if k = 0 then s @ ''.0''
                  else take (length ds - k) ds @ ''.'' @ drop (length ds - k) ds)
      in if m < 0 then CHR ''-'' # body else body)"

fun py_repr :: "yval \<Rightarrow> string" where
  "py_repr YNone = ''None''"
| "py_repr (YBool b) = (if b then ''True'' else ''False'')"
| "py_repr (YInt i) = int_str i"
| "py_repr (YFloat m k) = float_str m k"
| "py_repr (YStr s) = repr_str s"
| "py_repr (YList xs) = ''['' @ py_join '', '' (map py_repr xs) @ '']''"
| "py_repr (YMap kvs) =
     ''{'' @ py_join '', '' (map (\<lambda>(k, v). repr_str k @ '': '' @ py_repr v) kvs) @ ''}''"

fun py_str :: "yval \<Rightarrow> string" where
  "py_str (YStr s) = s"
| "py_str v = py_repr v"

definition py_truthy :: "yval \<Rightarrow> bool" where
  \<comment> \<open>\<open>bool(v)\<close>\<close>
  "py_truthy v =
     (case v of YNone \<Rightarrow> False | YBool b \<Rightarrow> b | YInt i \<Rightarrow> i \<noteq> 0 | YFloat m k \<Rightarrow> m \<noteq> 0
      | YStr s \<Rightarrow> s \<noteq> [] | YList xs \<Rightarrow> xs \<noteq> [] | YMap kvs \<Rightarrow> kvs \<noteq> [])"

definition header_get :: "header \<Rightarrow> string \<Rightarrow> yval" where
  \<comment> \<open>\<open>frontmatter.get(key)\<close>, with \<open>None\<close> for a missing key\<close>
  "header_get fm key = (case map_of fm key of None \<Rightarrow> YNone | Some v \<Rightarrow> v)"

section \<open>Payloads\<close>

record note_payload =
  np_path :: path
  np_frontmatter :: header
  np_content :: string
  np_raw_text :: string
  np_note_hash :: string

definition note_tags :: "note_payload \<Rightarrow> string list" where
  \<comment> \<open>the \<open>tags\<close> property\<close>
  "note_tags note =
     (case header_get (np_frontmatter note) ''tags'' of
        YNone \<Rightarrow> []
      | YList xs \<Rightarrow> map py_str xs
      | v \<Rightarrow> [py_str v])"

definition has_tag :: "note_payload \<Rightarrow> string \<Rightarrow> bool" where
  "has_tag note tag \<longleftrightarrow> (\<exists>entry \<in> set (note_tags note). py_lower entry = py_lower tag)"

definition to_payload :: "(string \<Rightarrow> string) \<Rightarrow> note_record \<Rightarrow> note_payload" where
  "to_payload H note =
     \<lparr>np_path = nr_path note, np_frontmatter = nr_frontmatter note, np_content = nr_content note,
      np_raw_text = nr_raw_text note, np_note_hash = H (nr_raw_text note)\<rparr>"

section \<open>Ingestion\<close>

text \<open>
  The file system is the list of its entries: a path with \<open>Some\<close> text for a file and
  \<open>None\<close> for a directory. A path is absolute when its first part is \<open>/\<close>, as in
  \<open>PurePosixPath.parts\<close>.
\<close>

type_synonym fs = "(path \<times> string option) list"

datatype ingest_error =
    FileNotFoundError path  \<comment> \<open>the capture directory is missing\<close>
  | HeaderError header_error  \<comment> \<open>\<open>read_note\<close> raised on a file's header\<close>

definition path_name :: "path \<Rightarrow> string" where
  "path_name p = (if p = [] then [] else last p)"

definition path_str :: "path \<Rightarrow> string" where
  \<comment> \<open>\<open>str(path)\<close>\<close>
  "path_str p =
     (if p = [] then ''.'' else if hd p = ''/'' then ''/'' @ py_join ''/'' (tl p) else py_join ''/'' p)"

definition path_of_str :: "string \<Rightarrow> path" where
  \<comment> \<open>\<open>Path(s)\<close>: empty and \<open>.\<close> parts dropped, a leading \<open>/\<close> kept as the root\<close>
  "path_of_str s =
     (let parts = filter (\<lambda>x. x \<noteq> [] \<and> x \<noteq> ''.'') (py_split_char CHR ''/'' s)
      in if py_startswith s ''/'' then ''/'' # parts else parts)"

definition is_absolute :: "path \<Rightarrow> bool" where
  "is_absolute p \<longleftrightarrow> p \<noteq> [] \<and> hd p = ''/''"

fun resolve_parts :: "string list \<Rightarrow> string list \<Rightarrow> string list" where
  "resolve_parts acc [] = rev acc"
| "resolve_parts acc (q # qs) = (if q = ''..'' then resolve_parts (drop 1 acc) qs else resolve_parts (q # acc) qs)"

definition path_resolve :: "path \<Rightarrow> path \<Rightarrow> path" where
  \<comment> \<open>\<open>path.resolve()\<close> with \<open>cwd\<close> the working directory; without symbolic links
     resolving only removes the \<open>..\<close> parts\<close>
  "path_resolve cwd p = (let q = (if is_absolute p then p else cwd @ p) in ''/'' # resolve_parts [] (tl q))"

definition path_exists :: "fs \<Rightarrow> path \<Rightarrow> bool" where
  "path_exists fs p \<longleftrightarrow> p \<in> fst ` set fs"

fun mkdirs :: "fs \<Rightarrow> path list \<Rightarrow> exn + fs" where
  \<comment> \<open>create each directory in turn; an existing directory is kept, an existing file raises\<close>
  "mkdirs fs [] = Inr fs"
| "mkdirs fs (q # qs) =
     (case map_of fs q of
        Some (Some _) \<Rightarrow> Inl (OSError ''File exists'')
      | Some None \<Rightarrow> mkdirs fs qs
      | None \<Rightarrow> mkdirs (fs @ [(q, None)]) qs)"

definition mkdir_parents :: "fs \<Rightarrow> path \<Rightarrow> exn + fs" where
  \<comment> \<open>\<open>p.mkdir(parents=True, exist_ok=True)\<close> for an absolute \<open>p\<close>: every ancestor below \<open>/\<close>, then \<open>p\<close>\<close>
  "mkdir_parents fs p = mkdirs fs (map (\<lambda>n. take n p) [2..<Suc (length p)])"

definition rglob_md :: "fs \<Rightarrow> path \<Rightarrow> fs" where
  \<comment> \<open>\<open>dir.rglob("*.md")\<close>: every entry strictly below \<open>dir\<close> whose name ends in \<open>.md\<close>\<close>
  "rglob_md fs dir =
     filter (\<lambda>(p, _). take (length dir) p = dir \<and> length dir < length p \<and> py_endswith (path_name p) ''.md'') fs"

definition is_legacy_daily :: "string \<Rightarrow> bool" where
  \<comment> \<open>\<open>LEGACY_DAILY_PATTERN.fullmatch(name)\<close> for \<open>\d{4}-\d{2}-\d{2}\.md\<close>\<close>
  "is_legacy_daily name \<longleftrightarrow>
     length name = 13 \<and> list_all py_isdigit (take 4 name) \<and> name ! 4 = CHR ''-''
     \<and> list_all py_isdigit (take 2 (drop 5 name)) \<and> name ! 7 = CHR ''-''
     \<and> list_all py_isdigit (take 2 (drop 8 name)) \<and> drop 10 name = ''.md''"

fun collect_payloads :: "(string \<Rightarrow> string) \<Rightarrow> safe_load option \<Rightarrow> fs \<Rightarrow> ingest_error + note_payload list" where
  \<comment> \<open>the body of the \<open>for\<close> loop of \<open>iter_note_payloads\<close>, drained by \<open>list()\<close> in
     \<open>cli.main\<close>: an exception of one file ends the whole list\<close>
  "collect_payloads H S [] = Inr []"
| "collect_payloads H S ((p, None) # es) = collect_payloads H S es"
| "collect_payloads H S ((p, Some raw) # es) =
     (if is_legacy_daily (path_name p) then collect_payloads H S es
      else (case read_note S p raw of
              Inl e \<Rightarrow> Inl (HeaderError e)
            | Inr note \<Rightarrow>
                (case collect_payloads H S es of
                   Inl e \<Rightarrow> Inl e
                 | Inr payloads \<Rightarrow> Inr (to_payload H note # payloads))))"

definition iter_note_payloads ::
  "(string \<Rightarrow> string) \<Rightarrow> safe_load option \<Rightarrow> fs \<Rightarrow> path \<Rightarrow> path \<Rightarrow> ingest_error + note_payload list" where
  "iter_note_payloads H S fs root capture_dir0 =
     (let capture_dir = (if is_absolute capture_dir0 then capture_dir0 else root @ capture_dir0)
      in if \<not> path_exists fs capture_dir then Inl (FileNotFoundError capture_dir)
         else collect_payloads H S (sort_key fst (rglob_md fs capture_dir)))"

section \<open>Creating directories\<close>

lemma mkdirs_ext:
  "mkdirs fs qs = Inr fs' \<Longrightarrow> (\<exists>e. fs' = fs @ e) \<and> list_all (\<lambda>q. map_of fs' q = Some None) qs"
proof (induction fs qs rule: mkdirs.induct)
  case (2 fs q qs)
  show ?case
  proof (cases "map_of fs q")
    case None
    with "2.prems" have "mkdirs (fs @ [(q, None)]) qs = Inr fs'" by simp
    with None "2.IH" show ?thesis by (fastforce simp: map_add_def)
  next
    case (Some c)
    with "2.prems" have c: "c = None" by (cases c) auto
    with Some "2.prems" "2.IH" show ?thesis by auto
  qed
qed simp

lemma mkdir_parents_ext:
  assumes "mkdir_parents fs p = Inr fs'" and "2 \<le> length p"
  shows "(\<exists>e. fs' = fs @ e) \<and> map_of fs' p = Some None"
proof -
  have "p \<in> set (map (\<lambda>n. take n p) [2..<Suc (length p)])"
    using assms(2) by (auto intro: rev_image_eqI[of "length p"])
  then show ?thesis using mkdirs_ext[OF assms(1)[unfolded mkdir_parents_def]] by (auto simp: list_all_iff)
qed

section \<open>Failures of the ingestion\<close>

lemma read_note_fallback: "\<exists>note. read_note None p raw = Inr note"
  by (simp add: read_note_def yaml_load_def Let_def)

lemma collect_payloads_raises:
  "(\<exists>e. collect_payloads H S es = Inl e) \<longleftrightarrow>
   (\<exists>p raw. (p, Some raw) \<in> set es \<and> \<not> is_legacy_daily (path_name p) \<and> isl (read_note S p raw))"
proof (induction H S es rule: collect_payloads.induct)
  case (3 H S p raw es)
  show ?case
  proof (cases "\<not> is_legacy_daily (path_name p) \<and> isl (read_note S p raw)")
    case True
    then show ?thesis by (auto simp: isl_def)
  next
    case False
    show ?thesis
    proof (cases "is_legacy_daily (path_name p)")
      case True
      then show ?thesis using "3.IH" by auto
    next
      case nl: False
      with False obtain n where r: "read_note S p raw = Inr n" by (cases "read_note S p raw") auto
      have "(\<exists>e. collect_payloads H S ((p, Some raw) # es) = Inl e) \<longleftrightarrow> (\<exists>e. collect_payloads H S es = Inl e)"
        using nl r by (cases "collect_payloads H S es") auto
      also have "\<dots> \<longleftrightarrow> (\<exists>q r'. (q, Some r') \<in> set es \<and> \<not> is_legacy_daily (path_name q) \<and> isl (read_note S q r'))"
        using "3.IH" nl r by simp
      also have "\<dots> \<longleftrightarrow> (\<exists>q r'. (q, Some r') \<in> set ((p, Some raw) # es) \<and> \<not> is_legacy_daily (path_name q) \<and>
                              isl (read_note S q r'))"
        using r by auto
      finally show ?thesis .
    qed
  qed
qed auto

lemma collect_payloads_error: "collect_payloads H S es = Inl e \<Longrightarrow> \<exists>e'. e = HeaderError e'"
proof (induction H S es rule: collect_payloads.induct)
  case (3 H S p raw es)
  then show ?case by (auto split: if_splits sum.splits)
qed auto

lemma collect_payloads_fallback: "\<exists>ps. collect_payloads H None es = Inr ps"
proof (cases "collect_payloads H None es")
  case (Inl e)
  then obtain p raw where "isl (read_note None p raw)"
    using collect_payloads_raises[of H None es] by blast
  with read_note_fallback[of p raw] show ?thesis by auto
qed simp

end
