(* ===== verification/Store.thy ===== *)
theory Store
  imports Notes
begin

text \<open>
  \<open>src/scripts/automation/store.py\<close>, class \<open>AutomationStore\<close>: the SQLite ledger.
  Each table is the list of its rows keyed by the primary key: \<open>notes\<close> by \<open>path\<close>,
  \<open>emissions\<close> by \<open>(consumer, note_path)\<close>. An \<open>INSERT \<dots> ON CONFLICT DO UPDATE\<close>
  is \<open>AList.update\<close> on the key, a \<open>DELETE \<dots> WHERE\<close> is a filter, a \<open>SELECT\<close> by key
  is \<open>map_of\<close>. The clock \<open>_now()\<close> is the argument \<open>now\<close> of the operations that
  read it. The schema declares no foreign key, so the cascade of deletions is the one
  \<open>purge_missing\<close> performs itself.
\<close>

record note_row =
  row_hash :: string
  row_metadata :: header
  row_seen_at :: int

record emission_row =
  em_hash :: string
  em_emitted_at :: int
  em_status :: string
  em_metadata :: "header option"

record store =
  note_rows :: "(path \<times> note_row) list"
  emission_rows :: "((string \<times> path) \<times> emission_row) list"

definition empty_store :: store where
  \<comment> \<open>the tables \<open>_initialise\<close> creates in a new database file\<close>
  "empty_store = \<lparr>note_rows = [], emission_rows = []\<rparr>"

definition get_note_hash :: "store \<Rightarrow> path \<Rightarrow> string option" where
  "get_note_hash s p = map_option row_hash (map_of (note_rows s) p)"

definition upsert_note :: "int \<Rightarrow> note_payload \<Rightarrow> store \<Rightarrow> string option \<times> store" where
  "upsert_note now note s =
     (let previous = get_note_hash s (np_path note);
          row = \<lparr>row_hash = np_note_hash note, row_metadata = np_frontmatter note, row_seen_at = now\<rparr>
      in (previous, s\<lparr>note_rows := AList.update (np_path note) row (note_rows s)\<rparr>))"

definition purge_missing :: "path list \<Rightarrow> store \<Rightarrow> store" where
  "purge_missing existing_paths s =
     (let keep = set existing_paths;
          missing = filter (\<lambda>p. p \<notin> keep) (map fst (note_rows s))
      in if missing = [] then s
         else s\<lparr>note_rows := filter (\<lambda>(p, _). p \<notin> set missing) (note_rows s),
                emission_rows := filter (\<lambda>((c, p), _). p \<notin> set missing) (emission_rows s)\<rparr>)"

definition get_emission_hash :: "store \<Rightarrow> string \<Rightarrow> path \<Rightarrow> string option" where
  "get_emission_hash s consumer note_path = map_option em_hash (map_of (emission_rows s) (consumer, note_path))"

definition needs_emission :: "store \<Rightarrow> string \<Rightarrow> path \<Rightarrow> string \<Rightarrow> bool" where
  "needs_emission s consumer note_path note_hash \<longleftrightarrow>
     get_emission_hash s consumer note_path \<noteq> Some note_hash"

definition mark_emitted ::
  "int \<Rightarrow> string \<Rightarrow> path \<Rightarrow> string \<Rightarrow> string \<Rightarrow> header option \<Rightarrow> store \<Rightarrow> store" where
  "mark_emitted now consumer note_path note_hash status metadata s =
     (let metadata_json = (case metadata of Some m \<Rightarrow> if m \<noteq> [] then Some m else None | None \<Rightarrow> None);
          row = \<lparr>em_hash = note_hash, em_emitted_at = now, em_status = status, em_metadata = metadata_json\<rparr>
      in s\<lparr>emission_rows := AList.update (consumer, note_path) row (emission_rows s)\<rparr>)"

definition iter_notes :: "store \<Rightarrow> (path \<times> string) list" where
  "iter_notes s = map (\<lambda>(p, r). (p, row_hash r)) (note_rows s)"

definition iter_consumer_emissions :: "store \<Rightarrow> string \<Rightarrow> (path \<times> string) list" where
  "iter_consumer_emissions s consumer =
     map (\<lambda>((c, p), r). (p, em_hash r)) (filter (\<lambda>((c, p), r). c = consumer) (emission_rows s))"

section \<open>Well-formedness and abstraction\<close>

text \<open>
  The primary keys: at most one row per path and per (consumer, path). The ledger a
  store stands for is two maps, from paths to their last hash and from (consumer, path)
  to the hash last emitted.
\<close>

definition store_wf :: "store \<Rightarrow> bool" where
  "store_wf s \<longleftrightarrow> distinct (map fst (note_rows s)) \<and> distinct (map fst (emission_rows s))"

definition note_map :: "store \<Rightarrow> path \<rightharpoonup> string" where
  "note_map s = (\<lambda>p. get_note_hash s p)"

definition emission_map :: "store \<Rightarrow> string \<times> path \<rightharpoonup> string" where
  "emission_map s = (\<lambda>(c, p). get_emission_hash s c p)"

definition no_orphans :: "store \<Rightarrow> bool" where
  \<comment> \<open>every emission row belongs to a note row\<close>
  "no_orphans s \<longleftrightarrow> (\<forall>k \<in> fst ` set (emission_rows s). snd k \<in> fst ` set (note_rows s))"

section \<open>The ledger as two maps\<close>

text \<open>
  The contract of the ledger, as the spec states it: a map from note paths to their last
  fingerprint and a map from (consumer, path) to the fingerprint last settled. Purging a set
  of kept paths forgets the notes outside it, and the emissions of every forgotten note.
\<close>

record ledger =
  led_notes :: "path \<rightharpoonup> string"
  led_emitted :: "string \<times> path \<rightharpoonup> string"

definition ledger_of :: "store \<Rightarrow> ledger" where
  "ledger_of s = \<lparr>led_notes = note_map s, led_emitted = emission_map s\<rparr>"

definition led_upsert :: "path \<Rightarrow> string \<Rightarrow> ledger \<Rightarrow> string option \<times> ledger" where
  "led_upsert p h L = (led_notes L p, L\<lparr>led_notes := (led_notes L)(p \<mapsto> h)\<rparr>)"

definition led_purge :: "path set \<Rightarrow> ledger \<Rightarrow> ledger" where
  "led_purge keep L =
     \<lparr>led_notes = led_notes L |` keep,
      led_emitted = (\<lambda>(c, p). if p \<notin> keep \<and> p \<in> dom (led_notes L) then None else led_emitted L (c, p))\<rparr>"

definition led_mark :: "string \<Rightarrow> path \<Rightarrow> string \<Rightarrow> ledger \<Rightarrow> ledger" where
  "led_mark c p h L = L\<lparr>led_emitted := (led_emitted L)((c, p) \<mapsto> h)\<rparr>"

definition led_needs :: "ledger \<Rightarrow> string \<Rightarrow> path \<Rightarrow> string \<Rightarrow> bool" where
  "led_needs L c p h \<longleftrightarrow> led_emitted L (c, p) \<noteq> Some h"

lemmas store_ops_defs = get_note_hash_def upsert_note_def purge_missing_def get_emission_hash_def
  needs_emission_def mark_emitted_def

lemma map_of_filter_keys:
  "map_of (filter (\<lambda>(k, v). P k) xs) k = (if P k then map_of xs k else None)"
  by (induction xs) auto

lemma map_of_filter_keys_snd:
  "map_of (filter (\<lambda>((c, p), v). P p) xs) (c, p) = (if P p then map_of xs (c, p) else None)"
  by (induction xs) auto

lemma distinct_map_fst_filter [intro]:
  "distinct (map fst xs) \<Longrightarrow> distinct (map fst (filter P xs))"
  by (induction xs) (auto simp: image_iff)

lemma fst_set_update [simp]: "fst ` set (AList.update k v xs) = insert k (fst ` set xs)"
  by (simp add: dom_update)

lemma upsert_note_fst [simp]: "fst (upsert_note now note s) = get_note_hash s (np_path note)"
  by (simp add: upsert_note_def)

lemma upsert_note_emissions [simp]: "emission_rows (snd (upsert_note now note s)) = emission_rows s"
  by (simp add: upsert_note_def)

lemma upsert_note_get [simp]:
  "get_note_hash (snd (upsert_note now note s)) p =
     (if p = np_path note then Some (np_note_hash note) else get_note_hash s p)"
  by (simp add: upsert_note_def get_note_hash_def)

lemma get_emission_hash_upsert [simp]:
  "get_emission_hash (snd (upsert_note now note s)) c p = get_emission_hash s c p"
  by (simp add: get_emission_hash_def)

lemma purge_missing_get_note_hash:
  "get_note_hash (purge_missing keep s) p = (if p \<in> set keep then get_note_hash s p else None)"
proof (cases "p \<in> set keep")
  case True
  then show ?thesis
    by (auto simp: purge_missing_def get_note_hash_def Let_def map_of_filter_keys split: prod.splits)
next
  case False
  then have "map_of (note_rows s) p = None \<or> p \<in> set (filter (\<lambda>p. p \<notin> set keep) (map fst (note_rows s)))"
    by (auto simp: map_of_eq_None_iff)
  with False show ?thesis
    by (auto simp: purge_missing_def get_note_hash_def Let_def map_of_filter_keys filter_empty_conv)
qed

lemma purge_missing_get_emission_hash:
  "get_emission_hash (purge_missing keep s) c p =
     (if p \<notin> set keep \<and> get_note_hash s p \<noteq> None then None else get_emission_hash s c p)"
  by (auto simp: purge_missing_def get_emission_hash_def get_note_hash_def Let_def
      map_of_filter_keys_snd map_of_eq_None_iff image_iff filter_empty_conv)

lemma get_emission_hash_mark [simp]:
  "get_emission_hash (mark_emitted now c p h st md s) c' p' =
     (if (c', p') = (c, p) then Some h else get_emission_hash s c' p')"
  by (auto simp: mark_emitted_def get_emission_hash_def Let_def)

lemma notes_mark [simp]: "note_rows (mark_emitted now c p h st md s) = note_rows s"
  by (simp add: mark_emitted_def Let_def)

lemma get_note_hash_mark [simp]: "get_note_hash (mark_emitted now c p h st md s) q = get_note_hash s q"
  by (simp add: get_note_hash_def)

section \<open>Refinement\<close>

text \<open>
  C19: the SQLite tables implement the ledger contract. Through the abstraction
  \<open>ledger_of\<close>, \<open>upsert_note\<close>, \<open>purge_missing\<close>, \<open>mark_emitted\<close> and
  \<open>needs_emission\<close> are the map operations \<open>led_upsert\<close>, \<open>led_purge\<close>,
  \<open>led_mark\<close> and \<open>led_needs\<close>.
\<close>

theorem ledger_refinement:
  "apsnd ledger_of (upsert_note now note s) = led_upsert (np_path note) (np_note_hash note) (ledger_of s) \<and>
   ledger_of (purge_missing keep s) = led_purge (set keep) (ledger_of s) \<and>
   ledger_of (mark_emitted now c p h st md s) = led_mark c p h (ledger_of s) \<and>
   needs_emission s c p h = led_needs (ledger_of s) c p h"
proof (intro conjI)
  show "apsnd ledger_of (upsert_note now note s) = led_upsert (np_path note) (np_note_hash note) (ledger_of s)"
    by (simp add: prod_eq_iff ledger_of_def led_upsert_def note_map_def emission_map_def fun_eq_iff)
  show "ledger_of (purge_missing keep s) = led_purge (set keep) (ledger_of s)"
    by (auto simp: ledger_of_def led_purge_def note_map_def emission_map_def fun_eq_iff restrict_map_def
                   purge_missing_get_note_hash purge_missing_get_emission_hash)
  show "ledger_of (mark_emitted now c p h st md s) = led_mark c p h (ledger_of s)"
    by (auto simp: ledger_of_def led_mark_def note_map_def emission_map_def fun_eq_iff)
  show "needs_emission s c p h = led_needs (ledger_of s) c p h"
    by (simp add: needs_emission_def led_needs_def ledger_of_def emission_map_def)
qed

end
