(* ===== verification/Emitter.thy ===== *)
theory Emitter
  imports Store
begin

text \<open>
  \<open>src/scripts/automation/emitter.py\<close>, class \<open>NoteEmitter\<close>: \<open>refresh\<close> upserts every
  payload in order, records the hash each one had before, and then purges the notes
  that were not seen; \<open>pending_for_consumer\<close> keeps the states whose hash differs from
  the one last emitted to the consumer. The clock is read once per pass: the
  \<open>seen_at\<close> column it fills is never read back by the code.
\<close>

record note_state =
  ns_note :: note_payload
  ns_previous_hash :: "string option"

definition is_new :: "note_state \<Rightarrow> bool" where
  "is_new st \<longleftrightarrow> ns_previous_hash st = None"

definition changed :: "note_state \<Rightarrow> bool" where
  "changed st \<longleftrightarrow> ns_previous_hash st \<noteq> Some (np_note_hash (ns_note st))"

fun refresh_upserts :: "int \<Rightarrow> note_payload list \<Rightarrow> store \<Rightarrow> note_state list \<times> store" where
  \<comment> \<open>the \<open>for payload in payloads\<close> loop of \<open>refresh\<close>\<close>
  "refresh_upserts now [] s = ([], s)"
| "refresh_upserts now (payload # payloads) s =
     (let (previous, s1) = upsert_note now payload s;
          (states, s2) = refresh_upserts now payloads s1
      in (\<lparr>ns_note = payload, ns_previous_hash = previous\<rparr> # states, s2))"

definition refresh :: "int \<Rightarrow> note_payload list \<Rightarrow> store \<Rightarrow> note_state list \<times> store" where
  "refresh now payloads s =
     (let (states, s1) = refresh_upserts now payloads s
      in (states, purge_missing (map np_path payloads) s1))"

definition pending_for_consumer :: "store \<Rightarrow> string \<Rightarrow> note_state list \<Rightarrow> note_state list" where
  "pending_for_consumer s consumer_name states =
     filter (\<lambda>st. needs_emission s consumer_name (np_path (ns_note st)) (np_note_hash (ns_note st))) states"

section \<open>The upsert loop\<close>

lemma refresh_upserts_Cons_split [simp]:
  "refresh_upserts now (n # ps) s =
     (let s1 = snd (upsert_note now n s)
      in (\<lparr>ns_note = n, ns_previous_hash = get_note_hash s (np_path n)\<rparr> # fst (refresh_upserts now ps s1),
          snd (refresh_upserts now ps s1)))"
  by (simp add: upsert_note_def Let_def split_def)

declare refresh_upserts.simps(2) [simp del]

lemma refresh_upserts_notes:
  "map ns_note (fst (refresh_upserts now ps s)) = ps"
  by (induction ps arbitrary: s) (auto simp: Let_def)

lemma refresh_upserts_emissions [simp]:
  "emission_rows (snd (refresh_upserts now ps s)) = emission_rows s"
  by (induction ps arbitrary: s) (auto simp: Let_def)

lemma refresh_upserts_get_emission [simp]:
  "get_emission_hash (snd (refresh_upserts now ps s)) c p = get_emission_hash s c p"
  by (simp add: get_emission_hash_def)

lemma refresh_upserts_get_note:
  "get_note_hash (snd (refresh_upserts now ps s)) p =
     (if p \<in> set (map np_path ps) then Some (np_note_hash (last (filter (\<lambda>n. np_path n = p) ps)))
      else get_note_hash s p)"
proof (induction ps arbitrary: s)
  case Nil
  then show ?case by simp
next
  case (Cons n ps)
  then show ?case
    by (auto simp: filter_empty_conv Let_def)
qed

lemma refresh_upserts_previous:
  assumes "distinct (map np_path ps)" and "i < length ps"
  shows "ns_previous_hash (fst (refresh_upserts now ps s) ! i) = get_note_hash s (np_path (ps ! i))"
  using assms
proof (induction ps arbitrary: s i)
  case Nil
  then show ?case by simp
next
  case (Cons n ps)
  show ?case
  proof (cases i)
    case 0
    then show ?thesis by (simp add: Let_def)
  next
    case (Suc j)
    with Cons.prems(2) have "ps ! j \<in> set ps"
      by simp
    with Cons.prems(1) have "np_path (ps ! j) \<noteq> np_path n"
      by (metis distinct.simps(2) image_eqI list.set_map list.simps(9))
    with Cons.IH[where i = j] Cons.prems Suc show ?thesis
      by (simp add: Let_def)
  qed
qed

lemma refresh_upserts_length [simp]: "length (fst (refresh_upserts now ps s)) = length ps"
  using refresh_upserts_notes[of now ps s] by (metis length_map)

lemma store_wf_upsert:
  "store_wf s \<Longrightarrow> store_wf (snd (upsert_note now n s))"
  by (simp add: store_wf_def upsert_note_def distinct_update)

lemma store_wf_refresh_upserts:
  "store_wf s \<Longrightarrow> store_wf (snd (refresh_upserts now ps s))"
proof (induction ps arbitrary: s)
  case Nil
  then show ?case by simp
next
  case (Cons n ps)
  from store_wf_upsert[OF Cons.prems] have "store_wf (snd (upsert_note now n s))" .
  then show ?case
    using Cons.IH by (simp add: Let_def)
qed

lemma note_paths_refresh_upserts:
  "fst ` set (note_rows (snd (refresh_upserts now ps s))) = fst ` set (note_rows s) \<union> set (map np_path ps)"
  by (induction ps arbitrary: s) (auto simp: upsert_note_def Let_def)

lemma store_wf_purge:
  "store_wf s \<Longrightarrow> store_wf (purge_missing keep s)"
  by (auto simp: store_wf_def purge_missing_def Let_def)

lemma no_orphans_refresh_upserts:
  "no_orphans s \<Longrightarrow> no_orphans (snd (refresh_upserts now ps s))"
  by (auto simp: no_orphans_def note_paths_refresh_upserts)

lemma no_orphans_purge:
  "no_orphans s \<Longrightarrow> no_orphans (purge_missing keep s)"
  by (fastforce simp: no_orphans_def purge_missing_def Let_def image_iff)

lemma refresh_split:
  "refresh now ps s =
     (fst (refresh_upserts now ps s), purge_missing (map np_path ps) (snd (refresh_upserts now ps s)))"
  by (simp add: refresh_def split_def Let_def)

lemma refresh_state_notes: "st \<in> set (fst (refresh now ps s)) \<Longrightarrow> ns_note st \<in> set ps"
proof -
  assume "st \<in> set (fst (refresh now ps s))"
  then have "ns_note st \<in> set (map ns_note (fst (refresh_upserts now ps s)))"
    by (simp add: refresh_split)
  then show ?thesis by (simp only: refresh_upserts_notes)
qed

lemma refresh_get_emission_seen:
  "p \<in> set (map np_path ps) \<Longrightarrow> get_emission_hash (snd (refresh now ps s)) c p = get_emission_hash s c p"
  by (simp add: refresh_split purge_missing_get_emission_hash)

lemma pending_for_consumer_member:
  "st \<in> set (pending_for_consumer s c states) \<longleftrightarrow>
     st \<in> set states \<and> get_emission_hash s c (np_path (ns_note st)) \<noteq> Some (np_note_hash (ns_note st))"
  by (auto simp: pending_for_consumer_def needs_emission_def)

section \<open>Properties of a refresh pass\<close>

text \<open>
  C1: idempotence. If a consumer has settled every note (its emitted hash is the note's
  current hash), a new pass over the same notes leaves nothing pending for it.
\<close>

theorem refresh_idempotent_pending:
  assumes "\<forall>n \<in> set ps. get_emission_hash s c (np_path n) = Some (np_note_hash n)"
  shows "pending_for_consumer (snd (refresh now ps s)) c (fst (refresh now ps s)) = []"
proof -
  have "\<not> needs_emission (snd (refresh now ps s)) c (np_path (ns_note st)) (np_note_hash (ns_note st))"
    if "st \<in> set (fst (refresh now ps s))" for st
  proof -
    from that have n: "ns_note st \<in> set ps" by (rule refresh_state_notes)
    then have "np_path (ns_note st) \<in> set (map np_path ps)" by simp
    then show ?thesis
      using n assms by (simp add: needs_emission_def refresh_get_emission_seen)
  qed
  then show ?thesis
    by (simp add: pending_for_consumer_def filter_empty_conv)
qed

text \<open>
  C2: deletion. A note that has a row before the pass and is not among the notes seen
  loses its row, and every consumer's emission row for it is deleted with it.
\<close>

theorem refresh_deletes_missing:
  assumes "get_note_hash s p \<noteq> None" and "p \<notin> set (map np_path ps)"
  shows "get_note_hash (snd (refresh now ps s)) p = None \<and>
         (\<forall>c. get_emission_hash (snd (refresh now ps s)) c p = None)"
proof -
  have "get_note_hash (snd (refresh_upserts now ps s)) p \<noteq> None"
    using assms by (simp add: refresh_upserts_get_note)
  then show ?thesis
    using assms(2) by (simp add: refresh_split purge_missing_get_note_hash purge_missing_get_emission_hash)
qed

text \<open>
  C3: the states a pass returns. One state per payload, in order, each with the hash
  the ledger held for its path before the pass (for paths that occur once); afterwards
  the ledger maps exactly the seen paths to their hashes.
\<close>

theorem refresh_states:
  assumes "distinct (map np_path ps)"
  shows "map ns_note (fst (refresh now ps s)) = ps \<and>
         (\<forall>i < length ps. ns_previous_hash (fst (refresh now ps s) ! i) = get_note_hash s (np_path (ps ! i))) \<and>
         (\<forall>p. get_note_hash (snd (refresh now ps s)) p =
                map_option np_note_hash (map_of (map (\<lambda>n. (np_path n, n)) ps) p))"
proof (intro conjI allI impI)
  show "map ns_note (fst (refresh now ps s)) = ps"
    by (simp add: refresh_split refresh_upserts_notes)
next
  fix i assume "i < length ps"
  then show "ns_previous_hash (fst (refresh now ps s) ! i) = get_note_hash s (np_path (ps ! i))"
    using assms by (simp add: refresh_split refresh_upserts_previous)
next
  fix p
  have last_eq: "p \<in> set (map np_path ps) \<Longrightarrow>
      map_of (map (\<lambda>n. (np_path n, n)) ps) p = Some (last (filter (\<lambda>n. np_path n = p) ps))"
    using assms
  proof (induction ps)
    case Nil
    then show ?case by simp
  next
    case (Cons n ps)
    then show ?case
      by (auto simp: filter_empty_conv image_iff)
  qed
  show "get_note_hash (snd (refresh now ps s)) p = map_option np_note_hash (map_of (map (\<lambda>n. (np_path n, n)) ps) p)"
  proof (cases "p \<in> set (map np_path ps)")
    case True
    then show ?thesis
      by (simp add: refresh_split purge_missing_get_note_hash refresh_upserts_get_note last_eq)
  next
    case False
    then have "map_of (map (\<lambda>n. (np_path n, n)) ps) p = None"
      by (auto simp: map_of_eq_None_iff)
    with False show ?thesis
      by (simp add: refresh_split purge_missing_get_note_hash)
  qed
qed

text \<open>
  C4: a pass keeps the ledger well formed: at most one row per primary key, and no
  emission row without its note row.
\<close>

theorem refresh_preserves_wf:
  assumes "store_wf s" and "no_orphans s"
  shows "store_wf (snd (refresh now ps s)) \<and> no_orphans (snd (refresh now ps s))"
  using assms by (simp add: refresh_split store_wf_purge store_wf_refresh_upserts
      no_orphans_purge no_orphans_refresh_upserts)

end
