(* ===== verification/Consumers.thy ===== *)
theory Consumers
  imports Emitter
begin

text \<open>
  \<open>src/scripts/automation/consumers/base.py\<close> and \<open>consumers/__init__.py\<close>: the result
  of handling a note, the consumer interface and the registry of consumer types. A
  consumer is a value of a type \<open>'c\<close> (its instance state); the interface is the
  record \<open>consumer_ops\<close> of its methods, in state-passing form: \<open>handle\<close> takes the
  consumer, the store and the external world \<open>'w\<close> the consumer talks to (shared by
  all consumers), and returns the outcome (a raised exception or a result) together with
  the consumer, the store and the world as they are afterwards, so that effects made
  before an exception persist as they do in Python.
\<close>

record consumer_result =
  cr_status :: string
  cr_note_path :: path
  cr_message :: string
  cr_metadata :: "header option"

type_synonym outcome = "exn + consumer_result"

record consumer_config =
  cc_name :: string
  cc_type :: string
  cc_enabled :: bool
  cc_options :: header

record ('c, 'w) consumer_ops =
  co_name :: "'c \<Rightarrow> string"
  co_matches :: "'c \<Rightarrow> note_state \<Rightarrow> bool"
  co_handle :: "'c \<Rightarrow> note_state \<Rightarrow> store \<Rightarrow> 'w \<Rightarrow> outcome \<times> 'c \<times> store \<times> 'w"

definition to_status_kwargs :: "consumer_result \<Rightarrow> string \<times> header" where
  "to_status_kwargs r = (cr_status r, case cr_metadata r of None \<Rightarrow> [] | Some m \<Rightarrow> m)"

definition base_matches :: "'c \<Rightarrow> note_state \<Rightarrow> bool" where
  \<comment> \<open>\<open>Consumer.matches\<close>\<close>
  "base_matches c st = True"

definition base_handle :: "'c \<Rightarrow> note_state \<Rightarrow> store \<Rightarrow> 'w \<Rightarrow> outcome \<times> 'c \<times> store \<times> 'w" where
  \<comment> \<open>\<open>Consumer.handle\<close>\<close>
  "base_handle c st s w = (Inl NotImplementedError, c, s, w)"

section \<open>Registry\<close>

text \<open>
  A registry maps a type name to the class's constructor, which reads the configuration
  and the external world (the Taskwarrior constructor queries Taskwarrior and creates its
  backup directory) and either raises or returns the new instance, together with the world
  as it leaves it in both cases.
\<close>

type_synonym ('cfg, 'w, 'c) constructor = "'cfg \<Rightarrow> 'w \<Rightarrow> (exn + 'c) \<times> 'w"

type_synonym ('cfg, 'w, 'c) registry = "(string \<times> ('cfg, 'w, 'c) constructor) list"

definition register ::
  "string \<Rightarrow> ('cfg, 'w, 'c) constructor \<Rightarrow> ('cfg, 'w, 'c) registry \<Rightarrow> exn + ('cfg, 'w, 'c) registry" where
  "register name cls reg =
     (if name \<in> fst ` set reg then Inl (ValueError (''Consumer type '' @ quoted name @ '' already registered.''))
      else Inr (AList.update name cls reg))"

definition get_consumer_class ::
  "('cfg, 'w, 'c) registry \<Rightarrow> string \<Rightarrow> exn + ('cfg, 'w, 'c) constructor" where
  "get_consumer_class reg name =
     (case map_of reg name of
        None \<Rightarrow> Inl (KeyError (''Unknown consumer type '' @ quoted name @ ''.''))
      | Some cls \<Rightarrow> Inr cls)"

fun build_consumers ::
  "(consumer_config, 'w, 'c) registry \<Rightarrow> 'w \<Rightarrow> consumer_config list \<Rightarrow> (exn + 'c list) \<times> 'w" where
  "build_consumers reg w [] = (Inr [], w)"
| "build_consumers reg w (cfg # cfgs) =
     (if \<not> cc_enabled cfg then build_consumers reg w cfgs
      else (case get_consumer_class reg (cc_type cfg) of
              Inl e \<Rightarrow> (Inl e, w)
            | Inr cls \<Rightarrow>
                (case cls cfg w of
                   (Inl e, w1) \<Rightarrow> (Inl e, w1)
                 | (Inr c, w1) \<Rightarrow>
                     (case build_consumers reg w1 cfgs of
                        (Inl e, w2) \<Rightarrow> (Inl e, w2)
                      | (Inr cs, w2) \<Rightarrow> (Inr (c # cs), w2)))))"

definition names_from_config :: "('c \<Rightarrow> string) \<Rightarrow> (consumer_config, 'w, 'c) registry \<Rightarrow> bool" where
  \<comment> \<open>the constructor contract: an instance is named by its configuration\<close>
  "names_from_config nm reg \<longleftrightarrow>
     (\<forall>cls \<in> snd ` set reg. \<forall>cfg w c w'. cls cfg w = (Inr c, w') \<longrightarrow> nm c = cc_name cfg)"

section \<open>Properties of the registry\<close>

text \<open>
  C20: registration round trip and its error. Registering a class under a new name makes
  \<open>get_consumer_class\<close> return that class; registering the name a second time raises
  \<open>ValueError\<close> and an unregistered name raises \<open>KeyError\<close>.
\<close>

theorem register_roundtrip:
  assumes "register name cls reg = Inr reg'"
  shows "get_consumer_class reg' name = Inr cls \<and>
         register name cls' reg' = Inl (ValueError (''Consumer type '' @ quoted name @ '' already registered.'')) \<and>
         (\<forall>other. other \<noteq> name \<longrightarrow> get_consumer_class reg' other = get_consumer_class reg other)"
  using assms
  by (auto simp: register_def get_consumer_class_def update_conv' split: if_splits)

lemma get_consumer_class_Inr: "get_consumer_class reg t = Inr cls \<Longrightarrow> cls \<in> snd ` set reg"
  by (auto simp: get_consumer_class_def split: option.splits dest: map_of_SomeD intro: rev_image_eqI)

lemma names_from_configD:
  "names_from_config nm reg \<Longrightarrow> cls \<in> snd ` set reg \<Longrightarrow> cls cfg w = (Inr c, w') \<Longrightarrow> nm c = cc_name cfg"
  unfolding names_from_config_def by blast

lemma build_consumers_names:
  assumes "names_from_config nm reg" and "build_consumers reg w cfgs = (Inr cs, w')"
  shows "set (map nm cs) \<subseteq> set (map cc_name cfgs) \<and>
         (distinct (map cc_name cfgs) \<longrightarrow> distinct (map nm cs)) \<and>
         (sorted (map cc_name cfgs) \<longrightarrow> sorted (map nm cs))"
  using assms(2)
proof (induction cfgs arbitrary: w cs w')
  case (Cons cfg cfgs)
  show ?case
  proof (cases "cc_enabled cfg")
    case True
    with Cons.prems obtain cls c w1 cs' where
      cls: "get_consumer_class reg (cc_type cfg) = Inr cls" and c: "cls cfg w = (Inr c, w1)" and
      cs': "build_consumers reg w1 cfgs = (Inr cs', w')" and cs: "cs = c # cs'"
      by (auto split: sum.splits prod.splits)
    have n: "nm c = cc_name cfg"
      using names_from_configD[OF assms(1) get_consumer_class_Inr[OF cls] c] .
    note ih = Cons.IH[OF cs']
    have sub: "set (map nm cs') \<subseteq> set (map cc_name cfgs)" using ih by blast
    have "distinct (map nm cs)" if "distinct (map cc_name (cfg # cfgs))"
      using that ih sub n cs by auto
    moreover have "sorted (map nm cs)" if "sorted (map cc_name (cfg # cfgs))"
    proof -
      have "sorted (map nm cs')" using that ih by simp
      moreover have "\<forall>x \<in> set (map nm cs'). cc_name cfg \<le> x" using that sub by auto
      ultimately show ?thesis using n cs by simp
    qed
    ultimately show ?thesis using sub n cs by auto
  next
    case False
    with Cons.prems have "build_consumers reg w cfgs = (Inr cs, w')" by simp
    note ih = Cons.IH[OF this]
    then show ?thesis using False by auto
  qed
qed simp

end
