(* ===== verification/TaskText.thy ===== *)
theory TaskText
  imports Consumers
begin

text \<open>
  The text functions of \<open>src/scripts/automation/consumers/taskwarrior.py\<close> that do not
  touch the consumer's state: tag normalisation, the description of a note, the two
  deduplication keys, \<open>str.format\<close> of the annotation template, the task payload, and
  the \<open>data.location\<close> lookup in a taskrc file. The clock and the ISO timestamp parser
  of \<open>_task_timestamp\<close> are arguments (\<open>now_ts\<close>, \<open>parse_ts\<close>).
\<close>

section \<open>Path stems\<close>

definition path_stem :: "path \<Rightarrow> string" where
  \<comment> \<open>\<open>path.stem\<close>: the name without its last suffix\<close>
  "path_stem p =
     (let name = path_name p;
          i = (if CHR ''.'' \<in> set name then length name - 1 - length (takeWhile (\<lambda>c. c \<noteq> CHR ''.'') (rev name))
               else 0)
      in if CHR ''.'' \<in> set name \<and> 0 < i \<and> i < length name - 1 then take i name else name)"

definition relative_to :: "path \<Rightarrow> path \<Rightarrow> path option" where
  \<comment> \<open>\<open>path.relative_to(base)\<close>; \<open>None\<close> is its \<open>ValueError\<close>\<close>
  "relative_to p base = (if take (length base) p = base then Some (drop (length base) p) else None)"

section \<open>Tags, description, keys\<close>

definition normalise_tag :: "string \<Rightarrow> string" where
  "normalise_tag v = py_lower (map (\<lambda>c. if c = CHR '' '' then CHR ''_'' else c) (py_strip v))"

definition build_description :: "note_payload \<Rightarrow> string" where
  \<comment> \<open>\<open>_build_description\<close>\<close>
  "build_description note =
     (let t = header_get (np_frontmatter note) ''title'';
          title = (if py_truthy t then py_strip (py_str t) else []);
          lines = map py_strip (py_splitlines (np_content note));
          filtered = filter (\<lambda>l. l \<noteq> [] \<and> \<not> py_startswith l ''#'') lines;
          candidate0 =
            (if filtered = [] \<and> title \<noteq> [] then title
             else if filtered \<noteq> [] then
               hd filtered @ (if 1 < length filtered then '' '' @ py_join '' '' (tl filtered) else [])
             else path_stem (np_path note));
          candidate1 = py_join '' '' (py_split_ws candidate0);
          candidate2 = (if 512 < length candidate1 then take 509 candidate1 @ ''...'' else candidate1)
      in py_strip candidate2)"

definition project_or_empty :: "string option \<Rightarrow> string" where
  \<comment> \<open>\<open>(project or "")\<close>\<close>
  "project_or_empty project = (case project of None \<Rightarrow> [] | Some p \<Rightarrow> p)"

type_synonym task_key = "string \<times> string list \<times> string"
type_synonym summary_key = "string \<times> string"

definition task_key :: "string \<Rightarrow> string list \<Rightarrow> string option \<Rightarrow> task_key" where
  \<comment> \<open>\<open>_task_key\<close>, the strict key\<close>
  "task_key description tags project =
     (py_lower (py_strip description), sort (map py_lower tags), py_lower (project_or_empty project))"

definition summary_key :: "string \<Rightarrow> string option \<Rightarrow> summary_key" where
  \<comment> \<open>\<open>_summary_key\<close>, the loose key\<close>
  "summary_key description project =
     (py_lower (py_strip description), py_lower (py_strip (project_or_empty project)))"

section \<open>Annotation template\<close>

text \<open>
  \<open>template.format(**context)\<close> for replacement fields that are plain names, with the
  escapes \<open>{{\<close> and \<open>}}\<close>. Parsing goes left to right and stops at the first error, as
  Python's formatter does: an unknown name is a \<open>KeyError\<close>, an empty field an
  \<open>IndexError\<close> (there are no positional arguments), an unmatched brace a
  \<open>ValueError\<close>. Conversions (\<open>!r\<close>), format specifications (\<open>:>10\<close>) and attribute
  or index access inside a field are not modelled.
\<close>

function str_format :: "string \<Rightarrow> (string \<times> string) list \<Rightarrow> exn + string" where
  "str_format [] ctx = Inr []"
| "str_format (c # cs) ctx =
     (if c = CHR ''{'' then
        (if cs \<noteq> [] \<and> hd cs = CHR ''{'' then map_sum id (Cons c) (str_format (tl cs) ctx)
         else (let name = takeWhile (\<lambda>x. x \<noteq> CHR ''}'') cs; rest = dropWhile (\<lambda>x. x \<noteq> CHR ''}'') cs in
               if rest = [] then Inl (ValueError ''expected '}' before end of string'')
               else if name = [] then Inl (IndexError ''Replacement index 0 out of range'')
               else (case map_of ctx name of
                       None \<Rightarrow> Inl (KeyError name)
                     | Some v \<Rightarrow> map_sum id (append v) (str_format (tl rest) ctx))))
      else if c = CHR ''}'' then
        (if cs \<noteq> [] \<and> hd cs = CHR ''}'' then map_sum id (Cons c) (str_format (tl cs) ctx)
         else Inl (ValueError ''Single '}' encountered in format string''))
      else map_sum id (Cons c) (str_format cs ctx))"
  by pat_completeness auto
termination str_format
proof (relation "measure (\<lambda>(s, ctx). length s)")
  fix c cs rest and ctx :: "(string \<times> string) list"
  assume "rest = dropWhile (\<lambda>x. x \<noteq> CHR ''}'') cs"
  then show "((tl rest, ctx), c # cs, ctx) \<in> measure (\<lambda>(s, ctx). length s)"
    using length_dropWhile_le[of "\<lambda>x. x \<noteq> CHR ''}''" cs] by simp
qed auto

definition or_else :: "yval \<Rightarrow> yval \<Rightarrow> yval" where
  \<comment> \<open>Python's \<open>a or b\<close> on values\<close>
  "or_else a b = (if py_truthy a then a else b)"

definition format_annotation :: "yval \<Rightarrow> path \<Rightarrow> note_payload \<Rightarrow> exn + string option" where
  \<comment> \<open>\<open>_format_annotation\<close>, given the template option and the vault root\<close>
  "format_annotation template vault_root note =
     (if \<not> py_truthy template then Inr None
      else (case template of
              YStr tpl \<Rightarrow>
                (let rel = (case relative_to (np_path note) vault_root of None \<Rightarrow> np_path note | Some r \<Rightarrow> r);
                     fm = np_frontmatter note;
                     ctx = [(''path'', path_str (np_path note)), (''relative_path'', path_str rel),
                            (''id'', py_str (or_else (header_get fm ''id'') (YStr []))),
                            (''capture_id'', py_str (or_else (header_get fm ''capture_id'') (YStr [])))]
                 in case str_format tpl ctx of
                      Inl (KeyError _) \<Rightarrow> Inr (Some tpl)
                    | Inl e \<Rightarrow> Inl e
                    | Inr out \<Rightarrow> Inr (Some out))
            | _ \<Rightarrow> Inl (AttributeError ''object has no attribute format'')))"

section \<open>Task payload\<close>

definition task_timestamp :: "(string \<Rightarrow> string option) \<Rightarrow> string \<Rightarrow> string \<Rightarrow> string" where
  \<comment> \<open>\<open>_task_timestamp(source)\<close>: the parsed source in UTC, else the current time\<close>
  "task_timestamp parse_ts now_ts source =
     (if source \<noteq> [] then (case parse_ts source of Some t \<Rightarrow> t | None \<Rightarrow> now_ts) else now_ts)"

definition build_task_payload ::
  "(string \<Rightarrow> string option) \<Rightarrow> string \<Rightarrow> note_payload \<Rightarrow> string \<Rightarrow> string list \<Rightarrow> string option \<Rightarrow>
   string option \<Rightarrow> yval" where
  \<comment> \<open>\<open>_build_task_payload\<close>: the JSON object handed to \<open>task import\<close>\<close>
  "build_task_payload parse_ts now_ts note description tags project annotation =
     (let fm = np_frontmatter note;
          entry_ts = task_timestamp parse_ts now_ts
            (py_str (or_else (header_get fm ''timestamp'') (or_else (header_get fm ''created_date'') (YStr []))))
      in YMap ([(''description'', YStr description), (''entry'', YStr entry_ts)]
               @ (if tags \<noteq> [] then [(''tags'', YList (map YStr tags))] else [])
               @ (if project_or_empty project \<noteq> [] then [(''project'', YStr (project_or_empty project))] else [])
               @ (case annotation of
                    Some a \<Rightarrow> if a \<noteq> [] then [(''annotations'', YList [YMap [(''entry'', YStr now_ts), (''description'', YStr a)]])] else []
                  | None \<Rightarrow> [])))"

section \<open>taskrc\<close>

fun taskrc_lookup :: "string list \<Rightarrow> string option" where
  \<comment> \<open>the loop of \<open>_parse_taskrc_for_data_location\<close> over the file's lines\<close>
  "taskrc_lookup [] = None"
| "taskrc_lookup (line # lines) =
     (let stripped = py_strip line in
      if stripped = [] \<or> py_startswith stripped ''#'' then taskrc_lookup lines
      else if CHR ''='' \<notin> set stripped then taskrc_lookup lines
      else (case py_split1 CHR ''='' stripped of (key, val) \<Rightarrow>
              if py_lower (py_strip key) = ''data.location'' then
                (let v = py_strip val in
                 if v \<noteq> [] then
                   Some (if (py_startswith v [CHR 0x22] \<and> py_endswith v [CHR 0x22])
                            \<or> (py_startswith v [CHR 0x27] \<and> py_endswith v [CHR 0x27])
                         then py_slice_inner v else v)
                 else taskrc_lookup lines)
              else taskrc_lookup lines))"

definition parse_taskrc_data_location :: "string \<Rightarrow> string option" where
  "parse_taskrc_data_location text = taskrc_lookup (py_splitlines text)"

section \<open>Properties of the description\<close>

text \<open>
  C18: the description is bounded. Whatever the note, the description given to
  Taskwarrior has at most 512 characters.
\<close>

theorem build_description_length: "length (build_description note) \<le> 512"
proof -
  have "length (if 512 < length c then take 509 c @ ''...'' else c) \<le> 512" for c :: string
    by simp
  then show ?thesis
    unfolding build_description_def Let_def by (meson order_trans py_strip_length)
qed

end
