(* ===== verification/Cli.thy ===== *)
theory Cli
  imports Consumers
begin

text \<open>
  The dispatch part of \<open>src/scripts/automation/cli.py\<close>, \<open>main\<close>: the consumer
  filter, the ingestion and refresh, the loop over consumers and their pending notes,
  the tally of outcomes and the exit code. A crash carries the ledger and the world as
  the crash leaves them: every row written before it is committed. The tally is a dictionary with the keys
  \<open>success\<close>, \<open>skip\<close> and \<open>error\<close> only; \<open>summary[name][result.status] += 1\<close>
  with another status raises \<open>KeyError\<close>, outside the \<open>try\<close>, which ends the run.
  Argument parsing, the logging level and the steps of \<open>main\<close> before the dispatch are
  in \<open>CliMain\<close>.
\<close>

record counts =
  n_success :: nat
  n_skip :: nat
  n_error :: nat

definition zero_counts :: counts where
  "zero_counts = \<lparr>n_success = 0, n_skip = 0, n_error = 0\<rparr>"

type_synonym summary = "(string \<times> counts) list"

definition bump :: "string \<Rightarrow> counts \<Rightarrow> counts option" where
  \<comment> \<open>\<open>summary[name][status] += 1\<close>: \<open>None\<close> is the \<open>KeyError\<close> of a status without a key\<close>
  "bump st c =
     (if st = ''success'' then Some (c\<lparr>n_success := Suc (n_success c)\<rparr>)
      else if st = ''skip'' then Some (c\<lparr>n_skip := Suc (n_skip c)\<rparr>)
      else if st = ''error'' then Some (c\<lparr>n_error := Suc (n_error c)\<rparr>)
      else None)"

datatype crash =
    SummaryKeyError string  \<comment> \<open>the \<open>KeyError\<close> of the tally\<close>
  | HeaderRaised header_error  \<comment> \<open>an exception of \<open>read_note\<close> while the notes are listed\<close>

fun dispatch_states ::
  "('c, 'w) consumer_ops \<Rightarrow> 'c \<Rightarrow> note_state list \<Rightarrow> store \<Rightarrow> 'w \<Rightarrow> counts \<Rightarrow> bool \<Rightarrow>
   (crash \<times> store \<times> 'w) + ('c \<times> store \<times> 'w \<times> counts \<times> bool)" where
  \<comment> \<open>\<open>for state in pending_states\<close>: the inner loop of \<open>main\<close>\<close>
  "dispatch_states ops c [] s w cnt failure = Inr (c, s, w, cnt, failure)"
| "dispatch_states ops c (st # sts) s w cnt failure =
     (if \<not> co_matches ops c st then dispatch_states ops c sts s w cnt failure
      else (case co_handle ops c st s w of
              (Inl e, c', s', w') \<Rightarrow>
                dispatch_states ops c' sts s' w' (cnt\<lparr>n_error := Suc (n_error cnt)\<rparr>) True
            | (Inr r, c', s', w') \<Rightarrow>
                (case bump (cr_status r) cnt of
                   None \<Rightarrow> Inl (SummaryKeyError (cr_status r), s', w')
                 | Some cnt' \<Rightarrow> dispatch_states ops c' sts s' w' cnt' failure)))"

fun run_consumers ::
  "('c, 'w) consumer_ops \<Rightarrow> 'c list \<Rightarrow> note_state list \<Rightarrow> store \<Rightarrow> 'w \<Rightarrow> summary \<Rightarrow> bool \<Rightarrow>
   (crash \<times> store \<times> 'w) + ('c list \<times> store \<times> 'w \<times> summary \<times> bool)" where
  \<comment> \<open>\<open>for consumer in consumers\<close>: the outer loop of \<open>main\<close>\<close>
  "run_consumers ops [] states s w summ failure = Inr ([], s, w, summ, failure)"
| "run_consumers ops (c # cs) states s w summ failure =
     (let summ1 = AList.update (co_name ops c) zero_counts summ;
          pending = pending_for_consumer s (co_name ops c) states
      in if pending = [] then
           (case run_consumers ops cs states s w summ1 failure of
              Inl e \<Rightarrow> Inl e | Inr (cs', s', w', summ', f') \<Rightarrow> Inr (c # cs', s', w', summ', f'))
         else
           (case dispatch_states ops c pending s w zero_counts failure of
              Inl e \<Rightarrow> Inl e
            | Inr (c', s1, w1, cnt, f1) \<Rightarrow>
                (case run_consumers ops cs states s1 w1 (AList.update (co_name ops c) cnt summ1) f1 of
                   Inl e \<Rightarrow> Inl e | Inr (cs', s', w', summ', f') \<Rightarrow> Inr (c' # cs', s', w', summ', f'))))"

definition select_consumers :: "('c, 'w) consumer_ops \<Rightarrow> 'c list \<Rightarrow> string list \<Rightarrow> 'c list" where
  \<comment> \<open>the \<open>--consumer\<close> filter: names compared in lower case\<close>
  "select_consumers ops cs names =
     filter (\<lambda>c. py_lower (co_name ops c) \<in> set (map py_lower names)) cs"

datatype main_result = Exit nat | Crash crash

record main_input =
  mi_fs :: fs
  mi_vault_root :: path
  mi_capture_dir :: path
  mi_list_consumers :: bool
  mi_filters :: "string list"
  mi_now :: int

definition main_run ::
  "('c, 'w) consumer_ops \<Rightarrow> (string \<Rightarrow> string) \<Rightarrow> safe_load option \<Rightarrow> 'c list \<Rightarrow> main_input \<Rightarrow> store \<Rightarrow> 'w \<Rightarrow>
   main_result \<times> string list \<times> store \<times> 'w" where
  \<comment> \<open>\<open>main\<close> after \<open>build_consumers\<close>: exit code, lines printed, ledger and world afterwards\<close>
  "main_run ops H S consumers0 inp s w =
     (if mi_list_consumers inp then (Exit 0, map (co_name ops) consumers0, s, w)
      else
        (let consumers = (if mi_filters inp \<noteq> [] then select_consumers ops consumers0 (mi_filters inp)
                          else consumers0)
         in if mi_filters inp \<noteq> [] \<and> consumers = [] then (Exit 2, [], s, w)
            else (case iter_note_payloads H S (mi_fs inp) (mi_vault_root inp) (mi_capture_dir inp) of
                    Inl (ingest_error.FileNotFoundError _) \<Rightarrow> (Exit 1, [], s, w)
                  | Inl (HeaderError e) \<Rightarrow> (Crash (HeaderRaised e), [], s, w)
                  | Inr payloads \<Rightarrow>
                      (let (states, s1) = refresh (mi_now inp) payloads s
                       in case run_consumers ops consumers states s1 w [] False of
                            Inl (e, s2, w2) \<Rightarrow> (Crash e, [], s2, w2)
                          | Inr (_, s2, w2, summ, failure) \<Rightarrow> (Exit (if failure then 1 else 0), [], s2, w2)))))"

section \<open>Contracts of a handler\<close>

text \<open>
  What the dispatch loop relies on from a consumer's \<open>handle\<close>: it keeps the consumer's
  name, leaves the notes table alone and writes emission rows under its own name only
  (\<open>handler_local\<close>); and it reports a failure by raising, never by returning a result
  with status \<open>error\<close> (\<open>results_settled\<close>). \<open>Taskwarrior\<close> discharges both for
  \<open>tw_ops\<close>.
\<close>

definition handler_local :: "('c, 'w) consumer_ops \<Rightarrow> bool" where
  "handler_local ops \<longleftrightarrow>
     (\<forall>c st s w. case co_handle ops c st s w of (_, c', s', _) \<Rightarrow>
        co_name ops c' = co_name ops c \<and> note_rows s' = note_rows s \<and>
        (\<forall>n p. n \<noteq> co_name ops c \<longrightarrow> get_emission_hash s' n p = get_emission_hash s n p))"

definition results_tallied :: "('c, 'w) consumer_ops \<Rightarrow> bool" where
  "results_tallied ops \<longleftrightarrow>
     (\<forall>c st s w. case co_handle ops c st s w of
        (Inr r, _) \<Rightarrow> cr_status r \<in> {''success'', ''skip''} | _ \<Rightarrow> True)"

section \<open>The dispatch loop\<close>

lemma handler_localD:
  assumes "handler_local ops" and "co_handle ops c st s w = (out, c', s', w')"
  shows "co_name ops c' = co_name ops c \<and> note_rows s' = note_rows s \<and>
         (\<forall>n p. n \<noteq> co_name ops c \<longrightarrow> get_emission_hash s' n p = get_emission_hash s n p)"
proof -
  have "case co_handle ops c st s w of (_, c', s', _) \<Rightarrow>
          co_name ops c' = co_name ops c \<and> note_rows s' = note_rows s \<and>
          (\<forall>n p. n \<noteq> co_name ops c \<longrightarrow> get_emission_hash s' n p = get_emission_hash s n p)"
    using assms(1)[unfolded handler_local_def, rule_format, where c = c and st = st and s = s and w = w] .
  then show ?thesis
    using assms(2) by simp
qed

lemma results_talliedD:
  assumes "results_tallied ops" and "co_handle ops c st s w = (Inr r, x)"
  shows "cr_status r \<in> {''success'', ''skip''}"
proof -
  have "case co_handle ops c st s w of (Inr r, _) \<Rightarrow> cr_status r \<in> {''success'', ''skip''} | _ \<Rightarrow> True"
    using assms(1)[unfolded results_tallied_def, rule_format, where c = c and st = st and s = s and w = w] .
  then show ?thesis
    using assms(2) by simp
qed

lemma bump_tallied:
  "st \<in> {''success'', ''skip''} \<Longrightarrow> \<exists>c'. bump st c = Some c' \<and> n_error c' = n_error c"
  by (auto simp: bump_def)

lemma dispatch_states_step:
  assumes "co_matches ops c st" and "co_handle ops c st s w = (out, c1, s1, w1)"
  shows "dispatch_states ops c (st # sts) s w cnt f =
           (case out of
              Inl _ \<Rightarrow> dispatch_states ops c1 sts s1 w1 (cnt\<lparr>n_error := Suc (n_error cnt)\<rparr>) True
            | Inr r \<Rightarrow> (case bump (cr_status r) cnt of
                          None \<Rightarrow> Inl (SummaryKeyError (cr_status r), s1, w1)
                        | Some cnt' \<Rightarrow> dispatch_states ops c1 sts s1 w1 cnt' f))"
  using assms by (cases out) simp_all

lemma dispatch_states_local:
  assumes "handler_local ops"
  shows "dispatch_states ops c sts s w cnt f = Inr (c', s', w', cnt', f') \<Longrightarrow>
           co_name ops c' = co_name ops c \<and> note_rows s' = note_rows s \<and>
           (\<forall>n p. n \<noteq> co_name ops c \<longrightarrow> get_emission_hash s' n p = get_emission_hash s n p)"
    and "dispatch_states ops c sts s w cnt f = Inl (e, s', w') \<Longrightarrow>
           note_rows s' = note_rows s \<and>
           (\<forall>n p. n \<noteq> co_name ops c \<longrightarrow> get_emission_hash s' n p = get_emission_hash s n p)"
proof (induction sts arbitrary: c s w cnt f)
  case Nil
  { case 1 then show ?case by simp }
  { case 2 then show ?case by simp }
next
  case (Cons st sts)
  { case 1
    show ?case
    proof (cases "co_matches ops c st")
      case True
      obtain out c1 s1 w1 where h: "co_handle ops c st s w = (out, c1, s1, w1)"
        by (cases "co_handle ops c st s w") auto
      note l = handler_localD[OF assms h]
      show ?thesis
        using 1 True h l Cons.IH(1)[of c1 s1 w1]
        by (auto split: sum.splits option.splits)
    qed (use 1 Cons.IH in simp) }
  { case 2
    show ?case
    proof (cases "co_matches ops c st")
      case True
      obtain out c1 s1 w1 where h: "co_handle ops c st s w = (out, c1, s1, w1)"
        by (cases "co_handle ops c st s w") auto
      note l = handler_localD[OF assms h]
      show ?thesis
        using 2 True h l Cons.IH(2)[of c1 s1 w1]
        by (auto split: sum.splits option.splits)
    qed (use 2 Cons.IH in simp) }
qed

lemma dispatch_states_failure:
  assumes "results_tallied ops"
  shows "dispatch_states ops c sts s w cnt f = Inr (c', s', w', cnt', f') \<Longrightarrow>
           n_error cnt \<le> n_error cnt' \<and> (f' \<longleftrightarrow> f \<or> n_error cnt < n_error cnt')"
proof (induction sts arbitrary: c s w cnt f)
  case (Cons st sts)
  show ?case
  proof (cases "co_matches ops c st")
    case True
    obtain out c1 s1 w1 where h: "co_handle ops c st s w = (out, c1, s1, w1)"
      by (cases "co_handle ops c st s w") auto
    show ?thesis
    proof (cases out)
      case (Inl e)
      then show ?thesis
        using Cons.prems True h Cons.IH[of c1 s1 w1 "cnt\<lparr>n_error := Suc (n_error cnt)\<rparr>" True] by auto
    next
      case (Inr r)
      then have "cr_status r \<in> {''success'', ''skip''}"
        using results_talliedD[OF assms] h by simp
      then obtain cnt1 where b: "bump (cr_status r) cnt = Some cnt1" "n_error cnt1 = n_error cnt"
        using bump_tallied by blast
      then show ?thesis
        using Cons.prems True h Inr b Cons.IH[of c1 s1 w1 cnt1 f] by simp
    qed
  qed (use Cons in simp)
qed simp

lemma dispatch_states_total:
  "results_tallied ops \<Longrightarrow> \<exists>r. dispatch_states ops c sts s w cnt f = Inr r"
proof (induction sts arbitrary: c s w cnt f)
  case (Cons st sts)
  obtain out c1 s1 w1 where h: "co_handle ops c st s w = (out, c1, s1, w1)"
    by (cases "co_handle ops c st s w") auto
  show ?case
  proof (cases out)
    case (Inr r)
    then have "cr_status r \<in> {''success'', ''skip''}"
      using results_talliedD[OF Cons.prems] h by simp
    then obtain cnt1 where "bump (cr_status r) cnt = Some cnt1"
      using bump_tallied by blast
    then show ?thesis
      using Cons h Inr by simp
  qed (use Cons h in simp)
qed simp

lemma run_consumers_ConsE:
  assumes "run_consumers ops (c # cs) states s w summ f = res"
  obtains (idle) "pending_for_consumer s (co_name ops c) states = []"
      and "res = (case run_consumers ops cs states s w (AList.update (co_name ops c) zero_counts summ) f of
                    Inl e \<Rightarrow> Inl e | Inr (cs', s', w', summ', f') \<Rightarrow> Inr (c # cs', s', w', summ', f'))"
  | (crash) e s1 w1 where "pending_for_consumer s (co_name ops c) states \<noteq> []"
      and "dispatch_states ops c (pending_for_consumer s (co_name ops c) states) s w zero_counts f = Inl (e, s1, w1)"
      and "res = Inl (e, s1, w1)"
  | (step) c1 s1 w1 cnt f1 where "pending_for_consumer s (co_name ops c) states \<noteq> []"
      and "dispatch_states ops c (pending_for_consumer s (co_name ops c) states) s w zero_counts f
             = Inr (c1, s1, w1, cnt, f1)"
      and "res = (case run_consumers ops cs states s1 w1
                         (AList.update (co_name ops c) cnt (AList.update (co_name ops c) zero_counts summ)) f1 of
                    Inl e \<Rightarrow> Inl e | Inr (cs', s', w', summ', f') \<Rightarrow> Inr (c1 # cs', s', w', summ', f'))"
proof (cases "pending_for_consumer s (co_name ops c) states = []")
  case True
  then show ?thesis using assms idle by (simp add: Let_def)
next
  case False
  show ?thesis
  proof (cases "dispatch_states ops c (pending_for_consumer s (co_name ops c) states) s w zero_counts f")
    case (Inl r)
    then show ?thesis using assms False crash by (cases r) (simp add: Let_def)
  next
    case (Inr r)
    then show ?thesis using assms False step by (cases r) (simp add: Let_def)
  qed
qed

lemma run_consumers_local:
  assumes "handler_local ops"
  shows "run_consumers ops cs states s w summ f = Inr (cs', s', w', summ', f') \<Longrightarrow>
           note_rows s' = note_rows s \<and>
           (\<forall>n p. n \<notin> set (map (co_name ops) cs) \<longrightarrow> get_emission_hash s' n p = get_emission_hash s n p)"
    and "run_consumers ops cs states s w summ f = Inl (e, s', w') \<Longrightarrow>
           note_rows s' = note_rows s \<and>
           (\<forall>n p. n \<notin> set (map (co_name ops) cs) \<longrightarrow> get_emission_hash s' n p = get_emission_hash s n p)"
proof (induction cs arbitrary: s w summ f cs' s' w' summ' f')
  case Nil
  { case 1 then show ?case by simp }
  { case 2 then show ?case by simp }
next
  case (Cons c cs)
  { case 1
    from 1 show ?case
    proof (cases rule: run_consumers_ConsE)
      case idle
      then show ?thesis using Cons.IH(1) by (auto split: sum.splits)
    next
      case (step c1 s1 w1 cnt f1)
      then show ?thesis
        using Cons.IH(1)[of s1 w1] dispatch_states_local(1)[OF assms step(2)] by (auto split: sum.splits)
    qed simp }
  { case 2
    from 2 show ?case
    proof (cases rule: run_consumers_ConsE)
      case idle
      then show ?thesis using Cons.IH(2) by (auto split: sum.splits)
    next
      case (crash e1 s1 w1)
      then show ?thesis using dispatch_states_local(2)[OF assms crash(2)] by auto
    next
      case (step c1 s1 w1 cnt f1)
      then show ?thesis
        using Cons.IH(2)[of s1 w1] dispatch_states_local(1)[OF assms step(2)] by (auto split: sum.splits)
    qed }
qed

lemma run_consumers_failure_gen:
  assumes "results_tallied ops"
  shows "run_consumers ops cs states s w summ f = Inr (cs', s', w', summ', f') \<Longrightarrow>
         distinct (map (co_name ops) cs) \<Longrightarrow> (\<forall>c \<in> set cs. map_of summ (co_name ops c) = None) \<Longrightarrow>
         (f' \<longleftrightarrow> f \<or> (\<exists>c \<in> set cs. \<exists>k. map_of summ' (co_name ops c) = Some k \<and> 0 < n_error k)) \<and>
         (\<forall>n. n \<notin> co_name ops ` set cs \<longrightarrow> map_of summ' n = map_of summ n)"
proof (induction cs arbitrary: s w summ f cs' s' w' summ' f')
  case (Cons c cs)
  let ?n = "co_name ops c"
  have fresh: "\<forall>c' \<in> set cs. map_of (AList.update ?n k (AList.update ?n zero_counts summ)) (co_name ops c') = None"
    for k using Cons.prems(2,3) by (auto simp: update_conv') (metis image_eqI)
  from Cons.prems(1) show ?case
  proof (cases rule: run_consumers_ConsE)
    case idle
    then obtain cs'' where r: "run_consumers ops cs states s w (AList.update ?n zero_counts summ) f
                                 = Inr (cs'', s', w', summ', f')"
      by (auto split: sum.splits)
    have fresh0: "\<forall>c' \<in> set cs. map_of (AList.update ?n zero_counts summ) (co_name ops c') = None"
      using Cons.prems(2,3) by (auto simp: update_conv') (metis image_eqI)
    note ih = Cons.IH[OF r _ fresh0]
    have "map_of summ' ?n = Some zero_counts"
      using ih Cons.prems(2) by (auto simp: update_conv')
    then show ?thesis
      using ih Cons.prems(2) by (auto simp: update_conv' zero_counts_def)
  next
    case (step c1 s1 w1 cnt f1)
    then obtain cs'' where r: "run_consumers ops cs states s1 w1
                                 (AList.update ?n cnt (AList.update ?n zero_counts summ)) f1 = Inr (cs'', s', w', summ', f')"
      by (auto split: sum.splits)
    note ih = Cons.IH[OF r _ fresh]
    have d: "f1 \<longleftrightarrow> f \<or> 0 < n_error cnt"
      using dispatch_states_failure[OF assms step(2)] by (simp add: zero_counts_def)
    have "map_of summ' ?n = Some cnt"
      using ih Cons.prems(2) by (auto simp: update_conv')
    then show ?thesis
      using ih d Cons.prems(2) by (auto simp: update_conv')
  qed simp
qed simp

section \<open>Properties of a run\<close>


text \<open>
  C6: the exit status. For consumers with distinct names whose returned results are all
  success or skip, the run's failure flag is set exactly when some consumer's tally has a
  positive error count.
\<close>

theorem run_consumers_failure_flag:
  assumes "results_tallied ops"
    and "distinct (map (co_name ops) cs)"
    and "run_consumers ops cs states s w [] False = Inr (cs', s', w', summ, f)"
  shows "f \<longleftrightarrow> (\<exists>n k. map_of summ n = Some k \<and> 0 < n_error k)"
proof -
  note g = run_consumers_failure_gen[OF assms(1,3,2)]
  have "map_of summ n = None" if "n \<notin> co_name ops ` set cs" for n
    using g that by simp
  then show ?thesis
    using g by (auto simp: image_iff) (metis option.distinct(1))
qed

text \<open>
  C7: errors never halt the run. When every returned result is success or skip, the
  dispatch over all consumers and all pending notes runs to the end, whatever the handlers
  raise.
\<close>

theorem run_consumers_total:
  assumes "results_tallied ops"
  shows "\<exists>r. run_consumers ops cs states s w summ f = Inr r"
proof (induction cs arbitrary: s w summ f)
  case (Cons c cs)
  show ?case
  proof (cases "pending_for_consumer s (co_name ops c) states = []")
    case True
    obtain r where "run_consumers ops cs states s w (AList.update (co_name ops c) zero_counts summ) f = Inr r"
      using Cons.IH by blast
    then show ?thesis using True by (cases r) (auto simp: Let_def)
  next
    case False
    obtain r where r: "dispatch_states ops c (pending_for_consumer s (co_name ops c) states) s w zero_counts f = Inr r"
      using dispatch_states_total[OF assms] by blast
    obtain c1 s1 w1 cnt f1 where r1: "r = (c1, s1, w1, cnt, f1)" by (cases r) auto
    obtain r' where "run_consumers ops cs states s1 w1
        (AList.update (co_name ops c) cnt (AList.update (co_name ops c) zero_counts summ)) f1 = Inr r'"
      using Cons.IH by blast
    then show ?thesis
      using False r r1 by (cases r') (auto simp: Let_def)
  qed
qed simp

section \<open>A header that does not load\<close>

lemma iter_note_payloads_absolute:
  "is_absolute d \<Longrightarrow> path_exists fs d \<Longrightarrow>
   iter_note_payloads H S fs root d = collect_payloads H S (sort_key fst (rglob_md fs d))"
  by (simp add: iter_note_payloads_def)

text \<open>
  C35: one unreadable header aborts the run. With PyYAML installed, a single note under the
  capture directory whose header \<open>_yaml_load\<close> rejects (a YAML error, or a document that
  is not a mapping) makes \<open>main\<close> raise before any consumer runs: nothing is printed and
  the ledger and Taskwarrior are left as they were. Without PyYAML no header raises. The
  spec says ingestion never fails per file except by propagating a read error.
\<close>

theorem main_run_bad_header_aborts:
  assumes "\<not> mi_list_consumers inp" and "mi_filters inp = []"
    and "is_absolute (mi_capture_dir inp)" and "path_exists (mi_fs inp) (mi_capture_dir inp)"
    and "(p, Some raw) \<in> set (rglob_md (mi_fs inp) (mi_capture_dir inp))"
    and "\<not> is_legacy_daily (path_name p)" and "isl (read_note S p raw)"
  shows "S \<noteq> None \<and> (\<exists>e. main_run ops H S cs inp s w = (Crash (HeaderRaised e), [], s, w))"
proof
  show "S \<noteq> None"
  proof
    assume "S = None"
    with assms(7) show False using read_note_fallback[of p raw] by auto
  qed
next
  let ?es = "sort_key fst (rglob_md (mi_fs inp) (mi_capture_dir inp))"
  have "(p, Some raw) \<in> set ?es" using assms(5) by simp
  then obtain e where c: "collect_payloads H S ?es = Inl e"
    using collect_payloads_raises[of H S ?es] assms(6,7) by blast
  then obtain e' where "e = HeaderError e'" using collect_payloads_error by blast
  with c have "iter_note_payloads H S (mi_fs inp) (mi_vault_root inp) (mi_capture_dir inp) = Inl (HeaderError e')"
    using assms(3,4) by (simp add: iter_note_payloads_absolute)
  then show "\<exists>e. main_run ops H S cs inp s w = (Crash (HeaderRaised e), [], s, w)"
    using assms(1,2) by (simp add: main_run_def)
qed

end
