(* ===== verification/Taskwarrior.thy ===== *)
theory Taskwarrior
  imports TaskText Cli
begin

text \<open>
  The consumer \<open>TaskWarriorConsumer\<close> of \<open>src/scripts/automation/consumers/taskwarrior.py\<close>.
  The instance is the record \<open>tw\<close>, built by \<open>tw_init\<close> (\<open>__init__\<close>); the external
  system is the record \<open>tw_world\<close>: the task database as the JSON objects \<open>task export\<close>
  prints, the outcome of each \<open>task\<close> invocation, the paths that exist under the backup
  directory, the backup copies made, and the clock. \<open>_prepare_tags\<close> iterates a Python
  set and stops at the first tag with the project prefix; the order in which CPython
  enumerates a set is the field \<open>set_order\<close> of the instance. The world also holds what
  \<open>__init__\<close> reads to find the taskrc and the data directory: \<open>TASKRC\<close>, the
  home directories \<open>os.path.expanduser\<close> knows, the working directory and the files
  (\<open>tw_fs\<close>, a list of file-system entries as in \<open>Notes\<close>). \<open>tw_init\<close> is a
  constructor of the registry: it returns the world it leaves, with the backup directory
  created, whether it then raises or not.
\<close>

section \<open>Instance and world\<close>

record tw =
  tw_name :: string
  marker_tag :: string
  strip_tags :: "string set"
  remove_unknown_tags :: bool
  project_tag_prefix :: string
  default_project :: yval
  additional_tags :: "string list"
  annotation_template :: yval
  review_tag :: "string option"
  max_new_tasks_per_run :: "nat option"
  tasks_added :: nat
  backup_enabled :: bool
  backup_dir :: path
  vault_root :: path
  backed_up :: bool
  existing_tags :: "string set"
  existing_task_keys :: "task_key set"
  existing_summary_keys :: "summary_key set"
  set_order :: "string set \<Rightarrow> string list"
  taskrc_path :: "path option"
  data_directory :: path

record tw_world =
  tw_db :: "yval list"
  tw_import_ok :: "yval \<Rightarrow> bool"
  tw_tags_out :: "string option"   \<comment> \<open>stdout of \<open>task _tags\<close>; \<open>None\<close> when it fails\<close>
  tw_export_ok :: bool
  tw_paths :: "path list"
  tw_copies :: "path list"
  tw_copy_ok :: bool
  tw_environ_taskrc :: "string option"  \<comment> \<open>\<open>os.environ.get("TASKRC")\<close>\<close>
  tw_expanduser :: "string \<Rightarrow> string"  \<comment> \<open>\<open>os.path.expanduser\<close> of a first part \<open>~\<close> or \<open>~user\<close>\<close>
  tw_cwd :: path
  tw_fs :: fs
  tw_now :: int
  tw_now_ts :: string
  tw_parse_ts :: "string \<Rightarrow> string option"

section \<open>Construction\<close>

definition opt_get :: "header \<Rightarrow> string \<Rightarrow> yval \<Rightarrow> yval" where
  \<comment> \<open>\<open>opts.get(key, default)\<close>\<close>
  "opt_get opts key dflt = (case map_of opts key of None \<Rightarrow> dflt | Some v \<Rightarrow> v)"

definition py_iter :: "yval \<Rightarrow> exn + yval list" where
  \<comment> \<open>\<open>for x in v\<close>: a list yields its items, a string its characters, a dict its keys\<close>
  "py_iter v =
     (case v of YList xs \<Rightarrow> Inr xs
      | YStr s \<Rightarrow> Inr (map (\<lambda>c. YStr [c]) s)
      | YMap kvs \<Rightarrow> Inr (map (\<lambda>kv. YStr (fst kv)) kvs)
      | _ \<Rightarrow> Inl (TypeError ''object is not iterable''))"

definition py_lower_of :: "yval \<Rightarrow> exn + string" where
  \<comment> \<open>\<open>v.lower()\<close>, defined on strings only\<close>
  "py_lower_of v = (case v of YStr s \<Rightarrow> Inr (py_lower s) | _ \<Rightarrow> Inl (AttributeError ''lower''))"

fun those_sum :: "('e + 'a) list \<Rightarrow> 'e + 'a list" where
  "those_sum [] = Inr []"
| "those_sum (x # xs) = sbind x (\<lambda>a. sbind (those_sum xs) (\<lambda>as. Inr (a # as)))"

definition underscored_digits :: "string \<Rightarrow> bool" where
  \<comment> \<open>digits with single underscores between them, as \<open>int()\<close> accepts\<close>
  "underscored_digits u \<longleftrightarrow>
     u \<noteq> [] \<and> py_isdigit (hd u) \<and> py_isdigit (last u) \<and> list_all (\<lambda>c. py_isdigit c \<or> c = CHR ''_'') u
     \<and> (\<forall>i < length u - 1. \<not> (u ! i = CHR ''_'' \<and> u ! Suc i = CHR ''_''))"

definition py_int_of_str :: "string \<Rightarrow> exn + int" where
  \<comment> \<open>\<open>int(s)\<close> on a string\<close>
  "py_int_of_str s =
     (let t = py_strip s;
          neg = (t \<noteq> [] \<and> hd t = CHR ''-'');
          u = (if t \<noteq> [] \<and> (hd t = CHR ''-'' \<or> hd t = CHR ''+'') then tl t else t);
          n = int (digits_value (filter (\<lambda>c. c \<noteq> CHR ''_'') u))
      in if underscored_digits u then Inr (if neg then - n else n) else Inl (ValueError ''invalid literal for int()''))"

definition py_int :: "yval \<Rightarrow> exn + int" where
  \<comment> \<open>\<open>int(v)\<close>\<close>
  "py_int v =
     (case v of YInt i \<Rightarrow> Inr i
      | YBool b \<Rightarrow> Inr (if b then 1 else 0)
      | YFloat m k \<Rightarrow> Inr (sgn m * (\<bar>m\<bar> div 10 ^ k))
      | YStr s \<Rightarrow> py_int_of_str s
      | _ \<Rightarrow> Inl (TypeError ''int() argument must be a string or a number''))"

definition parse_limit :: "yval \<Rightarrow> exn + nat option" where
  \<comment> \<open>the \<open>max_new_tasks_per_run\<close> option\<close>
  "parse_limit raw =
     (if raw = YNone \<or> py_strip (py_str raw) = [] then Inr None
      else (case py_int raw of
              Inl (TypeError _) \<Rightarrow> Inl (ValueError ''Invalid max_new_tasks_per_run value'')
            | Inl (ValueError _) \<Rightarrow> Inl (ValueError ''Invalid max_new_tasks_per_run value'')
            | Inl e \<Rightarrow> Inl e
            | Inr n \<Rightarrow> if n < 0 then Inl (ValueError ''max_new_tasks_per_run must be non-negative'')
                       else Inr (Some (nat n))))"

definition backup_path :: "path \<Rightarrow> yval \<Rightarrow> exn + bool \<times> path" where
  \<comment> \<open>\<open>backup.enabled\<close> and the backup directory\<close>
  "backup_path state_dir backup_opts =
     (case backup_opts of
        YMap bo \<Rightarrow>
          (let raw = opt_get bo ''directory'' (YStr ''backups/taskwarrior'');
               enabled = py_truthy (opt_get bo ''enabled'' (YBool True))
           in if py_truthy raw then
                (case raw of
                   YStr d \<Rightarrow> (let p = path_of_str d in Inr (enabled, if is_absolute p then p else state_dir @ p))
                 | _ \<Rightarrow> Inl (TypeError ''expected str, bytes or os.PathLike object''))
              else Inr (enabled, state_dir @ [''backups'', ''taskwarrior'']))
      | _ \<Rightarrow> Inl (AttributeError ''get''))"

definition load_existing_tags :: "tw_world \<Rightarrow> exn + string set" where
  "load_existing_tags w =
     (case tw_tags_out w of
        None \<Rightarrow> Inl (TaskCommandError ''Failed to load existing Taskwarrior tags'' [] [])
      | Some out \<Rightarrow> Inr (set (map (\<lambda>l. py_lower (py_strip l)) (filter (\<lambda>l. py_strip l \<noteq> []) (py_splitlines out)))))"

definition exported_keys :: "yval \<Rightarrow> exn + task_key \<times> summary_key" where
  \<comment> \<open>the keys of one exported task\<close>
  "exported_keys task =
     (case task of
        YMap t \<Rightarrow>
          sbind (py_iter (opt_get t ''tags'' (YList []))) (\<lambda>tg.
            (let description = py_strip (py_str (opt_get t ''description'' (YStr [])));
                 tags = sort (map py_str (filter py_truthy tg));
                 project = py_strip (py_str (opt_get t ''project'' (YStr [])));
                 p = (if project = [] then None else Some project)
             in Inr (task_key description tags p, summary_key description p)))
      | _ \<Rightarrow> Inl (AttributeError ''get''))"

definition load_existing_task_keys :: "tw_world \<Rightarrow> exn + task_key set \<times> summary_key set" where
  "load_existing_task_keys w =
     (if \<not> tw_export_ok w then Inl (TaskCommandError ''Failed to export existing Taskwarrior tasks'' [] [])
      else sbind (those_sum (map exported_keys (tw_db w))) (\<lambda>ks. Inr (fst ` set ks, snd ` set ks)))"

section \<open>The taskrc and the data directory\<close>

definition path_expanduser :: "(string \<Rightarrow> string) \<Rightarrow> path \<Rightarrow> exn + path" where
  \<comment> \<open>\<open>Path.expanduser()\<close>: a relative path whose first part starts with \<open>~\<close>\<close>
  "path_expanduser X p =
     (case p of
        part # rest \<Rightarrow>
          if part \<noteq> [] \<and> hd part = CHR ''~'' then
            (let homedir = X part
             in if homedir \<noteq> [] \<and> hd homedir = CHR ''~''
                then Inl (RuntimeError ''Could not determine home directory.'')
                else Inr (path_of_str homedir @ rest))
          else Inr p
      | [] \<Rightarrow> Inr p)"

definition user_path :: "tw_world \<Rightarrow> string \<Rightarrow> exn + path" where
  \<comment> \<open>\<open>Path(s).expanduser().resolve(strict=False)\<close>\<close>
  "user_path w s = sbind (path_expanduser (tw_expanduser w) (path_of_str s)) (\<lambda>p. Inr (path_resolve (tw_cwd w) p))"

definition resolve_taskrc_path :: "tw_world \<Rightarrow> header \<Rightarrow> exn + path option" where
  \<comment> \<open>\<open>_resolve_taskrc_path(opts)\<close>\<close>
  "resolve_taskrc_path w opts =
     (let taskrc = opt_get opts ''taskrc_path'' YNone
      in if py_truthy taskrc then sbind (user_path w (py_str taskrc)) (\<lambda>p. Inr (Some p))
         else (case tw_environ_taskrc w of
                 Some env_taskrc \<Rightarrow> if env_taskrc \<noteq> [] then sbind (user_path w env_taskrc) (\<lambda>p. Inr (Some p))
                                   else sbind (user_path w ''~/.taskrc'') (\<lambda>d. Inr (if path_exists (tw_fs w) d then Some d else None))
               | None \<Rightarrow> sbind (user_path w ''~/.taskrc'') (\<lambda>d. Inr (if path_exists (tw_fs w) d then Some d else None))))"

definition parse_taskrc_for_data_location :: "tw_world \<Rightarrow> path option \<Rightarrow> exn + path option" where
  \<comment> \<open>\<open>_parse_taskrc_for_data_location()\<close>: a directory in place of the file makes
     \<open>read_text\<close> raise \<open>IsADirectoryError\<close>, an \<open>OSError\<close> the method catches\<close>
  "parse_taskrc_for_data_location w taskrc =
     (case taskrc of
        None \<Rightarrow> Inr None
      | Some p \<Rightarrow>
          (case map_of (tw_fs w) p of
             Some (Some text) \<Rightarrow>
               (case parse_taskrc_data_location text of
                  None \<Rightarrow> Inr None
                | Some v \<Rightarrow> sbind (user_path w v) (\<lambda>d. Inr (Some d)))
           | _ \<Rightarrow> Inr None))"

definition resolve_data_directory :: "tw_world \<Rightarrow> header \<Rightarrow> path option \<Rightarrow> exn + path" where
  \<comment> \<open>\<open>_resolve_data_directory(opts)\<close>, given the taskrc path already resolved\<close>
  "resolve_data_directory w opts taskrc =
     (let explicit = opt_get opts ''data_directory'' YNone;
          fallback = sbind (parse_taskrc_for_data_location w taskrc) (\<lambda>taskrc_dir.
                       case taskrc_dir of Some d \<Rightarrow> Inr d | None \<Rightarrow> user_path w ''~/.task'')
      in if py_truthy explicit
         then sbind (user_path w (py_str explicit)) (\<lambda>p. if path_exists (tw_fs w) p then Inr p else fallback)
         else fallback)"

definition tw_init ::
  "path \<Rightarrow> path \<Rightarrow> (string set \<Rightarrow> string list) \<Rightarrow> (consumer_config, tw_world, tw) constructor" where
  \<comment> \<open>\<open>TaskWarriorConsumer.__init__\<close>, given the state directory and the vault root: the
     options, then \<open>backup_path.mkdir(parents=True, exist_ok=True)\<close>, whose directories
     stay when a later step raises, then the taskrc, the data directory and the snapshot\<close>
  "tw_init state_dir vroot order cfg w =
     (let opts = cc_options cfg;
          marker = py_strip (py_str (opt_get opts ''marker_tag'' (YStr ''todo'')));
          review_raw = opt_get opts ''review_tag'' (YStr ''not_reviewed'');
          review = (if py_truthy review_raw then normalise_tag (py_str review_raw) else [])
      in case sbind (py_iter (opt_get opts ''strip_tags'' (YList []))) (\<lambda>sts.
              sbind (those_sum (map py_lower_of sts)) (\<lambda>strips.
              sbind (py_iter (opt_get opts ''additional_tags'' (YList []))) (\<lambda>adds.
              sbind (parse_limit (opt_get opts ''max_new_tasks_per_run'' YNone)) (\<lambda>limit.
              sbind (backup_path state_dir (opt_get opts ''backup'' (YMap []))) (\<lambda>(enabled, bdir).
              Inr (strips, adds, limit, enabled, bdir)))))) of
           Inl e \<Rightarrow> (Inl e, w)
         | Inr (strips, adds, limit, enabled, bdir) \<Rightarrow>
             (case mkdir_parents (tw_fs w) bdir of
                Inl e \<Rightarrow> (Inl e, w)
              | Inr fs1 \<Rightarrow>
                  (let w1 = w\<lparr>tw_fs := fs1\<rparr>
                   in (sbind (resolve_taskrc_path w1 opts) (\<lambda>taskrc.
                       sbind (resolve_data_directory w1 opts taskrc) (\<lambda>ddir.
                       if \<not> path_exists (tw_fs w1) ddir
                       then Inl (exn.FileNotFoundError (''Taskwarrior data directory not found: '' @ path_str ddir))
                       else sbind (load_existing_tags w1) (\<lambda>tags.
                            sbind (load_existing_task_keys w1) (\<lambda>(keys, skeys).
                            Inr \<lparr>tw_name = cc_name cfg, marker_tag = marker,
                                 strip_tags = set strips \<union> (if marker \<noteq> [] then {py_lower marker} else {}),
                                 remove_unknown_tags = py_truthy (opt_get opts ''remove_unknown_tags'' (YBool True)),
                                 project_tag_prefix = py_str (opt_get opts ''project_tag_prefix'' (YStr ''project:'')),
                                 default_project = opt_get opts ''default_project'' YNone,
                                 additional_tags = map (\<lambda>t. normalise_tag (py_str t)) (filter (\<lambda>t. py_strip (py_str t) \<noteq> []) adds),
                                 annotation_template = opt_get opts ''annotation_template'' YNone,
                                 review_tag = (if review = [] then None else Some review),
                                 max_new_tasks_per_run = limit, tasks_added = 0,
                                 backup_enabled = enabled, backup_dir = bdir, vault_root = vroot, backed_up = False,
                                 existing_tags = tags \<union> (if review = [] then {} else {py_lower review}),
                                 existing_task_keys = keys, existing_summary_keys = skeys,
                                 set_order = order, taskrc_path = taskrc, data_directory = ddir\<rparr>)))),
                       w1))))"

section \<open>Tags and project\<close>

definition tw_matches :: "tw \<Rightarrow> note_state \<Rightarrow> bool" where
  "tw_matches tw st \<longleftrightarrow> (marker_tag tw = [] \<or> has_tag (ns_note st) (marker_tag tw))"

definition prepare_tags :: "tw \<Rightarrow> note_payload \<Rightarrow> string list \<times> string option" where
  \<comment> \<open>\<open>_prepare_tags\<close>\<close>
  "prepare_tags tw note =
     (let tags0 = set (filter (\<lambda>t. t \<noteq> [] \<and> py_lower t \<notin> strip_tags tw) (map normalise_tag (note_tags note)));
          prefix = py_lower (project_tag_prefix tw);
          found = find (\<lambda>t. prefix \<noteq> [] \<and> py_startswith (py_lower t) prefix) (set_order tw tags0);
          project1 = map_option (\<lambda>t. py_strip (drop (length (project_tag_prefix tw)) t)) found;
          tags1 = (case found of None \<Rightarrow> tags0 | Some t \<Rightarrow> tags0 - {t});
          project = (if project_or_empty project1 = [] \<and> py_truthy (default_project tw)
                     then Some (py_str (default_project tw)) else project1);
          tags2 = tags1 \<union> set (additional_tags tw) \<union> (case review_tag tw of None \<Rightarrow> {} | Some r \<Rightarrow> {r});
          final = sorted_list_of_set (Set.filter (\<lambda>t. t \<noteq> []) tags2)
      in (if remove_unknown_tags tw then filter (\<lambda>t. py_lower t \<in> existing_tags tw) final else final, project))"

section \<open>Backup\<close>

definition backup_name :: "path \<Rightarrow> string \<Rightarrow> nat \<Rightarrow> path" where
  "backup_name dir ts counter = dir @ [ts @ ''-'' @ nat_str counter]"

lemma backup_name_inj: "inj (backup_name dir ts)"
  by (rule injI) (simp add: backup_name_def nat_str_inj)

function next_backup :: "path list \<Rightarrow> path \<Rightarrow> string \<Rightarrow> nat \<Rightarrow> path" where
  \<comment> \<open>\<open>while candidate.exists(): counter += 1\<close>\<close>
  "next_backup existing dir ts counter =
     (if backup_name dir ts counter \<in> set existing then next_backup existing dir ts (Suc counter)
      else backup_name dir ts counter)"
  by pat_completeness auto
termination next_backup
proof (relation "measure (\<lambda>(existing, dir, ts, counter).
         card {k. counter \<le> k \<and> backup_name dir ts k \<in> set existing})")
  fix existing dir ts counter
  assume taken: "backup_name dir ts counter \<in> set existing"
  let ?A = "\<lambda>c. {k. c \<le> k \<and> backup_name dir ts k \<in> set existing}"
  have "finite (backup_name dir ts -` set existing)"
    by (rule finite_vimageI) (simp_all add: backup_name_inj)
  then have fin: "finite (?A counter)"
    by (rule rev_finite_subset) auto
  have "counter \<in> ?A counter" "counter \<notin> ?A (Suc counter)"
    using taken by auto
  moreover have "?A (Suc counter) \<subseteq> ?A counter"
    by auto
  ultimately have "?A (Suc counter) \<subset> ?A counter"
    by blast
  then have "card (?A (Suc counter)) < card (?A counter)"
    by (rule psubset_card_mono[OF fin])
  then show "((existing, dir, ts, Suc counter), existing, dir, ts, counter) \<in>
      measure (\<lambda>(existing, dir, ts, counter). card {k. counter \<le> k \<and> backup_name dir ts k \<in> set existing})"
    by simp
qed simp

declare next_backup.simps [simp del]

definition backup_target :: "path list \<Rightarrow> path \<Rightarrow> string \<Rightarrow> path" where
  "backup_target existing dir ts =
     (if dir @ [ts] \<in> set existing then next_backup existing dir ts 2 else dir @ [ts])"

definition ensure_backup :: "tw \<Rightarrow> tw_world \<Rightarrow> (exn + unit) \<times> tw \<times> tw_world" where
  \<comment> \<open>\<open>_ensure_backup\<close>\<close>
  "ensure_backup tw w =
     (if backed_up tw \<or> \<not> backup_enabled tw then (Inr (), tw, w)
      else (let candidate = backup_target (tw_paths w) (backup_dir tw) (tw_now_ts w) in
            if \<not> tw_copy_ok w then (Inl (OSError ''copytree failed''), tw, w)
            else (Inr (), tw\<lparr>backed_up := True\<rparr>,
                  w\<lparr>tw_paths := candidate # tw_paths w, tw_copies := tw_copies w @ [candidate]\<rparr>)))"

section \<open>Processing a note\<close>

definition import_task :: "tw_world \<Rightarrow> yval \<Rightarrow> exn + tw_world" where
  \<comment> \<open>\<open>_import_task\<close>: \<open>task import\<close> of the payload, which raises when the command fails\<close>
  "import_task w payload =
     (if tw_import_ok w payload then Inr (w\<lparr>tw_db := tw_db w @ [payload]\<rparr>)
      else Inl (TaskCommandError ''Taskwarrior command failed: task import'' [] []))"

definition meta_project :: "string option \<Rightarrow> yval" where
  "meta_project p = (case p of None \<Rightarrow> YNone | Some s \<Rightarrow> YStr s)"

definition skip_result :: "path \<Rightarrow> string \<Rightarrow> header option \<Rightarrow> consumer_result" where
  "skip_result p msg md = \<lparr>cr_status = ''skip'', cr_note_path = p, cr_message = msg, cr_metadata = md\<rparr>"

definition success_metadata :: "string \<Rightarrow> string list \<Rightarrow> string option \<Rightarrow> header" where
  "success_metadata description tags project =
     [(''description'', YStr description), (''tags'', YList (map YStr tags)), (''project'', meta_project project)]"

definition process_new :: "tw \<Rightarrow> tw_world \<Rightarrow> note_payload \<Rightarrow> outcome \<times> tw \<times> tw_world" where
  \<comment> \<open>\<open>_process_note\<close> after the creation cap\<close>
  "process_new tw w note =
     (let description = build_description note in
      if description = [] then (Inr (skip_result (np_path note) ''empty description'' None), tw, w)
      else (let (tags, project) = prepare_tags tw note;
                skey = summary_key description project;
                key = task_key description tags project
            in if skey \<in> existing_summary_keys tw then
                 (Inr (skip_result (np_path note) ''duplicate task (description/project)''
                         (Some [(''description'', YStr description), (''project'', meta_project project)])), tw, w)
               else if key \<in> existing_task_keys tw then
                 (Inr (skip_result (np_path note) ''duplicate task'' (Some (success_metadata description tags project))),
                  tw, w)
               else
                 (let (r, tw1, w1) = (if backup_enabled tw then ensure_backup tw w else (Inr (), tw, w)) in
                  case r of
                    Inl e \<Rightarrow> (Inl e, tw1, w1)
                  | Inr _ \<Rightarrow>
                      (case format_annotation (annotation_template tw1) (vault_root tw1) note of
                         Inl e \<Rightarrow> (Inl e, tw1, w1)
                       | Inr annotation \<Rightarrow>
                           (case import_task w1 (build_task_payload (tw_parse_ts w1) (tw_now_ts w1) note
                                                   description tags project annotation) of
                              Inl e \<Rightarrow> (Inl e, tw1, w1)
                            | Inr w2 \<Rightarrow>
                                (Inr \<lparr>cr_status = ''success'', cr_note_path = np_path note, cr_message = ''task added'',
                                      cr_metadata = Some (success_metadata description tags project)\<rparr>,
                                 tw1\<lparr>tasks_added := Suc (tasks_added tw1),
                                     existing_task_keys := insert key (existing_task_keys tw1),
                                     existing_summary_keys := insert skey (existing_summary_keys tw1),
                                     existing_tags := existing_tags tw1 \<union> set (map py_lower tags)\<rparr>,
                                 w2))))))"

definition process_note :: "tw \<Rightarrow> tw_world \<Rightarrow> note_payload \<Rightarrow> outcome \<times> tw \<times> tw_world" where
  \<comment> \<open>\<open>_process_note\<close>\<close>
  "process_note tw w note =
     (case max_new_tasks_per_run tw of
        Some limit \<Rightarrow> if limit \<le> tasks_added tw then
          (Inr \<lparr>cr_status = ''limit'', cr_note_path = np_path note, cr_message = ''task limit reached'',
                cr_metadata = Some [(''limit'', YInt (int limit)), (''note'', YStr (path_str (np_path note)))]\<rparr>,
           tw, w) else process_new tw w note
      | None \<Rightarrow> process_new tw w note)"

definition tw_handle :: "tw \<Rightarrow> note_state \<Rightarrow> store \<Rightarrow> tw_world \<Rightarrow> outcome \<times> tw \<times> store \<times> tw_world" where
  \<comment> \<open>\<open>TaskWarriorConsumer.handle\<close>: successes and skips are recorded in the ledger\<close>
  "tw_handle tw st s w =
     (let note = ns_note st in
      if \<not> tw_matches tw st then (Inr (skip_result (np_path note) ''marker tag missing'' None), tw, s, w)
      else (case process_note tw w note of
              (Inl e, tw', w') \<Rightarrow> (Inl e, tw', s, w')
            | (Inr r, tw', w') \<Rightarrow>
                (Inr r, tw',
                 if cr_status r \<in> {''success'', ''skip''}
                 then mark_emitted (tw_now w') (tw_name tw') (np_path note) (np_note_hash note) (cr_status r) (cr_metadata r) s
                 else s, w')))"

definition tw_ops :: "(tw, tw_world) consumer_ops" where
  "tw_ops = \<lparr>co_name = tw_name, co_matches = tw_matches, co_handle = tw_handle\<rparr>"

definition tw_registry ::
  "path \<Rightarrow> path \<Rightarrow> (string set \<Rightarrow> string list) \<Rightarrow> exn + (consumer_config, tw_world, tw) registry" where
  \<comment> \<open>\<open>@register("taskwarrior")\<close> on an empty registry\<close>
  "tw_registry state_dir vroot order = register ''taskwarrior'' (tw_init state_dir vroot order) []"

section \<open>Invariants of an instance\<close>

definition tw_cap_ok :: "tw \<Rightarrow> bool" where
  \<comment> \<open>the number of tasks created so far respects \<open>max_new_tasks_per_run\<close>\<close>
  "tw_cap_ok tw \<longleftrightarrow> (case max_new_tasks_per_run tw of None \<Rightarrow> True | Some l \<Rightarrow> tasks_added tw \<le> l)"

definition keys_consistent :: "tw \<Rightarrow> bool" where
  \<comment> \<open>every strict key has its loose key in the snapshot\<close>
  "keys_consistent tw \<longleftrightarrow>
     (\<forall>(d, t, p) \<in> existing_task_keys tw. (d, py_strip p) \<in> existing_summary_keys tw)"

definition backup_rel :: "tw \<Rightarrow> tw_world \<Rightarrow> tw \<Rightarrow> tw_world \<Rightarrow> bool" where
  \<comment> \<open>how the backup state evolves over a sequence of steps\<close>
  "backup_rel tw w tw' w' \<longleftrightarrow>
     backup_enabled tw' = backup_enabled tw \<and> (backed_up tw \<longrightarrow> backed_up tw') \<and>
     length (tw_copies w') + (if backed_up tw then 1 else 0) = length (tw_copies w) + (if backed_up tw' then 1 else 0) \<and>
     (backup_enabled tw \<longrightarrow> length (tw_db w) < length (tw_db w') \<longrightarrow> backed_up tw')"

section \<open>Shape of a step\<close>

lemma ensure_backup_cases:
  assumes "ensure_backup tw w = (r, tw1, w1)"
  shows "(tw1 = tw \<and> w1 = w) \<or>
         (r = Inr () \<and> \<not> backed_up tw \<and> backup_enabled tw \<and> tw1 = tw\<lparr>backed_up := True\<rparr> \<and>
          w1 = w\<lparr>tw_paths := backup_target (tw_paths w) (backup_dir tw) (tw_now_ts w) # tw_paths w,
                 tw_copies := tw_copies w @ [backup_target (tw_paths w) (backup_dir tw) (tw_now_ts w)]\<rparr>)"
  using assms by (auto simp: ensure_backup_def Let_def split: if_splits)

lemma process_new_cases:
  assumes "process_new tw w note = (out, tw', w')"
  obtains (unchanged) "tw' = tw" "w' = w" "\<forall>r. out = Inr r \<longrightarrow> cr_status r = ''skip''"
      "build_description note = [] \<or>
       summary_key (build_description note) (snd (prepare_tags tw note)) \<in> existing_summary_keys tw \<or>
       task_key (build_description note) (fst (prepare_tags tw note)) (snd (prepare_tags tw note)) \<in> existing_task_keys tw"
  | (failed) e r0 where "out = Inl e"
      "(if backup_enabled tw then ensure_backup tw w else (Inr (), tw, w)) = (r0, tw', w')"
  | (added) tags project w1 tw1 where "prepare_tags tw note = (tags, project)"
      "build_description note \<noteq> []"
      "summary_key (build_description note) project \<notin> existing_summary_keys tw"
      "task_key (build_description note) tags project \<notin> existing_task_keys tw"
      "(if backup_enabled tw then ensure_backup tw w else (Inr (), tw, w)) = (Inr (), tw1, w1)"
      "cr_status (projr out) = ''success''" "\<exists>r. out = Inr r"
      "tw' = tw1\<lparr>tasks_added := Suc (tasks_added tw1),
               existing_task_keys := insert (task_key (build_description note) tags project) (existing_task_keys tw1),
               existing_summary_keys := insert (summary_key (build_description note) project) (existing_summary_keys tw1),
               existing_tags := existing_tags tw1 \<union> set (map py_lower tags)\<rparr>"
      "\<exists>payload. w' = w1\<lparr>tw_db := tw_db w1 @ [payload]\<rparr>" "cr_message (projr out) = ''task added''"
proof -
  obtain tags project where tp: "prepare_tags tw note = (tags, project)"
    by (cases "prepare_tags tw note") auto
  obtain r0 tw1 w1 where b: "(if backup_enabled tw then ensure_backup tw w else (Inr (), tw, w)) = (r0, tw1, w1)"
    by (cases "if backup_enabled tw then ensure_backup tw w else (Inr (), tw, w)") auto
  show ?thesis
  proof (cases "build_description note = [] \<or> summary_key (build_description note) project \<in> existing_summary_keys tw
                \<or> task_key (build_description note) tags project \<in> existing_task_keys tw")
    case True
    then have "\<exists>r. process_new tw w note = (Inr r, tw, w) \<and> cr_status r = ''skip''"
      using tp by (auto simp: process_new_def skip_result_def Let_def)
    then show ?thesis
      using assms unchanged True tp by auto
  next
    case False
    then have pn: "process_new tw w note =
        (case r0 of Inl e \<Rightarrow> (Inl e, tw1, w1)
         | Inr _ \<Rightarrow> (case format_annotation (annotation_template tw1) (vault_root tw1) note of
              Inl e \<Rightarrow> (Inl e, tw1, w1)
            | Inr annotation \<Rightarrow>
                (case import_task w1 (build_task_payload (tw_parse_ts w1) (tw_now_ts w1) note
                                        (build_description note) tags project annotation) of
                   Inl e \<Rightarrow> (Inl e, tw1, w1)
                 | Inr w2 \<Rightarrow>
                     (Inr \<lparr>cr_status = ''success'', cr_note_path = np_path note, cr_message = ''task added'',
                           cr_metadata = Some (success_metadata (build_description note) tags project)\<rparr>,
                      tw1\<lparr>tasks_added := Suc (tasks_added tw1),
                          existing_task_keys := insert (task_key (build_description note) tags project) (existing_task_keys tw1),
                          existing_summary_keys := insert (summary_key (build_description note) project) (existing_summary_keys tw1),
                          existing_tags := existing_tags tw1 \<union> set (map py_lower tags)\<rparr>,
                      w2))))"
      using tp b unfolding process_new_def Let_def by simp
    show ?thesis
    proof (cases r0)
      case (Inl e)
      then have "out = Inl e \<and> tw' = tw1 \<and> w' = w1" using assms pn by simp
      then show ?thesis using b by (intro failed[of e r0]) auto
    next
      case (Inr u)
      then have b': "(if backup_enabled tw then ensure_backup tw w else (Inr (), tw, w)) = (Inr (), tw1, w1)"
        using b by simp
      show ?thesis
      proof (cases "format_annotation (annotation_template tw1) (vault_root tw1) note")
        case (Inl e)
        then have "out = Inl e \<and> tw' = tw1 \<and> w' = w1" using assms pn \<open>r0 = Inr u\<close> by simp
        then show ?thesis using b by (intro failed[of e r0]) auto
      next
        case (Inr annotation)
        show ?thesis
        proof (cases "import_task w1 (build_task_payload (tw_parse_ts w1) (tw_now_ts w1) note
                                        (build_description note) tags project annotation)")
          case (Inl e)
          then have "out = Inl e \<and> tw' = tw1 \<and> w' = w1" using assms pn \<open>r0 = Inr u\<close> Inr by simp
          then show ?thesis using b by (intro failed[of e r0]) auto
        next
          case (Inr w2)
          then show ?thesis
            using assms pn b' \<open>r0 = Inr u\<close> \<open>format_annotation _ _ _ = Inr annotation\<close> tp False
            by (intro added[of tags project tw1 w1]) (auto simp: import_task_def split: if_splits)
        qed
      qed
    qed
  qed
qed

lemma process_note_cases:
  assumes "process_note tw w note = (out, tw', w')"
  obtains (at_cap) l r where "max_new_tasks_per_run tw = Some l" "l \<le> tasks_added tw"
      "tw' = tw" "w' = w" "out = Inr r" "cr_status r = ''limit''"
  | (below_cap) "process_new tw w note = (out, tw', w')"
      "case max_new_tasks_per_run tw of None \<Rightarrow> True | Some l \<Rightarrow> tasks_added tw < l"
  using assms by (cases "max_new_tasks_per_run tw") (auto simp: process_note_def split: if_splits)

lemma summary_key_of_task_key:
  "summary_key d p = (fst (task_key d t p), py_strip (snd (snd (task_key d t p))))"
  by (simp add: summary_key_def task_key_def py_strip_lower)

lemma keys_consistent_insert:
  "keys_consistent tw \<Longrightarrow>
   keys_consistent (tw\<lparr>tasks_added := n,
                       existing_task_keys := insert (task_key d t p) (existing_task_keys tw),
                       existing_summary_keys := insert (summary_key d p) (existing_summary_keys tw),
                       existing_tags := X\<rparr>)"
proof -
  assume kc: "keys_consistent tw"
  obtain a b c where k: "task_key d t p = (a, b, c)" by (cases "task_key d t p") auto
  then have "summary_key d p = (a, py_strip c)"
    using summary_key_of_task_key[of d p t] by simp
  then show ?thesis
    using kc k unfolding keys_consistent_def by fastforce
qed

lemma ensure_backup_Inr:
  assumes h: "ensure_backup tw w = (Inr (), tw1, w1)" and en: "backup_enabled tw"
  shows "backed_up tw1"
proof (cases "backed_up tw")
  case True
  then have "ensure_backup tw w = (Inr (), tw, w)" by (simp add: ensure_backup_def)
  then show ?thesis using h True by simp
next
  case False
  then have "fst (ensure_backup tw w) = Inr () \<Longrightarrow> backed_up (fst (snd (ensure_backup tw w)))"
    using en by (simp add: ensure_backup_def Let_def split: if_splits)
  then show ?thesis using h by simp
qed

lemma ensure_backup_fields:
  assumes "(if b then ensure_backup tw w else (Inr (), tw, w)) = (r, tw1, w1)"
  shows "tw1 = tw \<or> tw1 = tw\<lparr>backed_up := True\<rparr>" and "tw_db w1 = tw_db w"
    and "length (tw_copies w1) + (if backed_up tw then 1 else 0)
           = length (tw_copies w) + (if backed_up tw1 then 1 else 0)"
    and "backed_up tw \<Longrightarrow> backed_up tw1"
    and "b \<Longrightarrow> backup_enabled tw \<Longrightarrow> r = Inr () \<Longrightarrow> backed_up tw1"
proof -
  have c: "(tw1 = tw \<and> w1 = w) \<or> (\<not> backed_up tw \<and> tw1 = tw\<lparr>backed_up := True\<rparr> \<and>
              tw_db w1 = tw_db w \<and> length (tw_copies w1) = Suc (length (tw_copies w)))"
  proof (cases b)
    case True
    then have "ensure_backup tw w = (r, tw1, w1)" using assms by simp
    from ensure_backup_cases[OF this] show ?thesis
      by (elim disjE conjE) simp_all
  qed (use assms in simp)
  then show "tw1 = tw \<or> tw1 = tw\<lparr>backed_up := True\<rparr>" by blast
  from c show "tw_db w1 = tw_db w" by blast
  from c show "length (tw_copies w1) + (if backed_up tw then 1 else 0)
           = length (tw_copies w) + (if backed_up tw1 then 1 else 0)" by (elim disjE conjE) simp_all
  from c show "backed_up tw \<Longrightarrow> backed_up tw1" by (elim disjE conjE) simp_all
  show "b \<Longrightarrow> backup_enabled tw \<Longrightarrow> r = Inr () \<Longrightarrow> backed_up tw1"
    using assms ensure_backup_Inr by simp
qed

lemma process_note_shape:
  assumes "process_note tw w note = (out, tw', w')"
  obtains (unchanged) "tw' = tw" "w' = w" "\<forall>r. out = Inr r \<longrightarrow> cr_status r \<in> {''skip'', ''limit''}"
  | (failed) e r0 where "out = Inl e"
      "(if backup_enabled tw then ensure_backup tw w else (Inr (), tw, w)) = (r0, tw', w')"
  | (added) tags project w1 tw1 payload where "prepare_tags tw note = (tags, project)"
      "summary_key (build_description note) project \<notin> existing_summary_keys tw"
      "(if backup_enabled tw then ensure_backup tw w else (Inr (), tw, w)) = (Inr (), tw1, w1)"
      "cr_status (projr out) = ''success''" "\<exists>r. out = Inr r"
      "case max_new_tasks_per_run tw of None \<Rightarrow> True | Some l \<Rightarrow> tasks_added tw < l"
      "tw' = tw1\<lparr>tasks_added := Suc (tasks_added tw1),
               existing_task_keys := insert (task_key (build_description note) tags project) (existing_task_keys tw1),
               existing_summary_keys := insert (summary_key (build_description note) project) (existing_summary_keys tw1),
               existing_tags := existing_tags tw1 \<union> set (map py_lower tags)\<rparr>"
      "w' = w1\<lparr>tw_db := tw_db w1 @ [payload]\<rparr>"
  using assms
proof (cases rule: process_note_cases)
  case at_cap
  then show ?thesis using unchanged by auto
next
  case below_cap
  from below_cap(1) show ?thesis
  proof (cases rule: process_new_cases)
    case unchanged
    then show ?thesis using that(1) by auto
  next
    case (failed e r0)
    then show ?thesis using that(2) by blast
  next
    case (added tags project w1 tw1)
    then show ?thesis using that(3)[of tags project tw1 w1] below_cap(2) by blast
  qed
qed

lemma process_note_frame:
  assumes "process_note tw w note = (out, tw', w')"
  shows "tw' = tw\<lparr>tasks_added := tasks_added tw', backed_up := backed_up tw', existing_tags := existing_tags tw',
                   existing_task_keys := existing_task_keys tw', existing_summary_keys := existing_summary_keys tw'\<rparr>"
  using assms
proof (cases rule: process_note_shape)
  case (failed e r0)
  then show ?thesis using ensure_backup_fields(1)[OF failed(2)] by auto
next
  case (added tags project w1 tw1 payload)
  then show ?thesis using ensure_backup_fields(1)[OF added(3)] by auto
qed simp

lemma process_note_imports:
  assumes "process_note tw w note = (out, tw', w')"
  shows "length (tw_db w') + tasks_added tw = length (tw_db w) + tasks_added tw'"
  using assms
proof (cases rule: process_note_shape)
  case (failed e r0)
  then show ?thesis using ensure_backup_fields(1,2)[OF failed(2)] by auto
next
  case (added tags project w1 tw1 payload)
  then show ?thesis using ensure_backup_fields(1,2)[OF added(3)] by auto
qed simp

lemma process_note_backups:
  assumes "process_note tw w note = (out, tw', w')"
  shows "length (tw_copies w') + (if backed_up tw then 1 else 0)
           = length (tw_copies w) + (if backed_up tw' then 1 else 0)"
  using assms
proof (cases rule: process_note_shape)
  case (failed e r0)
  then show ?thesis using ensure_backup_fields(3)[OF failed(2)] by simp
next
  case (added tags project w1 tw1 payload)
  then show ?thesis using ensure_backup_fields(3)[OF added(3)] by simp
qed simp

lemma process_note_backed_up_mono:
  assumes "process_note tw w note = (out, tw', w')" and "backed_up tw"
  shows "backed_up tw'"
  using assms(1)
proof (cases rule: process_note_shape)
  case (failed e r0)
  then show ?thesis using ensure_backup_fields(4)[OF failed(2) assms(2)] by simp
next
  case (added tags project w1 tw1 payload)
  then show ?thesis using ensure_backup_fields(4)[OF added(3) assms(2)] by simp
qed (use assms in simp)

lemma process_note_cap:
  assumes "process_note tw w note = (out, tw', w')" and "tw_cap_ok tw"
  shows "tw_cap_ok tw'"
  using assms(1)
proof (cases rule: process_note_shape)
  case (failed e r0)
  then show ?thesis using ensure_backup_fields(1)[OF failed(2)] assms(2)
    by (auto simp: tw_cap_ok_def split: option.splits)
next
  case (added tags project w1 tw1 payload)
  then show ?thesis using ensure_backup_fields(1)[OF added(3)]
    by (auto simp: tw_cap_ok_def split: option.splits)
qed (use assms in simp)

lemma process_note_backup_first:
  assumes "process_note tw w note = (out, tw', w')" and "backup_enabled tw"
    and "length (tw_db w) < length (tw_db w')"
  shows "backed_up tw'"
  using assms(1)
proof (cases rule: process_note_shape)
  case (failed e r0)
  then show ?thesis using ensure_backup_fields(2)[OF failed(2)] assms(3) by simp
next
  case (added tags project w1 tw1 payload)
  then show ?thesis using ensure_backup_fields(5)[OF added(3) assms(2) assms(2)] by simp
qed (use assms in simp)

lemma process_note_keys:
  assumes "process_note tw w note = (out, tw', w')" and "keys_consistent tw"
  shows "keys_consistent tw'"
  using assms(1)
proof (cases rule: process_note_shape)
  case (failed e r0)
  then show ?thesis using ensure_backup_fields(1)[OF failed(2)] assms(2) by (auto simp: keys_consistent_def)
next
  case (added tags project w1 tw1 payload)
  have "keys_consistent tw1"
    using ensure_backup_fields(1)[OF added(3)] assms(2) by (auto simp: keys_consistent_def)
  then show ?thesis using added(7) keys_consistent_insert[OF \<open>keys_consistent tw1\<close>] by simp
qed (use assms in simp)

section \<open>The handler\<close>

lemma tw_handle_cases:
  assumes "tw_handle tw st s w = (out, tw', s', w')"
  obtains (unmatched) "tw' = tw" "w' = w" "s' = s"
  | (processed) "process_note tw w (ns_note st) = (out, tw', w')"
      "s' = s \<or> s' = mark_emitted (tw_now w') (tw_name tw') (np_path (ns_note st)) (np_note_hash (ns_note st))
                                 (cr_status (projr out)) (cr_metadata (projr out)) s"
proof (cases "tw_matches tw st")
  case True
  obtain o1 tw1 w1 where p: "process_note tw w (ns_note st) = (o1, tw1, w1)"
    by (cases "process_note tw w (ns_note st)") auto
  show ?thesis
    using assms True p processed by (cases o1) (auto simp: tw_handle_def Let_def split: if_splits)
qed (use assms unmatched in \<open>auto simp: tw_handle_def Let_def\<close>)

lemma process_note_config:
  assumes "process_note tw w note = (out, tw', w')"
  shows "tw_name tw' = tw_name tw" and "max_new_tasks_per_run tw' = max_new_tasks_per_run tw"
    and "backup_enabled tw' = backup_enabled tw"
  by (subst process_note_frame[OF assms], simp)+

lemma tw_handler_local: "handler_local tw_ops"
  unfolding handler_local_def
proof (intro allI)
  fix tw st s w
  obtain out tw' s' w' where h: "tw_handle tw st s w = (out, tw', s', w')"
    by (cases "tw_handle tw st s w") auto
  from h have "tw_name tw' = tw_name tw \<and> note_rows s' = note_rows s \<and>
      (\<forall>n p. n \<noteq> tw_name tw \<longrightarrow> get_emission_hash s' n p = get_emission_hash s n p)"
  proof (cases rule: tw_handle_cases)
    case processed
    then show ?thesis using process_note_config(1)[OF processed(1)] by auto
  qed simp
  then show "case co_handle tw_ops tw st s w of (_, c', s', _) \<Rightarrow>
      co_name tw_ops c' = co_name tw_ops tw \<and> note_rows s' = note_rows s \<and>
      (\<forall>n p. n \<noteq> co_name tw_ops tw \<longrightarrow> get_emission_hash s' n p = get_emission_hash s n p)"
    using h by (simp add: tw_ops_def)
qed

lemma dispatch_tw_rel:
  assumes step: "\<And>tw w n out tw' w'. process_note tw w n = (out, tw', w') \<Longrightarrow> R tw w tw' w'"
    and refl: "\<And>tw w. R tw w tw w"
    and trans: "\<And>a b c d e f. R a b c d \<Longrightarrow> R c d e f \<Longrightarrow> R a b e f"
  shows "dispatch_states tw_ops tw sts s w cnt f = Inr (tw', s', w', cnt', f') \<Longrightarrow> R tw w tw' w'"
    and "dispatch_states tw_ops tw sts s w cnt f = Inl (e, s', w') \<Longrightarrow> \<exists>tw'. R tw w tw' w'"
proof (induction sts arbitrary: tw s w cnt f)
  case Nil
  { case 1 then show ?case using refl by simp }
  { case 2 then show ?case by simp }
next
  case (Cons st sts)
  have r1: "R tw w tw1 w1" if "tw_handle tw st s w = (out, tw1, s1, w1)" for tw st s w out tw1 s1 w1
    using that by (cases rule: tw_handle_cases) (auto intro: refl step)
  have h': "co_handle tw_ops tw st s w = tw_handle tw st s w" and m: "co_matches tw_ops tw st = tw_matches tw st"
    for tw s w by (simp_all add: tw_ops_def)
  { case 1
    obtain out tw1 s1 w1 where h: "tw_handle tw st s w = (out, tw1, s1, w1)"
      by (cases "tw_handle tw st s w") auto
    show ?case
    proof (cases "tw_matches tw st")
      case True
      then show ?thesis
        using 1[unfolded dispatch_states_step[OF True[folded m] h[folded h']]] r1[OF h] Cons.IH(1)[of tw1 s1 w1] trans
        by (auto split: sum.splits option.splits)
    qed (use 1 Cons.IH(1) m in simp) }
  { case 2
    obtain out tw1 s1 w1 where h: "tw_handle tw st s w = (out, tw1, s1, w1)"
      by (cases "tw_handle tw st s w") auto
    show ?case
    proof (cases "tw_matches tw st")
      case True
      then show ?thesis
        using 2[unfolded dispatch_states_step[OF True[folded m] h[folded h']]] r1[OF h] Cons.IH(2)[of tw1 s1 w1] trans
        by (auto split: sum.splits option.splits; meson)
    qed (use 2 Cons.IH(2) m in simp) }
qed

section \<open>Properties of the consumer\<close>

lemma next_backup_fresh: "next_backup existing dir ts counter \<notin> set existing"
  by (induction existing dir ts counter rule: next_backup.induct) (subst next_backup.simps, simp)

lemma process_note_known_summary:
  assumes "summary_key (build_description n) (snd (prepare_tags tw n)) \<in> existing_summary_keys tw"
  shows "\<exists>r. process_note tw w n = (Inr r, tw, w) \<and> cr_status r \<noteq> ''success''"
proof -
  obtain tags project where tp: "prepare_tags tw n = (tags, project)"
    by (cases "prepare_tags tw n") auto
  have "\<exists>r. process_new tw w n = (Inr r, tw, w) \<and> cr_status r \<noteq> ''success''"
    using assms tp by (auto simp: process_new_def Let_def skip_result_def)
  then show ?thesis
    by (auto simp: process_note_def split: option.splits)
qed

lemma task_key_in_summary:
  "keys_consistent tw \<Longrightarrow> task_key d t p \<in> existing_task_keys tw \<Longrightarrow> summary_key d p \<in> existing_summary_keys tw"
  unfolding keys_consistent_def using summary_key_of_task_key[of d p t] by (cases "task_key d t p") fastforce

text \<open>
  C9: re-submission is a no-op. After a note has created a task, any note with the same
  description and project (the loose key), the same note included, is reported as a skip
  or a limit, and neither the consumer nor Taskwarrior changes.
\<close>

theorem process_note_resubmit:
  assumes "process_note tw w n = (Inr r, tw', w')" and "cr_status r = ''success''"
    and "summary_key (build_description n2) (snd (prepare_tags tw' n2))
           = summary_key (build_description n) (snd (prepare_tags tw n))"
  shows "\<exists>r2. process_note tw' w' n2 = (Inr r2, tw', w') \<and> cr_status r2 \<noteq> ''success''"
  using assms(1)
proof (cases rule: process_note_shape)
  case (added tags project w1 tw1 payload)
  then have "summary_key (build_description n2) (snd (prepare_tags tw' n2)) \<in> existing_summary_keys tw'"
    using assms(3) by simp
  then show ?thesis by (rule process_note_known_summary)
qed (use assms in auto)

text \<open>
  C10: the creation cap. Over one consumer's pass through its pending notes, with
  \<open>max_new_tasks_per_run = l\<close> and a counter within it, the number of tasks imported
  into Taskwarrior plus the counter stays within \<open>l\<close>, whether the pass ends normally
  or by a crash of the tally.
\<close>

theorem dispatch_cap:
  assumes "max_new_tasks_per_run tw = Some l" and "tasks_added tw \<le> l"
  shows "(dispatch_states tw_ops tw sts s w cnt f = Inr (tw', s', w', cnt', f') \<longrightarrow>
            length (tw_db w') + tasks_added tw \<le> length (tw_db w) + l) \<and>
         (dispatch_states tw_ops tw sts s w cnt f = Inl (e, s'', w'') \<longrightarrow>
            length (tw_db w'') + tasks_added tw \<le> length (tw_db w) + l)"
proof -
  define R :: "tw \<Rightarrow> tw_world \<Rightarrow> tw \<Rightarrow> tw_world \<Rightarrow> bool"
    where "R = (\<lambda>tw w tw' w'. length (tw_db w') + tasks_added tw = length (tw_db w) + tasks_added tw' \<and>
              max_new_tasks_per_run tw' = max_new_tasks_per_run tw \<and> (tw_cap_ok tw \<longrightarrow> tw_cap_ok tw'))"
  have R_step: "\<And>tw w n out tw' w'. process_note tw w n = (out, tw', w') \<Longrightarrow> R tw w tw' w'"
    using process_note_imports process_note_cap process_note_config(2) unfolding R_def by metis
  have R_refl: "\<And>tw w. R tw w tw w" by (simp add: R_def)
  have R_trans: "\<And>a b c d e f. R a b c d \<Longrightarrow> R c d e f \<Longrightarrow> R a b e f" by (auto simp: R_def)
  have rel1: "R tw w tw' w'" if "dispatch_states tw_ops tw sts s w cnt f = Inr (tw', s', w', cnt', f')"
    by (rule dispatch_tw_rel(1)[where R = R], erule R_step, rule R_refl, erule (1) R_trans, rule that)
  have rel2: "\<exists>tw'. R tw w tw' w''" if "dispatch_states tw_ops tw sts s w cnt f = Inl (e, s'', w'')"
    by (rule dispatch_tw_rel(2)[where R = R], erule R_step, rule R_refl, erule (1) R_trans, rule that)
  have ok: "tw_cap_ok tw" using assms by (simp add: tw_cap_ok_def)
  have bound: "length (tw_db w') + tasks_added tw \<le> length (tw_db w) + l" if "R tw w tw' w'" for tw' w'
    using that ok assms(1) by (auto simp: tw_cap_ok_def R_def)
  show ?thesis
    using rel1 rel2 bound by blast
qed

lemma dispatch_tw_outcomes:
  assumes step: "\<And>tw w n out tw' w'. process_note tw w n = (out, tw', w') \<Longrightarrow> R tw w tw' w'"
    and refl: "\<And>tw w. R tw w tw w"
    and trans: "\<And>a b c d e f. R a b c d \<Longrightarrow> R c d e f \<Longrightarrow> R a b e f"
  shows "(dispatch_states tw_ops tw sts s w cnt f = Inr (tw', s', w', cnt', f') \<longrightarrow> R tw w tw' w') \<and>
         (dispatch_states tw_ops tw sts s w cnt f = Inl (e, s'', w'') \<longrightarrow> (\<exists>tw''. R tw w tw'' w''))"
proof (intro conjI impI)
  show "R tw w tw' w'" if "dispatch_states tw_ops tw sts s w cnt f = Inr (tw', s', w', cnt', f')"
    by (rule dispatch_tw_rel(1)[where R = R], erule step, rule refl, erule (1) trans, rule that)
  show "\<exists>tw''. R tw w tw'' w''" if "dispatch_states tw_ops tw sts s w cnt f = Inl (e, s'', w'')"
    by (rule dispatch_tw_rel(2)[where R = R], erule step, rule refl, erule (1) trans, rule that)
qed

lemma process_note_backup_rel:
  assumes "process_note tw w n = (out, tw', w')"
  shows "backup_rel tw w tw' w'"
  unfolding backup_rel_def
  using process_note_config(3)[OF assms] process_note_backed_up_mono[OF assms] process_note_backups[OF assms]
    process_note_backup_first[OF assms]
  by blast

lemma backup_rel_refl: "backup_rel tw w tw w"
  by (simp add: backup_rel_def)

lemma backup_rel_trans: "backup_rel a b c d \<Longrightarrow> backup_rel c d e f \<Longrightarrow> backup_rel a b e f"
  unfolding backup_rel_def by (cases "length (tw_db b) < length (tw_db d)") (auto split: if_splits)

lemma dispatch_backup_rel:
  "(dispatch_states tw_ops tw sts s w cnt f = Inr (tw', s', w', cnt', f') \<longrightarrow> backup_rel tw w tw' w') \<and>
   (dispatch_states tw_ops tw sts s w cnt f = Inl (e, s'', w'') \<longrightarrow> (\<exists>tw''. backup_rel tw w tw'' w''))"
  by (rule dispatch_tw_outcomes[where R = backup_rel])
     (erule process_note_backup_rel, rule backup_rel_refl, erule (1) backup_rel_trans)

text \<open>
  C11: at most one backup per pass. Over one consumer's pass through its pending notes,
  the backup directory receives at most one copy of the Taskwarrior data, and none when the
  instance has already made its backup, whether the pass ends normally or by a crash.
\<close>

theorem dispatch_backup_once:
  "(dispatch_states tw_ops tw sts s w cnt f = Inr (tw', s', w', cnt', f') \<longrightarrow>
      length (tw_copies w') \<le> length (tw_copies w) + (if backed_up tw then 0 else 1)) \<and>
   (dispatch_states tw_ops tw sts s w cnt f = Inl (e, s'', w'') \<longrightarrow>
      length (tw_copies w'') \<le> length (tw_copies w) + (if backed_up tw then 0 else 1))"
  using dispatch_backup_rel[of tw sts s w cnt f tw' s' w' cnt' f' e s'' w'']
  unfolding backup_rel_def by (auto split: if_splits)

text \<open>
  C12: the backup precedes the first task created. When backups are enabled and a pass
  imports a task into Taskwarrior, the instance has made its backup: it had made it before
  the pass, or the pass made one copy of the data directory.
\<close>

theorem dispatch_backup_before_import:
  assumes "backup_enabled tw"
  shows "(dispatch_states tw_ops tw sts s w cnt f = Inr (tw', s', w', cnt', f') \<longrightarrow>
            length (tw_db w) < length (tw_db w') \<longrightarrow> backed_up tw' \<and> (backed_up tw \<or> length (tw_copies w) < length (tw_copies w'))) \<and>
         (dispatch_states tw_ops tw sts s w cnt f = Inl (e, s'', w'') \<longrightarrow>
            length (tw_db w) < length (tw_db w'') \<longrightarrow> backed_up tw \<or> length (tw_copies w) < length (tw_copies w''))"
  using dispatch_backup_rel[of tw sts s w cnt f tw' s' w' cnt' f' e s'' w''] assms
  unfolding backup_rel_def by (auto split: if_splits)

text \<open>
  C13: the backup target is fresh. The collision-avoiding loop of \<open>_ensure_backup\<close>
  returns a path in the backup directory that does not exist yet.
\<close>

theorem backup_target_fresh:
  "backup_target existing dir ts \<notin> set existing \<and> butlast (backup_target existing dir ts) = dir"
proof -
  have "butlast (next_backup existing dir ts c) = dir" for c
    by (induction existing dir ts c rule: next_backup.induct) (subst next_backup.simps, simp add: backup_name_def)
  then show ?thesis
    using next_backup_fresh by (simp add: backup_target_def)
qed

lemma process_new_strict_dup:
  assumes "process_new tw w n = (Inr r, tw', w')" and "cr_message r = ''duplicate task''"
  shows "summary_key (build_description n) (snd (prepare_tags tw n)) \<notin> existing_summary_keys tw \<and>
         task_key (build_description n) (fst (prepare_tags tw n)) (snd (prepare_tags tw n)) \<in> existing_task_keys tw"
proof -
  obtain tags project where tp: "prepare_tags tw n = (tags, project)"
    by (cases "prepare_tags tw n") auto
  show ?thesis
  proof (cases "build_description n = [] \<or> summary_key (build_description n) project \<in> existing_summary_keys tw")
    case True
    then have "cr_message (projr (fst (process_new tw w n)))
                 \<in> {''empty description'', ''duplicate task (description/project)''}"
      using tp by (auto simp: process_new_def Let_def skip_result_def)
    then show ?thesis using assms by simp
  next
    case False
    from assms(1) show ?thesis
    proof (cases rule: process_new_cases)
      case unchanged
      then show ?thesis using False tp by auto
    next
      case (added tags' project' w1 tw1)
      then show ?thesis using assms(2) by auto
    qed simp
  qed
qed

lemma those_sum_Inr: "those_sum xs = Inr ys \<Longrightarrow> y \<in> set ys \<Longrightarrow> Inr y \<in> set xs"
  by (induction xs arbitrary: ys) auto

lemma exported_keys_consistent:
  "exported_keys task = Inr (k, sk) \<Longrightarrow> sk = (fst k, py_strip (snd (snd k)))"
  by (auto simp: exported_keys_def Let_def summary_key_of_task_key split: yval.splits)

lemma load_existing_task_keys_consistent:
  assumes "load_existing_task_keys w = Inr (keys, skeys)" and "(d, t, p) \<in> keys"
  shows "(d, py_strip p) \<in> skeys"
proof -
  obtain ks where ks: "those_sum (map exported_keys (tw_db w)) = Inr ks" "keys = fst ` set ks" "skeys = snd ` set ks"
    using assms(1) by (auto simp: load_existing_task_keys_def split: if_splits)
  obtain sk where k: "((d, t, p), sk) \<in> set ks" using assms(2) ks(2) by auto
  then have "exported_keys task = Inr ((d, t, p), sk)" if "task \<in> set (tw_db w)" "exported_keys task = Inr ((d, t, p), sk)" for task
    using that by simp
  obtain task where "exported_keys task = Inr ((d, t, p), sk)"
    using those_sum_Inr[OF ks(1) k] by auto
  then have "sk = (d, py_strip p)" by (auto dest: exported_keys_consistent)
  then show ?thesis using k ks(3) by force
qed

text \<open>
  C14: the strict key is never the reason for a skip. On an instance whose snapshot has
  the loose key of every strict key (as \<open>tw_init\<close> builds it and every step keeps it,
  \<open>tw_init_keys_consistent\<close> and \<open>process_note_keys\<close>), \<open>_process_note\<close> never
  reports "duplicate task": the strict check after the loose one is dead code.
\<close>

theorem strict_key_unreachable:
  assumes "keys_consistent tw" and "process_note tw w n = (Inr r, tw', w')"
  shows "cr_message r \<noteq> ''duplicate task''"
proof
  assume m: "cr_message r = ''duplicate task''"
  from assms(2) show False
  proof (cases rule: process_note_cases)
    case at_cap
    then show False using assms(2) m by (auto simp: process_note_def)
  next
    case below_cap
    note d = process_new_strict_dup[OF below_cap(1) m]
    then show False using task_key_in_summary[OF assms(1)] by (metis prod.collapse)
  qed
qed

lemma tw_init_InrE:
  assumes "tw_init state_dir vroot order cfg w = (Inr tw, w')"
  obtains fs1 taskrc ddir keys skeys where
    "mkdir_parents (tw_fs w) (backup_dir tw) = Inr fs1" "w' = w\<lparr>tw_fs := fs1\<rparr>"
    "resolve_taskrc_path w' (cc_options cfg) = Inr taskrc"
    "resolve_data_directory w' (cc_options cfg) taskrc = Inr ddir"
    "path_exists (tw_fs w') ddir"
    "load_existing_task_keys w' = Inr (keys, skeys)"
    "tw_name tw = cc_name cfg" "taskrc_path tw = taskrc" "data_directory tw = ddir"
    "existing_task_keys tw = keys" "existing_summary_keys tw = skeys"
  using assms unfolding tw_init_def Let_def
  by (auto intro: that split: sum.splits prod.splits if_splits)

lemma tw_init_world:
  assumes "tw_init state_dir vroot order cfg w = (r, w')"
  shows "w' = w \<or> (\<exists>bdir fs1. mkdir_parents (tw_fs w) bdir = Inr fs1 \<and> w' = w\<lparr>tw_fs := fs1\<rparr>)"
  using assms unfolding tw_init_def Let_def
  by (auto split: sum.splits prod.splits)

text \<open>
  C15: a freshly built consumer has a consistent snapshot: every strict key loaded from
  \<open>task export\<close> comes with its loose key.
\<close>

theorem tw_init_keys_consistent:
  assumes "tw_init state_dir vroot order cfg w = (Inr tw, w')"
  shows "keys_consistent tw"
proof -
  obtain keys skeys where l: "load_existing_task_keys w' = Inr (keys, skeys)"
      and k: "existing_task_keys tw = keys" "existing_summary_keys tw = skeys"
    using assms by (rule tw_init_InrE) blast
  show ?thesis
    unfolding keys_consistent_def k using load_existing_task_keys_consistent[OF l] by blast
qed

lemma tw_init_name: "tw_init state_dir vroot order cfg w = (Inr tw, w') \<Longrightarrow> tw_name tw = cc_name cfg"
  by (erule tw_init_InrE) simp

lemma tw_registry_names:
  "tw_registry state_dir vroot order = Inr reg \<Longrightarrow> names_from_config tw_name reg"
  by (auto simp: tw_registry_def register_def names_from_config_def dest: tw_init_name)


section \<open>Where the consumer finds Taskwarrior\<close>

lemma user_path_absolute: "user_path w s = Inr p \<Longrightarrow> is_absolute p"
  by (auto simp: user_path_def path_resolve_def is_absolute_def)

lemma parse_taskrc_for_data_location_absolute:
  assumes "parse_taskrc_for_data_location w taskrc = Inr (Some d)"
  shows "is_absolute d"
proof -
  from assms obtain v where "user_path w v = Inr d"
    by (auto simp: parse_taskrc_for_data_location_def split: option.split_asm)
  then show ?thesis by (rule user_path_absolute)
qed

lemma resolve_data_directory_fallback:
  assumes "\<not> py_truthy (opt_get opts ''data_directory'' YNone) \<or>
           (\<exists>p. user_path w (py_str (opt_get opts ''data_directory'' YNone)) = Inr p \<and> \<not> path_exists (tw_fs w) p)"
  shows "resolve_data_directory w opts taskrc =
           sbind (parse_taskrc_for_data_location w taskrc) (\<lambda>d. case d of Some q \<Rightarrow> Inr q | None \<Rightarrow> user_path w ''~/.task'')"
  using assms unfolding resolve_data_directory_def Let_def by auto

lemma resolve_data_directory_absolute:
  assumes "resolve_data_directory w opts taskrc = Inr d"
  shows "is_absolute d"
proof -
  have fb: "is_absolute d"
    if "sbind (parse_taskrc_for_data_location w taskrc)
          (\<lambda>t. case t of Some q \<Rightarrow> Inr q | None \<Rightarrow> user_path w ''~/.task'') = Inr d"
  proof -
    from that obtain t where t: "parse_taskrc_for_data_location w taskrc = Inr t"
      and c: "(case t of Some q \<Rightarrow> Inr q | None \<Rightarrow> user_path w ''~/.task'') = Inr d"
      by auto
    show ?thesis
    proof (cases t)
      case None
      with c have "user_path w ''~/.task'' = Inr d" by simp
      then show ?thesis by (rule user_path_absolute)
    next
      case (Some q)
      with c t have "parse_taskrc_for_data_location w taskrc = Inr (Some d)" by simp
      then show ?thesis by (rule parse_taskrc_for_data_location_absolute)
    qed
  qed
  show ?thesis
  proof (cases "\<exists>p. user_path w (py_str (opt_get opts ''data_directory'' YNone)) = Inr p \<and>
                     path_exists (tw_fs w) p \<and> py_truthy (opt_get opts ''data_directory'' YNone)")
    case True
    then obtain p where p: "user_path w (py_str (opt_get opts ''data_directory'' YNone)) = Inr p"
      and "path_exists (tw_fs w) p" "py_truthy (opt_get opts ''data_directory'' YNone)" by blast
    with assms have "p = d" by (simp add: resolve_data_directory_def)
    with p show ?thesis using user_path_absolute by blast
  next
    case False
    let ?x = "opt_get opts ''data_directory'' YNone"
    consider (fallback) "resolve_data_directory w opts taskrc =
           sbind (parse_taskrc_for_data_location w taskrc) (\<lambda>t. case t of Some q \<Rightarrow> Inr q | None \<Rightarrow> user_path w ''~/.task'')"
      | (raised) e where "py_truthy ?x" and "user_path w (py_str ?x) = Inl e"
    proof (cases "user_path w (py_str ?x)")
      case (Inl e)
      then show ?thesis
        using that resolve_data_directory_fallback[of opts w taskrc] by (cases "py_truthy ?x") auto
    next
      case (Inr p)
      then show ?thesis
        using that False resolve_data_directory_fallback[of opts w taskrc] by blast
    qed
    then show ?thesis
    proof cases
      case fallback
      with assms show ?thesis by (intro fb) simp
    next
      case raised
      with assms show ?thesis by (simp add: resolve_data_directory_def)
    qed
  qed
qed

lemma resolve_data_directory_explicit:
  assumes "py_truthy (opt_get opts ''data_directory'' YNone)"
    and "user_path w (py_str (opt_get opts ''data_directory'' YNone)) = Inr p" and "path_exists (tw_fs w) p"
  shows "resolve_data_directory w opts taskrc = Inr p"
  using assms by (simp add: resolve_data_directory_def)

lemma resolve_taskrc_path_option:
  "py_truthy (opt_get opts ''taskrc_path'' YNone) \<Longrightarrow>
   resolve_taskrc_path w opts = sbind (user_path w (py_str (opt_get opts ''taskrc_path'' YNone))) (\<lambda>p. Inr (Some p))"
  by (simp add: resolve_taskrc_path_def)

lemma resolve_taskrc_path_environ:
  "\<not> py_truthy (opt_get opts ''taskrc_path'' YNone) \<Longrightarrow> tw_environ_taskrc w = Some e \<Longrightarrow> e \<noteq> [] \<Longrightarrow>
   resolve_taskrc_path w opts = sbind (user_path w e) (\<lambda>p. Inr (Some p))"
  by (simp add: resolve_taskrc_path_def)

lemma tw_init_data_directory:
  assumes "tw_init state_dir vroot order cfg w = (Inr tw, w')"
  shows "resolve_taskrc_path w' (cc_options cfg) = Inr (taskrc_path tw) \<and>
         resolve_data_directory w' (cc_options cfg) (taskrc_path tw) = Inr (data_directory tw) \<and>
         path_exists (tw_fs w') (data_directory tw) \<and> is_absolute (data_directory tw)"
  using assms
proof (rule tw_init_InrE)
  fix fs1 taskrc ddir
  assume "resolve_taskrc_path w' (cc_options cfg) = Inr taskrc"
    and d: "resolve_data_directory w' (cc_options cfg) taskrc = Inr ddir"
    and "path_exists (tw_fs w') ddir" "taskrc_path tw = taskrc" "data_directory tw = ddir"
  then show ?thesis using resolve_data_directory_absolute[OF d] by simp
qed

lemma tw_init_backup_dir:
  assumes "tw_init state_dir vroot order cfg w = (Inr tw, w')" and "2 \<le> length (backup_dir tw)"
  shows "(\<exists>e. tw_fs w' = tw_fs w @ e) \<and> map_of (tw_fs w') (backup_dir tw) = Some None"
  using assms(1)
proof (rule tw_init_InrE)
  fix fs1
  assume "mkdir_parents (tw_fs w) (backup_dir tw) = Inr fs1" "w' = w\<lparr>tw_fs := fs1\<rparr>"
  then show ?thesis using mkdir_parents_ext[OF _ assms(2)] by simp
qed

end
