(* ===== verification/Config.thy ===== *)
theory Config
  imports Consumers
begin

text \<open>
  The pure part of \<open>src/scripts/automation/config.py\<close>: the deep merge of the user's
  TOML table over the defaults (\<open>_deep_merge\<close>) and the normalisation of the
  \<open>consumers\<close> table into consumer configurations (\<open>_normalise_consumers\<close>). TOML
  tables are header values (\<open>yval\<close>); reading the file, expanding \<open>~\<close> and
  environment variables and creating the state directories are file-system effects and
  are not modelled.
\<close>

section \<open>Deep merge\<close>

function deep_merge :: "header \<Rightarrow> header \<Rightarrow> header" where
  \<comment> \<open>\<open>_deep_merge(base, overlay)\<close>: the loop over \<open>overlay.items()\<close>\<close>
  "deep_merge merged [] = merged"
| "deep_merge merged ((key, value) # overlay) =
     deep_merge
       (case (map_of merged key, value) of
          (Some (YMap m), YMap ov) \<Rightarrow> AList.update key (YMap (deep_merge m ov)) merged
        | _ \<Rightarrow> AList.update key value merged)
       overlay"
  by pat_completeness auto
termination deep_merge
  by (relation "measure (\<lambda>(merged, overlay). size_list (size_prod (\<lambda>_. 0) size) overlay)") auto

section \<open>Consumer tables\<close>

definition consumer_of_table :: "string \<Rightarrow> yval \<Rightarrow> exn + consumer_config" where
  \<comment> \<open>the body of the loop of \<open>_normalise_consumers\<close>\<close>
  "consumer_of_table name payload =
     (case payload of
        YMap p \<Rightarrow>
          (case map_of p ''type'' of
             None \<Rightarrow> Inl (ValueError (''Consumer '' @ quoted name @ '' is missing required '' @ quoted ''type'' @ ''.''))
           | Some t \<Rightarrow>
               Inr \<lparr>cc_name = name, cc_type = py_str t,
                    cc_enabled = py_truthy (case map_of p ''enabled'' of None \<Rightarrow> YBool True | Some e \<Rightarrow> e),
                    cc_options = filter (\<lambda>(k, v). k \<notin> {''type'', ''enabled''}) p\<rparr>)
      | _ \<Rightarrow> Inl (ValueError (''Consumer '' @ quoted name @ '' must map to a table of options.'')))"

fun consumers_of_items :: "(string \<times> yval) list \<Rightarrow> exn + consumer_config list" where
  "consumers_of_items [] = Inr []"
| "consumers_of_items ((name, payload) # items) =
     sbind (consumer_of_table name payload) (\<lambda>c. sbind (consumers_of_items items) (\<lambda>cs. Inr (c # cs)))"

definition normalise_consumers :: "yval \<Rightarrow> exn + consumer_config list" where
  \<comment> \<open>\<open>_normalise_consumers(data)\<close>: the tables in the order of their names\<close>
  "normalise_consumers data =
     (case data of
        YMap d \<Rightarrow> consumers_of_items (sort_key fst d)
      | _ \<Rightarrow> Inl (AttributeError ''items''))"

section \<open>Loading the configuration\<close>

text \<open>
  \<open>load_config\<close> reads the TOML file when it exists (\<open>override\<close> is what \<open>tomllib\<close>
  returns, \<open>None\<close> for a missing file), merges it over \<open>DEFAULTS\<close>, and expands the
  paths. \<open>E\<close> is \<open>os.path.expandvars\<close> after \<open>os.path.expanduser\<close>, \<open>home\<close> the
  expansion of \<open>~\<close> in \<open>DEFAULTS\<close>, \<open>cwd\<close> the working directory that
  \<open>Path.resolve\<close> makes relative paths absolute against; symbolic links are not
  modelled, so resolving only removes \<open>..\<close> parts.
\<close>

definition py_upper_char :: "char \<Rightarrow> char" where
  \<comment> \<open>\<open>str.upper\<close> on one character; \<open>\<mu>\<close>, sharp s and y with diaeresis, whose upper
     case is not a character below 256, are kept\<close>
  "py_upper_char c =
     (let n = (of_char c :: nat)
      in if (97 \<le> n \<and> n \<le> 122) \<or> (224 \<le> n \<and> n \<le> 254 \<and> n \<noteq> 247) then char_of (n - 32) else c)"

definition py_upper :: "string \<Rightarrow> string" where
  "py_upper s = map py_upper_char s"

definition expand_path :: "(string \<Rightarrow> string) \<Rightarrow> path \<Rightarrow> string \<Rightarrow> path option \<Rightarrow> path" where
  \<comment> \<open>\<open>_expand_path(raw, base)\<close>\<close>
  "expand_path E cwd raw base =
     (let path = path_of_str (E raw);
          path' = (case base of None \<Rightarrow> path | Some b \<Rightarrow> if \<not> is_absolute path then b @ path else path)
      in path_resolve cwd path')"

definition py_getitem :: "yval \<Rightarrow> string \<Rightarrow> exn + yval" where
  \<comment> \<open>\<open>v[k]\<close>\<close>
  "py_getitem v k =
     (case v of
        YMap d \<Rightarrow> (case map_of d k of Some x \<Rightarrow> Inr x | None \<Rightarrow> Inl (KeyError k))
      | _ \<Rightarrow> Inl (TypeError ''object is not subscriptable''))"

definition py_dict_get :: "yval \<Rightarrow> string \<Rightarrow> yval \<Rightarrow> exn + yval" where
  \<comment> \<open>\<open>v.get(k, default)\<close>\<close>
  "py_dict_get v k dflt =
     (case v of YMap d \<Rightarrow> Inr (case map_of d k of Some x \<Rightarrow> x | None \<Rightarrow> dflt) | _ \<Rightarrow> Inl (AttributeError ''get''))"

definition defaults :: "string \<Rightarrow> header" where
  \<comment> \<open>\<open>DEFAULTS\<close>, with \<open>home\<close> the expansion of \<open>~\<close>\<close>
  "defaults home =
     [(''vault'', YMap [(''root'', YStr (home @ ''/notes'')), (''capture_dir'', YStr ''capture/raw_capture'')]),
      (''state'', YMap [(''dir'', YStr (home @ ''/.local/state/para-organize'')),
                        (''database'', YStr ''automations.db'')]),
      (''logging'', YMap [(''level'', YStr ''INFO'')]),
      (''consumers'', YMap [(''taskwarrior'', YMap
         [(''type'', YStr ''taskwarrior''), (''enabled'', YBool True), (''marker_tag'', YStr ''todo''),
          (''strip_tags'', YList [YStr ''todo'']), (''remove_unknown_tags'', YBool True),
          (''project_tag_prefix'', YStr ''project:''), (''default_project'', YNone),
          (''additional_tags'', YList []), (''review_tag'', YStr ''not_reviewed''),
          (''max_new_tasks_per_run'', YNone), (''annotation_template'', YStr ''Captured from {path}''),
          (''backup'', YMap [(''enabled'', YBool True), (''directory'', YStr ''backups/taskwarrior'')]),
          (''data_directory'', YStr (home @ ''/.task'')), (''taskrc_path'', YStr (home @ ''/.taskrc''))])])]"

record automation_config =
  ac_vault_root :: path
  ac_capture_dir :: path
  ac_state_dir :: path
  ac_database_path :: path
  ac_log_level :: string
  ac_consumers :: "consumer_config list"

definition build_config ::
  "(string \<Rightarrow> string) \<Rightarrow> path \<Rightarrow> string \<Rightarrow> header option \<Rightarrow> exn + automation_config" where
  \<comment> \<open>\<open>load_config\<close> up to the construction of \<open>AutomationConfig\<close>\<close>
  "build_config E cwd home override =
     (let data = (case override of None \<Rightarrow> defaults home | Some ov \<Rightarrow> deep_merge (defaults home) ov)
      in sbind (sbind (py_getitem (YMap data) ''vault'') (\<lambda>v. py_getitem v ''root'')) (\<lambda>root_raw.
         let vault_root = expand_path E cwd (py_str root_raw) None in
         sbind (sbind (py_getitem (YMap data) ''vault'') (\<lambda>v. py_getitem v ''capture_dir'')) (\<lambda>cd_raw.
         let capture_dir = expand_path E cwd (py_str cd_raw) (Some vault_root) in
         sbind (sbind (py_getitem (YMap data) ''state'') (\<lambda>v. py_getitem v ''dir'')) (\<lambda>sd_raw.
         let state_dir = expand_path E cwd (py_str sd_raw) None in
         sbind (sbind (py_getitem (YMap data) ''state'') (\<lambda>v. py_dict_get v ''database'' (YStr ''automations.db'')))
           (\<lambda>db_raw.
         let database_path = expand_path E cwd (py_str db_raw) (Some state_dir) in
         sbind (sbind (py_dict_get (YMap data) ''logging'' (YMap [])) (\<lambda>l. py_dict_get l ''level'' (YStr ''INFO'')))
           (\<lambda>lvl.
         sbind (sbind (py_dict_get (YMap data) ''consumers'' (YMap [])) normalise_consumers) (\<lambda>consumers.
         Inr \<lparr>ac_vault_root = vault_root, ac_capture_dir = capture_dir, ac_state_dir = state_dir,
              ac_database_path = database_path, ac_log_level = py_upper (py_str lvl),
              ac_consumers = consumers\<rparr>)))))))"

definition mkdir_exist_ok :: "fs \<Rightarrow> path \<Rightarrow> exn + fs" where
  \<comment> \<open>\<open>p.mkdir(exist_ok=True)\<close>: the parent must exist\<close>
  "mkdir_exist_ok fs p =
     (case map_of fs p of
        Some (Some _) \<Rightarrow> Inl (OSError ''File exists'')
      | Some None \<Rightarrow> Inr fs
      | None \<Rightarrow> if butlast p = [''/''] \<or> map_of fs (butlast p) = Some None then Inr (fs @ [(p, None)])
                else Inl (OSError ''No such file or directory''))"

definition path_parent :: "path \<Rightarrow> path" where
  \<comment> \<open>\<open>Path.parent\<close> of an absolute path\<close>
  "path_parent p = (if length p \<le> 1 then p else butlast p)"

definition ensure_state_dirs :: "automation_config \<Rightarrow> fs \<Rightarrow> exn + fs" where
  "ensure_state_dirs cfg fs =
     sbind (mkdir_parents fs (ac_state_dir cfg)) (\<lambda>fs1.
     sbind (mkdir_parents fs1 (path_parent (ac_database_path cfg))) (\<lambda>fs2.
     mkdir_exist_ok fs2 (ac_state_dir cfg @ [''backups''])))"

definition load_config ::
  "(string \<Rightarrow> string) \<Rightarrow> path \<Rightarrow> string \<Rightarrow> header option \<Rightarrow> fs \<Rightarrow> exn + automation_config \<times> fs" where
  "load_config E cwd home override fs =
     sbind (build_config E cwd home override) (\<lambda>cfg.
     sbind (ensure_state_dirs cfg fs) (\<lambda>fs'. Inr (cfg, fs')))"

section \<open>Properties of the merge\<close>

lemma header_wf_lookup: "header_wf b \<Longrightarrow> map_of b k = Some v \<Longrightarrow> yval_wf v"
  by (auto simp: header_wf_def list_all_iff dest: map_of_SomeD)

lemma header_wf_tail: "header_wf ((k, v) # kvs) \<Longrightarrow> header_wf kvs \<and> yval_wf v \<and> k \<notin> fst ` set kvs"
  by (simp add: header_wf_def)

lemma deep_merge_map_of:
  assumes "distinct (map fst ov)"
  shows "map_of (deep_merge b ov) k =
           (case map_of ov k of
              None \<Rightarrow> map_of b k
            | Some v \<Rightarrow> Some (case (map_of b k, v) of
                                (Some (YMap m), YMap ov') \<Rightarrow> YMap (deep_merge m ov')
                              | _ \<Rightarrow> v))"
  using assms
proof (induction ov arbitrary: b)
  case (Cons kv ov)
  obtain key val where kv: "kv = (key, val)" by (cases kv) auto
  define mv where "mv = (case (map_of b key, val) of
                          (Some (YMap m), YMap ov') \<Rightarrow> YMap (deep_merge m ov') | _ \<Rightarrow> val)"
  define b' where "b' = AList.update key mv b"
  have eq: "deep_merge b (kv # ov) = deep_merge b' ov"
    unfolding kv b'_def mv_def by (auto split: option.splits yval.splits)
  have nk: "map_of ov key = None" using Cons.prems kv by (simp add: map_of_eq_None_iff)
  note ih = Cons.IH[of b'] Cons.prems
  show ?case
  proof (cases "k = key")
    case True
    then have "map_of (deep_merge b' ov) k = Some mv" using ih nk by (simp add: b'_def)
    then show ?thesis using eq kv True by (simp add: mv_def)
  next
    case False
    have m: "map_of b' k = map_of b k" using False by (simp add: b'_def)
    have l: "map_of (deep_merge b (kv # ov)) k = map_of (deep_merge b' ov) k" using eq by simp
    show ?thesis unfolding l ih(1)[OF conjunct2[OF ih(2)[unfolded kv, simplified]]] m
      using kv False by simp
  qed
qed simp

text \<open>
  C21: what the merge computes. For an overlay with unique keys (a TOML table), every key
  of the merged table holds the overlay's value, merged recursively when both sides hold a
  table, and every key the overlay lacks keeps the default.
\<close>

theorem deep_merge_lookup:
  assumes "distinct (map fst ov)"
  shows "map_of (deep_merge b ov) k =
           (case map_of ov k of
              None \<Rightarrow> map_of b k
            | Some v \<Rightarrow> Some (case (map_of b k, v) of
                                (Some (YMap m), YMap ov') \<Rightarrow> YMap (deep_merge m ov')
                              | _ \<Rightarrow> v))"
  using assms by (rule deep_merge_map_of)

lemma deep_merge_header_wf: "header_wf b \<Longrightarrow> header_wf ov \<Longrightarrow> header_wf (deep_merge b ov)"
proof (induction b ov rule: deep_merge.induct)
  case (2 merged key val overlay)
  note t = header_wf_tail[OF "2.prems"(2)]
  let ?step = "case (map_of merged key, val) of
                 (Some (YMap m), YMap ov) \<Rightarrow> AList.update key (YMap (deep_merge m ov)) merged
               | _ \<Rightarrow> AList.update key val merged"
  have "header_wf ?step"
  proof (cases "\<exists>m ov'. map_of merged key = Some (YMap m) \<and> val = YMap ov'")
    case True
    then obtain m ov' where h: "map_of merged key = Some (YMap m)" "val = YMap ov'" by blast
    have "header_wf m" using header_wf_lookup[OF "2.prems"(1) h(1)] by simp
    moreover have "header_wf ov'" using t h(2) by simp
    ultimately have "header_wf (deep_merge m ov')" using "2.IH"(1) h by blast
    then show ?thesis using h "2.prems"(1) by (simp add: header_wf_update)
  next
    case False
    then have "?step = AList.update key val merged" by (auto split: option.splits yval.splits)
    then show ?thesis using "2.prems"(1) t by (simp add: header_wf_update)
  qed
  then have "header_wf (deep_merge ?step overlay)" using "2.IH"(2) t by simp
  then show ?case by simp
qed simp


section \<open>Properties of the normalisation\<close>

lemma map_insort_key: "map f (insort_key f x xs) = insort (f x) (map f xs)"
  by (induction xs) auto

lemma map_sort_key: "map f (sort_key f xs) = sort (map f xs)"
  by (induction xs) (simp_all add: map_insort_key)

lemma consumer_of_table_Inr:
  "consumer_of_table name payload = Inr c \<Longrightarrow> cc_name c = name"
  by (auto simp: consumer_of_table_def split: yval.splits option.splits)

lemma consumer_of_table_Inl:
  "consumer_of_table name payload = Inl e \<Longrightarrow> \<exists>msg. e = ValueError msg"
  by (auto simp: consumer_of_table_def split: yval.splits option.splits)

lemma consumer_of_table_isl:
  "isl (consumer_of_table name payload) \<longleftrightarrow>
     (case payload of YMap p \<Rightarrow> map_of p ''type'' = None | _ \<Rightarrow> True)"
  by (auto simp: consumer_of_table_def split: yval.splits option.splits)

lemma consumers_of_items_names:
  "consumers_of_items xs = Inr cs \<Longrightarrow> map cc_name cs = map fst xs"
  by (induction xs arbitrary: cs rule: consumers_of_items.induct) (auto dest: consumer_of_table_Inr)

lemma consumers_of_items_error:
  "(case consumers_of_items xs of Inl e \<Rightarrow> \<exists>msg. e = ValueError msg | Inr _ \<Rightarrow> True) \<and>
   (isl (consumers_of_items xs) \<longleftrightarrow>
      (\<exists>n p. (n, p) \<in> set xs \<and> (case p of YMap m \<Rightarrow> map_of m ''type'' = None | _ \<Rightarrow> True)))"
proof (induction xs rule: consumers_of_items.induct)
  case (2 name payload items)
  show ?case
  proof (cases "consumer_of_table name payload")
    case (Inl e)
    then show ?thesis
      using consumer_of_table_Inl[OF Inl] consumer_of_table_isl[of name payload] by auto
  next
    case (Inr c)
    then have "\<not> (case payload of YMap m \<Rightarrow> map_of m ''type'' = None | _ \<Rightarrow> True)"
      using consumer_of_table_isl[of name payload] by simp
    with Inr "2.IH" show ?thesis by (auto split: sum.splits)
  qed
qed simp

text \<open>
  C23: the consumers come out in the order of their names. A normalised \<open>consumers\<close>
  table lists one configuration per entry, named by its key, sorted by name; when the
  table's keys are unique (as in a TOML table), so are the consumers' names.
\<close>

theorem normalise_consumers_names:
  assumes "normalise_consumers (YMap d) = Inr cfgs" and "distinct (map fst d)"
  shows "map cc_name cfgs = sort (map fst d) \<and> distinct (map cc_name cfgs)"
proof -
  have "map cc_name cfgs = map fst (sort_key fst d)"
    using assms(1) by (simp add: normalise_consumers_def consumers_of_items_names)
  then have "map cc_name cfgs = sort (map fst d)" by (simp add: map_sort_key)
  then show ?thesis using assms(2) by simp
qed


section \<open>Paths of the configuration\<close>

lemma py_split_char_append: "py_split_char c (a @ c # b) = py_split_char c a @ py_split_char c b"
proof (induction a)
  case (Cons x a)
  then show ?case by (cases "py_split_char c a") (auto split: list.splits)
qed simp

lemma py_split_char_parts: "w \<in> set (py_split_char c s) \<Longrightarrow> c \<notin> set w"
  by (induction s arbitrary: w) (auto split: if_splits list.splits)

lemma path_of_str_no_root: "\<not> py_startswith r ''/'' \<Longrightarrow> \<not> is_absolute (path_of_str r)"
proof
  assume r: "\<not> py_startswith r ''/''" and a: "is_absolute (path_of_str r)"
  let ?parts = "filter (\<lambda>q. q \<noteq> [] \<and> q \<noteq> ''.'') (py_split_char CHR ''/'' r)"
  from r a have "?parts \<noteq> [] \<and> hd ?parts = ''/''" by (simp add: path_of_str_def is_absolute_def)
  then have "''/'' \<in> set ?parts" by (metis hd_in_set)
  then have "''/'' \<in> set (py_split_char CHR ''/'' r)" by simp
  then show False using py_split_char_parts by fastforce
qed

lemma path_of_str_root: "py_startswith a ''/'' \<Longrightarrow> path_of_str a = ''/'' # tl (path_of_str a) \<and> is_absolute (path_of_str a)"
  by (simp add: path_of_str_def is_absolute_def Let_def)

lemma path_of_str_join:
  assumes "py_startswith a ''/''" and "\<not> py_startswith r ''/''"
  shows "path_of_str (a @ ''/'' @ r) = path_of_str a @ path_of_str r"
proof -
  have "py_startswith (a @ ''/'' @ r) ''/''" using assms(1) by (cases a) (simp_all add: py_startswith_def)
  then show ?thesis using assms by (simp add: path_of_str_def Let_def py_split_char_append)
qed

lemma resolve_parts_plain: "''..'' \<notin> set xs \<Longrightarrow> resolve_parts acc xs = rev acc @ xs"
  by (induction xs arbitrary: acc) auto

lemma path_resolve_plain: "is_absolute p \<Longrightarrow> ''..'' \<notin> set p \<Longrightarrow> path_resolve cwd p = p"
  by (cases p) (auto simp: path_resolve_def is_absolute_def resolve_parts_plain)

lemma expand_path_base:
  assumes "is_absolute b" and "''..'' \<notin> set b"
    and "\<not> py_startswith (E raw) ''/''" and "''..'' \<notin> set (path_of_str (E raw))"
  shows "expand_path E cwd raw (Some b) = b @ path_of_str (E raw)"
proof -
  have "is_absolute (b @ path_of_str (E raw))" using assms(1) by (cases b) (simp_all add: is_absolute_def)
  then show ?thesis
    using assms path_of_str_no_root[OF assms(3)] path_resolve_plain
    by (simp add: expand_path_def)
qed

lemma expand_path_join:
  assumes "py_startswith a ''/''" and "''..'' \<notin> set (path_of_str a)"
    and "\<not> py_startswith r ''/''" and "''..'' \<notin> set (path_of_str r)"
  shows "expand_path (\<lambda>s. s) cwd (a @ ''/'' @ r) None = path_of_str a @ path_of_str r"
proof -
  have "is_absolute (path_of_str a @ path_of_str r)" using path_of_str_root[OF assms(1)]
    by (cases "path_of_str a") (simp_all add: is_absolute_def)
  then show ?thesis
    using assms path_resolve_plain path_of_str_join[OF assms(1,3)] by (simp add: expand_path_def)
qed

text \<open>
  A relative path of the configuration lies under its base. A relative
  \<open>capture_dir\<close> (or \<open>database\<close>) without \<open>..\<close> parts is the vault root (or the state
  directory) followed by its parts; a \<open>..\<close> part, which \<open>resolve\<close> removes with the
  part before it, is the only way out of the base.
\<close>

theorem expand_path_under_base:
  assumes "is_absolute b" and "''..'' \<notin> set b"
    and "\<not> py_startswith (E raw) ''/''" and "''..'' \<notin> set (path_of_str (E raw))"
  shows "expand_path E cwd raw (Some b) = b @ path_of_str (E raw)"
  using assms by (rule expand_path_base)

section \<open>Loading\<close>

lemma defaults_wf: "header_wf (defaults home)"
  by (simp add: defaults_def header_wf_def)

lemma py_upper_INFO: "py_upper ''INFO'' = ''INFO''"
  by code_simp

lemma default_parts:
  "path_of_str ''notes'' = [''notes'']" "path_of_str ''.local/state/para-organize'' = [''.local'', ''state'', ''para-organize'']"
  "path_of_str ''capture/raw_capture'' = [''capture'', ''raw_capture'']" "path_of_str ''automations.db'' = [''automations.db'']"
  by code_simp+

text \<open>
  C34: the defaults. Without a configuration file, and with \<open>~\<close> expanding to an
  absolute \<open>home\<close> without \<open>..\<close> parts, the vault is \<open>~/notes\<close>, the capture
  directory \<open>~/notes/capture/raw_capture\<close>, the database
  \<open>~/.local/state/para-organize/automations.db\<close>, the log level \<open>INFO\<close>, and the
  only consumer is the enabled \<open>taskwarrior\<close> consumer.
\<close>

theorem load_config_defaults:
  assumes "py_startswith home ''/''" and "''..'' \<notin> set (path_of_str home)"
  shows "\<exists>cfg. build_config (\<lambda>s. s) cwd home None = Inr cfg \<and>
           ac_vault_root cfg = path_of_str home @ [''notes''] \<and>
           ac_capture_dir cfg = path_of_str home @ [''notes'', ''capture'', ''raw_capture''] \<and>
           ac_state_dir cfg = path_of_str home @ [''.local'', ''state'', ''para-organize''] \<and>
           ac_database_path cfg = path_of_str home @ [''.local'', ''state'', ''para-organize'', ''automations.db''] \<and>
           ac_log_level cfg = ''INFO'' \<and> map cc_name (ac_consumers cfg) = [''taskwarrior''] \<and>
           list_all cc_enabled (ac_consumers cfg)"
proof -
  have abs: "is_absolute (path_of_str home)" using path_of_str_root[OF assms(1)] by simp
  have nr: "\<not> py_startswith ''notes'' ''/''" "\<not> py_startswith ''.local/state/para-organize'' ''/''"
    by (simp_all add: py_startswith_def)
  have vr: "expand_path (\<lambda>s. s) cwd (home @ ''/notes'') None = path_of_str home @ [''notes'']"
    using expand_path_join[OF assms(1,2) nr(1)] default_parts(1) by simp
  have sd: "expand_path (\<lambda>s. s) cwd (home @ ''/.local/state/para-organize'') None
              = path_of_str home @ [''.local'', ''state'', ''para-organize'']"
    using expand_path_join[OF assms(1,2) nr(2)] default_parts(2) by simp
  have cd: "expand_path (\<lambda>s. s) cwd ''capture/raw_capture'' (Some (path_of_str home @ [''notes'']))
              = path_of_str home @ [''notes'', ''capture'', ''raw_capture'']"
    using expand_path_base[of "path_of_str home @ [''notes'']" "\<lambda>s. s" "''capture/raw_capture''" cwd]
      abs assms(2) default_parts(3)
    by (cases "path_of_str home") (simp_all add: is_absolute_def py_startswith_def)
  have db: "expand_path (\<lambda>s. s) cwd ''automations.db'' (Some (path_of_str home @ [''.local'', ''state'', ''para-organize'']))
              = path_of_str home @ [''.local'', ''state'', ''para-organize'', ''automations.db'']"
    using expand_path_base[of "path_of_str home @ [''.local'', ''state'', ''para-organize'']" "\<lambda>s. s"
        "''automations.db''" cwd]
      abs assms(2) default_parts(4)
    by (cases "path_of_str home") (simp_all add: is_absolute_def py_startswith_def)
  show ?thesis
    by (simp add: build_config_def defaults_def Let_def py_getitem_def py_dict_get_def vr sd cd db
        py_upper_INFO normalise_consumers_def consumer_of_table_def py_truthy_def)
qed

section \<open>State directories\<close>

lemma map_of_dir_append: "map_of fs q = Some None \<Longrightarrow> map_of (fs @ e) q = Some None"
  by simp

lemma mkdir_exist_ok_ext:
  "mkdir_exist_ok fs p = Inr fs' \<Longrightarrow> (\<exists>e. fs' = fs @ e) \<and> map_of fs' p = Some None"
  by (auto simp: mkdir_exist_ok_def map_add_def split: option.splits if_splits)

text \<open>
  C36: \<open>ensure_state_dirs\<close> leaves the directories the automation writes to. When it
  returns, the file system is the old one with entries appended (no entry changed), and
  the state directory, its \<open>backups\<close> directory and the database's directory exist as
  directories.
\<close>

theorem ensure_state_dirs_creates:
  assumes "ensure_state_dirs cfg fs = Inr fs'" and "2 \<le> length (ac_state_dir cfg)"
  shows "(\<exists>e. fs' = fs @ e) \<and> map_of fs' (ac_state_dir cfg) = Some None \<and>
         map_of fs' (ac_state_dir cfg @ [''backups'']) = Some None \<and>
         (2 \<le> length (path_parent (ac_database_path cfg)) \<longrightarrow>
            map_of fs' (path_parent (ac_database_path cfg)) = Some None)"
proof -
  from assms(1) obtain fs1 fs2 where
    s1: "mkdir_parents fs (ac_state_dir cfg) = Inr fs1" and
    s2: "mkdir_parents fs1 (path_parent (ac_database_path cfg)) = Inr fs2" and
    s3: "mkdir_exist_ok fs2 (ac_state_dir cfg @ [''backups'']) = Inr fs'"
    by (auto simp: ensure_state_dirs_def)
  obtain e1 where e1: "fs1 = fs @ e1" and d1: "map_of fs1 (ac_state_dir cfg) = Some None"
    using mkdir_parents_ext[OF s1 assms(2)] by blast
  obtain e3 where e3: "fs' = fs2 @ e3" and d3: "map_of fs' (ac_state_dir cfg @ [''backups'']) = Some None"
    using mkdir_exist_ok_ext[OF s3] by blast
  have e2: "\<exists>e. fs2 = fs1 @ e" using s2 by (auto simp: mkdir_parents_def dest: mkdirs_ext)
  then obtain e2 where e2: "fs2 = fs1 @ e2" ..
  have db: "map_of fs' (path_parent (ac_database_path cfg)) = Some None"
    if "2 \<le> length (path_parent (ac_database_path cfg))"
    using mkdir_parents_ext[OF s2 that] e3 map_of_dir_append by auto
  have "map_of fs' (ac_state_dir cfg) = Some None"
    using map_of_dir_append[OF d1, of "e2 @ e3"] e2 e3 by simp
  then show ?thesis using e1 e2 e3 d3 db by auto
qed

section \<open>The user's file\<close>

text \<open>
  C37: a \<open>vault\<close> entry that is not a table. When the user's file sets \<open>vault\<close> to a
  value that is not a table, the merge keeps that value and \<open>data["vault"]["root"]\<close>
  raises \<open>TypeError\<close>: no configuration is built.
\<close>

theorem build_config_vault_not_table:
  assumes "distinct (map fst ov)" and "map_of ov ''vault'' = Some v"
    and "case v of YMap _ \<Rightarrow> False | _ \<Rightarrow> True"
  shows "build_config E cwd home (Some ov) = Inl (TypeError ''object is not subscriptable'')"
proof -
  have "map_of (deep_merge (defaults home) ov) ''vault'' = Some v"
    using deep_merge_map_of[OF assms(1), of "defaults home" "''vault''"] assms(2,3)
    by (auto simp: defaults_def split: yval.splits)
  then show ?thesis using assms(3)
    by (auto simp: build_config_def Let_def py_getitem_def split: yval.splits)
qed

lemma config_consumers_order:
  assumes "case override of None \<Rightarrow> True | Some ov \<Rightarrow> header_wf ov"
    and "build_config E cwd home override = Inr cfg"
  shows "sorted (map cc_name (ac_consumers cfg)) \<and> distinct (map cc_name (ac_consumers cfg))"
proof -
  let ?data = "case override of None \<Rightarrow> defaults home | Some ov \<Rightarrow> deep_merge (defaults home) ov"
  have wf: "header_wf ?data"
    using assms(1) defaults_wf deep_merge_header_wf[OF defaults_wf] by (cases override) simp_all
  from assms(2) obtain c where
    c: "py_dict_get (YMap ?data) ''consumers'' (YMap []) = Inr c" and n: "normalise_consumers c = Inr (ac_consumers cfg)"
    by (auto simp: build_config_def Let_def)
  have "yval_wf c"
    using c header_wf_lookup[OF wf] by (auto simp: py_dict_get_def header_wf_def split: option.splits)
  moreover obtain d where d: "c = YMap d"
    using n by (cases c) (auto simp: normalise_consumers_def)
  ultimately have "distinct (map fst d)" by (simp add: header_wf_def)
  moreover have "map cc_name (ac_consumers cfg) = sort (map fst d)"
    using n d by (simp add: normalise_consumers_def consumers_of_items_names map_sort_key)
  ultimately show ?thesis by simp
qed

text \<open>
  C38: configuration and dispatch order. For any user file whose tables have unique keys,
  the consumers of a loaded configuration come sorted by name with no name twice, so
  \<open>cli.main\<close> runs them in name order.
\<close>

theorem build_config_consumers_sorted:
  assumes "header_wf ov" and "build_config E cwd home (Some ov) = Inr cfg"
  shows "sorted (map cc_name (ac_consumers cfg)) \<and> distinct (map cc_name (ac_consumers cfg))"
  using config_consumers_order[where override = "Some ov"] assms by simp

end
