(* ===== verification/CaptureQuery.thy ===== *)
theory CaptureQuery
  imports Notes
begin

text \<open>
  \<open>src/scripts/capture_query.py\<close>: the stand-alone query tool over the raw capture
  notes. A note is read with its YAML header (\<open>read_note\<close>, \<open>yaml_load\<close>), the
  command-line options become a \<open>Filters\<close> value (\<open>build_filters\<close>, with the
  \<open>--location\<close>/\<open>--metadata\<close> expansion of \<open>parse_args\<close>), every note is tested
  against it (\<open>matches_filters\<close>, \<open>get_by_path\<close>), and \<open>main\<close> collects the
  matches, stopping at \<open>--limit\<close>, and prints them (\<open>output_notes\<close>). PyYAML is a
  library the script only calls: \<open>yaml.load\<close> with \<open>FrontmatterLoader\<close> is the
  parameter \<open>Y\<close>, which returns the document or the message of the \<open>yaml.YAMLError\<close>
  it raises; \<open>parse_value\<close> is built from it, and \<open>json.dumps\<close> is the parameter
  \<open>J\<close>. Notes are
  read lazily, as the generator \<open>iter_notes\<close> reads them, so a note after the limit
  is never read.
\<close>

section \<open>Errors and text\<close>

datatype query_error =
    ArgumentTypeError string
  | FrontmatterValueError string  \<comment> \<open>the \<open>ValueError\<close> of \<open>yaml_load\<close>\<close>
  | QueryYAMLError string  \<comment> \<open>the \<open>yaml.YAMLError\<close> of \<open>yaml.load\<close> in \<open>yaml_load\<close>\<close>
  | UnsupportedFormat string  \<comment> \<open>the \<open>ValueError\<close> of \<open>output_notes\<close>\<close>

fun splitlines_keep_aux :: "string \<Rightarrow> string \<Rightarrow> string list" where
  "splitlines_keep_aux cur [] = (if cur = [] then [] else [cur])"
| "splitlines_keep_aux cur (c # cs) =
     (if c = CHR 0x0D \<and> cs \<noteq> [] \<and> hd cs = CHR 0x0A then (cur @ [c, CHR 0x0A]) # splitlines_keep_aux [] (tl cs)
      else if py_is_linebreak c then (cur @ [c]) # splitlines_keep_aux [] cs
      else splitlines_keep_aux (cur @ [c]) cs)"

definition splitlines_keep :: "string \<Rightarrow> string list" where
  \<comment> \<open>\<open>s.splitlines(keepends=True)\<close>\<close>
  "splitlines_keep s = splitlines_keep_aux [] s"

definition py_rstrip_chars :: "char \<Rightarrow> string \<Rightarrow> string" where
  \<comment> \<open>\<open>s.rstrip(c)\<close> for a one-character argument\<close>
  "py_rstrip_chars c s = rev (dropWhile (\<lambda>x. x = c) (rev s))"

fun py_in :: "string \<Rightarrow> string \<Rightarrow> bool" where
  \<comment> \<open>\<open>needle in haystack\<close> for strings\<close>
  "py_in needle [] \<longleftrightarrow> needle = []"
| "py_in needle (c # cs) \<longleftrightarrow> py_startswith (c # cs) needle \<or> py_in needle cs"

definition or_empty :: "'a list option \<Rightarrow> 'a list" where
  \<comment> \<open>\<open>xs or []\<close> for an option of \<open>action="append"\<close>\<close>
  "or_empty xs = (case xs of None \<Rightarrow> [] | Some ys \<Rightarrow> ys)"

section \<open>Reading notes\<close>

definition cq_yaml_load :: "safe_load \<Rightarrow> string \<Rightarrow> query_error + header" where
  \<comment> \<open>\<open>yaml_load(text)\<close>, with \<open>Y\<close> the outcome of \<open>yaml.load(text, Loader=FrontmatterLoader)\<close>\<close>
  "cq_yaml_load Y text =
     (if py_strip text = [] then Inr []
      else (case Y text of
              Inl msg \<Rightarrow> Inl (QueryYAMLError msg)
            | Inr YNone \<Rightarrow> Inr []
            | Inr (YMap d) \<Rightarrow> Inr d
            | Inr _ \<Rightarrow> Inl (FrontmatterValueError ''Frontmatter must parse to a mapping'')))"

definition closing_index :: "string list \<Rightarrow> nat option" where
  \<comment> \<open>the \<open>for idx in range(1, len(lines))\<close> search for the closing \<open>---\<close>\<close>
  "closing_index lines =
     (let k = length (takeWhile (\<lambda>l. py_strip l \<noteq> ''---'') (drop 1 lines))
      in if Suc k < length lines then Some (Suc k) else None)"

definition cq_read_note :: "safe_load \<Rightarrow> path \<Rightarrow> string \<Rightarrow> query_error + note_record" where
  \<comment> \<open>\<open>read_note(path)\<close> after \<open>path.read_text()\<close> returned \<open>raw\<close>\<close>
  "cq_read_note Y p raw =
     (let plain = \<lparr>nr_path = p, nr_frontmatter = [], nr_content = raw, nr_raw_text = raw\<rparr>;
          lines = splitlines_keep raw
      in if py_startswith raw ''---'' \<and> lines \<noteq> [] \<and> py_strip (hd lines) = ''---'' then
           (case closing_index lines of
              None \<Rightarrow> Inr plain
            | Some idx \<Rightarrow>
                sbind (cq_yaml_load Y (concat (take (idx - 1) (drop 1 lines)))) (\<lambda>fm.
                  Inr (plain\<lparr>nr_frontmatter := fm, nr_content := concat (drop (Suc idx) lines)\<rparr>)))
         else Inr plain)"

section \<open>Options and filters\<close>

definition ensure_list :: "yval \<Rightarrow> yval list" where
  "ensure_list v = (case v of YNone \<Rightarrow> [] | YList xs \<Rightarrow> xs | _ \<Rightarrow> [v])"

definition normalize_str_list :: "string list option \<Rightarrow> string list" where
  \<comment> \<open>the values of an \<open>action="append"\<close> option are strings already, so \<open>str\<close> keeps them\<close>
  "normalize_str_list values = (case values of None \<Rightarrow> [] | Some vs \<Rightarrow> if vs = [] then [] else vs)"

definition parse_key_value :: "string \<Rightarrow> query_error + string \<times> string" where
  "parse_key_value expr =
     (if CHR ''='' \<notin> set expr then Inl (ArgumentTypeError (''Expected KEY=VALUE, got: '' @ expr))
      else (case py_split1 CHR ''='' expr of
              (k, v) \<Rightarrow>
                (let key = py_strip k; value = py_strip v
                 in if key = [] then Inl (ArgumentTypeError ''Filter key may not be empty'')
                    else Inr (key, value))))"

fun get_by_path :: "yval \<Rightarrow> string list \<Rightarrow> yval" where
  "get_by_path current [] = current"
| "get_by_path current (segment # path) =
     (case current of
        YMap d \<Rightarrow> (case map_of d segment of Some v \<Rightarrow> get_by_path v path | None \<Rightarrow> YNone)
      | _ \<Rightarrow> YNone)"

record filters =
  f_any_tags :: "string list"
  f_require_all_tags :: bool
  f_timestamps :: "string list"
  f_created_dates :: "string list"
  f_last_edited_dates :: "string list"
  f_capture_ids :: "string list"
  f_processing_statuses :: "string list"
  f_modalities :: "string list"
  f_require_all_modalities :: bool
  f_contexts :: "string list"
  f_require_all_contexts :: bool
  f_sources :: "string list"
  f_require_all_sources :: bool
  f_ids :: "string list"
  f_aliases :: "string list"
  f_where_clauses :: "(string list \<times> yval) list"
  f_contains :: "string list"
  f_case_sensitive :: bool
  f_limit :: "int option"

record query_args =
  \<comment> \<open>the namespace of \<open>parse_args\<close>; \<open>--location\<close>, \<open>--metadata\<close> and \<open>--where\<close>
     hold their raw \<open>KEY=VALUE\<close> texts, converted by \<open>parse_key_value\<close>\<close>
  a_root :: path
  a_capture_dir :: path
  a_timestamp :: "string list option"
  a_created_date :: "string list option"
  a_last_edited_date :: "string list option"
  a_capture_id :: "string list option"
  a_processing_status :: "string list option"
  a_id :: "string list option"
  a_alias :: "string list option"
  a_tag :: "string list option"
  a_require_all_tags :: bool
  a_modality :: "string list option"
  a_require_all_modalities :: bool
  a_context :: "string list option"
  a_require_all_contexts :: bool
  a_source :: "string list option"
  a_require_all_sources :: bool
  a_location :: "string list option"
  a_metadata :: "string list option"
  a_where :: "string list option"
  a_search :: "string list option"
  a_case_sensitive :: bool
  a_format :: string
  a_limit :: "int option"

fun parse_pairs :: "string list \<Rightarrow> query_error + (string \<times> string) list" where
  \<comment> \<open>\<open>type=parse_key_value\<close> on every occurrence of an option\<close>
  "parse_pairs [] = Inr []"
| "parse_pairs (e # es) = sbind (parse_key_value e) (\<lambda>kv. sbind (parse_pairs es) (\<lambda>kvs. Inr (kv # kvs)))"

definition where_pairs :: "query_args \<Rightarrow> query_error + (string \<times> string) list" where
  \<comment> \<open>\<open>args.where\<close> at the end of \<open>parse_args\<close>: \<open>--where\<close>, then \<open>--location\<close>
     as \<open>location.<key>\<close>, then \<open>--metadata\<close> as \<open>metadata.<key>\<close>\<close>
  "where_pairs args =
     sbind (parse_pairs (or_empty (a_where args))) (\<lambda>ws.
     sbind (parse_pairs (or_empty (a_location args))) (\<lambda>ls.
     sbind (parse_pairs (or_empty (a_metadata args))) (\<lambda>ms.
       Inr (ws @ map (\<lambda>(k, v). (''location.'' @ k, v)) ls @ map (\<lambda>(k, v). (''metadata.'' @ k, v)) ms))))"

definition parse_value :: "safe_load \<Rightarrow> string \<Rightarrow> yval" where
  \<comment> \<open>\<open>parse_value(value)\<close>: the loaded scalar, or the text itself when it does not load\<close>
  "parse_value Y value = (case Y value of Inl _ \<Rightarrow> YStr value | Inr loaded \<Rightarrow> loaded)"

definition build_filters :: "(string \<Rightarrow> yval) \<Rightarrow> query_args \<Rightarrow> (string \<times> string) list \<Rightarrow> filters" where
  \<comment> \<open>\<open>build_filters(args)\<close>, with \<open>P\<close> the scalar that \<open>parse_value\<close> loads\<close>
  "build_filters P args wh =
     \<lparr>f_any_tags = normalize_str_list (a_tag args),
      f_require_all_tags = a_require_all_tags args,
      f_timestamps = normalize_str_list (a_timestamp args),
      f_created_dates = normalize_str_list (a_created_date args),
      f_last_edited_dates = normalize_str_list (a_last_edited_date args),
      f_capture_ids = normalize_str_list (a_capture_id args),
      f_processing_statuses = normalize_str_list (a_processing_status args),
      f_modalities = normalize_str_list (a_modality args),
      f_require_all_modalities = a_require_all_modalities args,
      f_contexts = normalize_str_list (a_context args),
      f_require_all_contexts = a_require_all_contexts args,
      f_sources = normalize_str_list (a_source args),
      f_require_all_sources = a_require_all_sources args,
      f_ids = normalize_str_list (a_id args),
      f_aliases = normalize_str_list (a_alias args),
      f_where_clauses = map (\<lambda>(key, value). (py_split_char CHR ''.'' key, P value)) wh,
      f_contains = normalize_str_list (a_search args),
      f_case_sensitive = a_case_sensitive args,
      f_limit = a_limit args\<rparr>"

section \<open>Matching\<close>

definition str_field :: "header \<Rightarrow> string \<Rightarrow> string" where
  \<comment> \<open>\<open>str(fm.get(key, ""))\<close>\<close>
  "str_field fm key = py_str (case map_of fm key of None \<Rightarrow> YStr [] | Some v \<Rightarrow> v)"

definition str_values :: "header \<Rightarrow> string \<Rightarrow> string list" where
  \<comment> \<open>\<open>{str(value) for value in ensure_list(fm.get(key))}\<close>\<close>
  "str_values fm key = map py_str (ensure_list (header_get fm key))"

definition exact_ok :: "string list \<Rightarrow> string \<Rightarrow> bool" where
  \<comment> \<open>the \<open>id\<close>, \<open>capture_id\<close>, \<open>timestamp\<close>, date and status filters\<close>
  "exact_ok wanted v = (if wanted = [] then True else v \<in> set wanted)"

definition values_ok :: "bool \<Rightarrow> string list \<Rightarrow> string list \<Rightarrow> bool" where
  \<comment> \<open>the alias, tag, modality, context and source filters: any value, or all with \<open>--require-all-*\<close>\<close>
  "values_ok require_all wanted have =
     (if wanted = [] then True
      else if require_all then list_all (\<lambda>w. w \<in> set have) wanted
      else list_ex (\<lambda>w. w \<in> set have) wanted)"

definition where_ok :: "header \<Rightarrow> string list \<times> yval \<Rightarrow> bool" where
  \<comment> \<open>one iteration of \<open>for path_segments, expected in filters.where_clauses\<close>\<close>
  "where_ok fm clause =
     (case clause of
        (path_segments, expected) \<Rightarrow>
          (case get_by_path (YMap fm) path_segments of
             YNone \<Rightarrow> False
           | YList xs \<Rightarrow> py_str expected \<in> set (map py_str xs)
           | actual \<Rightarrow> py_str actual = py_str expected))"

definition contains_ok :: "filters \<Rightarrow> string \<Rightarrow> bool" where
  \<comment> \<open>the \<open>--search\<close> filter over the note's content\<close>
  "contains_ok f content =
     (if f_contains f = [] then True
      else (let haystack = (if f_case_sensitive f then content else py_lower content)
            in list_all (\<lambda>needle. py_in (if f_case_sensitive f then needle else py_lower needle) haystack)
                 (f_contains f)))"

definition matches_filters :: "note_record \<Rightarrow> filters \<Rightarrow> bool" where
  "matches_filters note f =
     (let fm = nr_frontmatter note
      in exact_ok (f_ids f) (str_field fm ''id'') \<and>
         exact_ok (f_capture_ids f) (str_field fm ''capture_id'') \<and>
         exact_ok (f_timestamps f) (str_field fm ''timestamp'') \<and>
         exact_ok (f_created_dates f) (str_field fm ''created_date'') \<and>
         exact_ok (f_last_edited_dates f) (str_field fm ''last_edited_date'') \<and>
         exact_ok (f_processing_statuses f) (str_field fm ''processing_status'') \<and>
         values_ok False (f_aliases f) (str_values fm ''aliases'') \<and>
         values_ok (f_require_all_tags f) (f_any_tags f) (str_values fm ''tags'') \<and>
         values_ok (f_require_all_modalities f) (f_modalities f) (str_values fm ''modalities'') \<and>
         values_ok (f_require_all_contexts f) (f_contexts f) (str_values fm ''context'') \<and>
         values_ok (f_require_all_sources f) (f_sources f) (str_values fm ''sources'') \<and>
         list_all (where_ok fm) (f_where_clauses f) \<and>
         contains_ok f (nr_content note))"

section \<open>The query\<close>

definition limit_reached :: "int option \<Rightarrow> nat \<Rightarrow> bool" where
  \<comment> \<open>\<open>filters.limit and len(matches) >= filters.limit\<close>\<close>
  "limit_reached lim n = (case lim of None \<Rightarrow> False | Some l \<Rightarrow> l \<noteq> 0 \<and> l \<le> int n)"

fun collect_matches ::
  "safe_load \<Rightarrow> filters \<Rightarrow> note_record list \<Rightarrow> (path \<times> string) list \<Rightarrow> query_error + note_record list" where
  \<comment> \<open>the \<open>for note in iter_notes(capture_dir)\<close> loop of \<open>main\<close>, reading each file when it is reached\<close>
  "collect_matches Y f matches [] = Inr matches"
| "collect_matches Y f matches ((p, raw) # files) =
     sbind (cq_read_note Y p raw) (\<lambda>note.
       if matches_filters note f then
         (let matches' = matches @ [note]
          in if limit_reached (f_limit f) (length matches') then Inr matches'
             else collect_matches Y f matches' files)
       else collect_matches Y f matches files)"

definition cq_files :: "fs \<Rightarrow> path \<Rightarrow> (path \<times> string) list" where
  \<comment> \<open>\<open>sorted(capture_dir.rglob("*.md"))\<close>, the files only\<close>
  "cq_files fs dir =
     concat (map (\<lambda>(p, c). case c of None \<Rightarrow> [] | Some raw \<Rightarrow> [(p, raw)]) (sort_key fst (rglob_md fs dir)))"

fun output_loop ::
  "(note_record \<Rightarrow> string) \<Rightarrow> string \<Rightarrow> nat \<Rightarrow> nat \<Rightarrow> note_record list \<Rightarrow> query_error + string" where
  \<comment> \<open>\<open>output_notes\<close>: \<open>for idx, note in enumerate(notes)\<close>, with \<open>n = len(notes)\<close>\<close>
  "output_loop J fmt n idx [] = Inr []"
| "output_loop J fmt n idx (note # notes) =
     (let sep = (if idx \<noteq> n - 1 then ''\<newline>'' else [])
      in sbind (if fmt = ''markdown'' then Inr (py_rstrip_chars CHR ''\<newline>'' (nr_raw_text note) @ ''\<newline>'' @ sep)
                else if fmt = ''content'' then Inr (py_rstrip_chars CHR ''\<newline>'' (nr_content note) @ ''\<newline>'' @ sep)
                else if fmt = ''paths'' then Inr (path_str (nr_path note) @ ''\<newline>'')
                else if fmt = ''json'' then Inr (J note @ ''\<newline>'')
                else Inl (UnsupportedFormat (''Unsupported format: '' @ fmt)))
           (\<lambda>out. sbind (output_loop J fmt n (Suc idx) notes) (\<lambda>rest. Inr (out @ rest))))"

definition output_notes :: "(note_record \<Rightarrow> string) \<Rightarrow> note_record list \<Rightarrow> string \<Rightarrow> query_error + string" where
  "output_notes J notes fmt = output_loop J fmt (length notes) 0 notes"

datatype query_result =
    QueryExit nat string string  \<comment> \<open>exit status, standard output, standard error\<close>
  | QueryUsageError  \<comment> \<open>\<open>argparse\<close> rejected an option and exited with status 2\<close>
  | QueryCrash query_error  \<comment> \<open>an exception escaped \<open>main\<close>\<close>

definition cq_main ::
  "safe_load \<Rightarrow> (note_record \<Rightarrow> string) \<Rightarrow> path \<Rightarrow> fs \<Rightarrow> query_args \<Rightarrow> query_result" where
  \<comment> \<open>\<open>main(argv)\<close> run in the working directory \<open>cwd\<close>\<close>
  "cq_main Y J cwd fs args =
     (case where_pairs args of
        Inl _ \<Rightarrow> QueryUsageError
      | Inr wh \<Rightarrow>
          (let capture_dir = (if is_absolute (a_capture_dir args) then a_capture_dir args
                              else path_resolve cwd (a_root args @ a_capture_dir args));
               filters = build_filters (parse_value Y) args wh
           in if \<not> path_exists fs capture_dir
              then QueryExit 2 [] (''Error: Capture directory not found: '' @ path_str capture_dir @ ''\<newline>'')
              else (case collect_matches Y filters [] (cq_files fs capture_dir) of
                      Inl e \<Rightarrow> QueryCrash e
                    | Inr matches \<Rightarrow>
                        (case output_notes J matches (a_format args) of
                           Inl e \<Rightarrow> QueryCrash e
                         | Inr out \<Rightarrow> QueryExit 0 out []))))"

section \<open>Reference behaviour\<close>

text \<open>
  What a query returns, stated without the loop: the matching ns in file order, cut at
  a positive \<open>--limit\<close>. The loop tests the limit only after it appends a match and tests
  it as \<open>len(matches) >= limit\<close>, so \<open>--limit 0\<close> is no limit and a negative limit keeps
  exactly the first match.
\<close>

definition query_spec :: "int option \<Rightarrow> 'a list \<Rightarrow> 'a list" where
  "query_spec lim ms =
     (case lim of
        None \<Rightarrow> ms
      | Some l \<Rightarrow> if l = 0 then ms else if 0 < l then take (nat l) ms else take 1 ms)"

fun stop_at :: "(nat \<Rightarrow> bool) \<Rightarrow> nat \<Rightarrow> 'a list \<Rightarrow> 'a list" where
  \<comment> \<open>keep elements until the count after one of them satisfies the stop test\<close>
  "stop_at R n [] = []"
| "stop_at R n (x # xs) = (if R (Suc n) then [x] else x # stop_at R (Suc n) xs)"

section \<open>Properties of the loop\<close>

lemma stop_at_never: "(\<And>m. \<not> R m) \<Longrightarrow> stop_at R n xs = xs"
  by (induction xs arbitrary: n) auto

lemma stop_at_always: "(\<And>m. R m) \<Longrightarrow> stop_at R n xs = take 1 xs"
  by (cases xs) auto

lemma stop_at_bound: "n < nat l \<Longrightarrow> stop_at (\<lambda>m. l \<le> int m) n xs = take (nat l - n) xs"
proof (induction xs arbitrary: n)
  case (Cons x xs)
  show ?case
  proof (cases "l \<le> int (Suc n)")
    case True
    with Cons.prems have "nat l - n = 1" by linarith
    with True show ?thesis by simp
  next
    case False
    then have "Suc n < nat l" by linarith
    then have "nat l - n = Suc (nat l - Suc n)" by linarith
    with False Cons.IH[of "Suc n"] \<open>Suc n < nat l\<close> show ?thesis by simp
  qed
qed simp

lemma stop_at_limit: "stop_at (limit_reached lim) 0 xs = query_spec lim xs"
proof (cases lim)
  case None
  then show ?thesis by (simp add: query_spec_def limit_reached_def stop_at_never)
next
  case (Some l)
  consider "l = 0" | "0 < l" | "l < 0" by linarith
  then show ?thesis
  proof cases
    case 1
    then show ?thesis using Some by (simp add: query_spec_def limit_reached_def stop_at_never)
  next
    case 2
    then have "limit_reached lim = (\<lambda>m. l \<le> int m)"
      using Some by (auto simp: limit_reached_def fun_eq_iff)
    then show ?thesis using Some 2 stop_at_bound[of 0 l xs] by (simp add: query_spec_def)
  next
    case 3
    then have "\<And>m. limit_reached lim m" using Some by (simp add: limit_reached_def)
    then show ?thesis using Some 3 by (simp add: query_spec_def stop_at_always)
  qed
qed

lemma collect_matches_reads:
  assumes "map (\<lambda>(p, raw). cq_read_note Y p raw) files = map Inr ns"
  shows "collect_matches Y f acc files =
           Inr (acc @ stop_at (limit_reached (f_limit f)) (length acc) (filter (\<lambda>n. matches_filters n f) ns))"
  using assms
proof (induction files arbitrary: ns acc)
  case (Cons pr files)
  obtain p raw where pr: "pr = (p, raw)" by (cases pr) auto
  from Cons.prems obtain nt ns' where
    n: "ns = nt # ns'" and r: "cq_read_note Y p raw = Inr nt"
    and rs: "map (\<lambda>(p, raw). cq_read_note Y p raw) files = map Inr ns'"
    using pr by (cases ns) auto
  show ?case using Cons.IH[OF rs] n r pr by (simp add: Let_def)
qed simp

lemma collect_matches_prefix:
  "collect_matches Y f acc files = Inr ms \<Longrightarrow> \<exists>ys. ms = acc @ ys"
proof (induction Y f acc files rule: collect_matches.induct)
  case (2 Y f matches p raw files)
  then show ?case by (fastforce simp: Let_def split: if_splits)
qed simp

lemma collect_matches_stops:
  assumes "collect_matches Y f acc files = Inr ms" and "limit_reached (f_limit f) (length ms)"
    and "length acc < length ms"
  shows "collect_matches Y f acc (files @ later) = Inr ms"
  using assms
proof (induction files arbitrary: acc)
  case (Cons pr files)
  obtain p raw where pr: "pr = (p, raw)" by (cases pr) auto
  from Cons.prems(1) pr obtain nt where r: "cq_read_note Y p raw = Inr nt"
    by (cases "cq_read_note Y p raw") auto
  show ?case
  proof (cases "matches_filters nt f")
    case True
    let ?acc = "acc @ [nt]"
    show ?thesis
    proof (cases "limit_reached (f_limit f) (length ?acc)")
      case True
      with \<open>matches_filters nt f\<close> Cons.prems(1) r pr show ?thesis by auto
    next
      case False
      with \<open>matches_filters nt f\<close> Cons.prems(1) r pr
      have c: "collect_matches Y f ?acc files = Inr ms" by simp
      have "length ?acc < length ms"
      proof (rule ccontr)
        assume "\<not> length ?acc < length ms"
        moreover obtain ys where "ms = ?acc @ ys" using collect_matches_prefix[OF c] by blast
        ultimately have "ms = ?acc" by simp
        with False Cons.prems(2) show False by simp
      qed
      with Cons.IH[OF c Cons.prems(2)] False \<open>matches_filters nt f\<close> r pr show ?thesis by simp
    qed
  next
    case False
    with Cons.prems r pr Cons.IH[of acc] show ?thesis by simp
  qed
qed simp

text \<open>
  C26: the query loop computes the reference behaviour. When every file reads, \<open>main\<close>
  collects the ns that pass the filters, in file order, cut as \<open>query_spec\<close> says:
  at a positive limit, not at all for no limit or \<open>--limit 0\<close>, and after one match for a
  negative limit.
\<close>

theorem query_collects_matches:
  assumes "map (\<lambda>(p, raw). cq_read_note Y p raw) files = map Inr ns"
  shows "collect_matches Y f [] files = Inr (query_spec (f_limit f) (filter (\<lambda>n. matches_filters n f) ns))"
  using collect_matches_reads[OF assms, of f "[]"] by (simp add: stop_at_limit)

text \<open>
  C27: reading stops at the limit. Once the matches collected reach the limit, the files
  after them are never read: appending further files, even ones whose header raises, leaves
  the result unchanged.
\<close>

theorem query_stops_at_limit:
  assumes "collect_matches Y f [] files = Inr ms" and "ms \<noteq> []"
    and "limit_reached (f_limit f) (length ms)"
  shows "collect_matches Y f [] (files @ later) = Inr ms"
  using collect_matches_stops[OF assms(1) assms(3)] assms(2) by simp

section \<open>Properties of the options\<close>

lemma py_split1_at: "c \<notin> set k \<Longrightarrow> py_split1 c (k @ c # v) = (k, v)"
  by (induction k) (auto simp: py_split1_def)

text \<open>
  C28: \<open>KEY=VALUE\<close> round trip. A key without \<open>=\<close> and without surrounding
  whitespace, joined to a value without surrounding whitespace by \<open>=\<close>, is parsed back
  into that key and value; the value may itself contain \<open>=\<close>.
\<close>

theorem parse_key_value_roundtrip:
  assumes "key \<noteq> []" and "CHR ''='' \<notin> set key" and "py_strip key = key" and "py_strip value = value"
  shows "parse_key_value (key @ ''='' @ value) = Inr (key, value)"
  using assms by (simp add: parse_key_value_def py_split1_at)

text \<open>
  C29: the errors of \<open>parse_key_value\<close>. It raises \<open>ArgumentTypeError\<close> exactly for a
  text without \<open>=\<close> (naming the text) and for a text whose part before the first \<open>=\<close>
  is blank.
\<close>

theorem parse_key_value_errors:
  "parse_key_value expr = Inl err \<longleftrightarrow>
     (if CHR ''='' \<in> set expr
      then py_strip (takeWhile (\<lambda>c. c \<noteq> CHR ''='') expr) = [] \<and>
           err = ArgumentTypeError ''Filter key may not be empty''
      else err = ArgumentTypeError (''Expected KEY=VALUE, got: '' @ expr))"
  by (auto simp: parse_key_value_def py_split1_def Let_def)


section \<open>Relaxing the filters\<close>

lemma values_ok_any: "values_ok True wanted have \<Longrightarrow> values_ok False wanted have"
  by (cases wanted) (simp_all add: values_ok_def)

lemma py_startswith_map: "py_startswith s p \<Longrightarrow> py_startswith (map g s) (map g p)"
  by (simp add: py_startswith_def take_map)

lemma py_in_map: "py_in needle hay \<Longrightarrow> py_in (map g needle) (map g hay)"
  by (induction hay) (auto dest: py_startswith_map)

lemma contains_ok_fold:
  "contains_ok f c \<Longrightarrow> f_contains g = f_contains f \<Longrightarrow> \<not> f_case_sensitive g \<Longrightarrow> contains_ok g c"
  by (cases "f_case_sensitive f")
     (auto simp: contains_ok_def list_all_iff py_lower_def intro: py_in_map)

lemma where_subset: "list_all P ws \<Longrightarrow> set ws' \<subseteq> set ws \<Longrightarrow> list_all P ws'"
  by (auto simp: list_all_iff)

text \<open>
  C32: relaxing a query keeps its matches. A note that passes the filters still passes
  when some \<open>--where\<close> clauses are dropped, when every \<open>--require-all-*\<close> switch is
  turned off, and when \<open>--search\<close> ignores case.
\<close>

theorem matches_filters_relax:
  assumes "matches_filters nt f" and "set ws \<subseteq> set (f_where_clauses f)"
  shows "matches_filters nt (f\<lparr>f_require_all_tags := False, f_require_all_modalities := False,
           f_require_all_contexts := False, f_require_all_sources := False,
           f_where_clauses := ws, f_case_sensitive := False\<rparr>)"
proof -
  have va: "values_ok b w h \<Longrightarrow> values_ok False w h" for b w h
    by (cases b) (auto intro: values_ok_any)
  have c0: "contains_ok f (nr_content nt)" using assms(1) by (simp add: matches_filters_def Let_def)
  have c: "contains_ok (f\<lparr>f_require_all_tags := False, f_require_all_modalities := False,
           f_require_all_contexts := False, f_require_all_sources := False,
           f_where_clauses := ws, f_case_sensitive := False\<rparr>) (nr_content nt)"
    by (rule contains_ok_fold[OF c0]) simp_all
  show ?thesis
    using assms c where_subset[OF _ assms(2), of "where_ok (nr_frontmatter nt)"]
    by (simp add: matches_filters_def Let_def) (meson va)
qed

section \<open>Output\<close>

lemma output_loop_text:
  assumes "fmt \<in> {''markdown'', ''content''}" and "n = idx + length ns"
  shows "output_loop J fmt n idx ns =
           Inr (py_join ''\<newline>''
                  (map (\<lambda>nt. py_rstrip_chars CHR ''\<newline>'' ((if fmt = ''markdown'' then nr_raw_text else nr_content) nt)
                             @ ''\<newline>'') ns))"
  using assms(2)
proof (induction ns arbitrary: idx)
  case (Cons x xs)
  let ?g = "\<lambda>nt. py_rstrip_chars CHR ''\<newline>'' ((if fmt = ''markdown'' then nr_raw_text else nr_content) nt)
                  @ ''\<newline>''"
  have ih: "output_loop J fmt n (Suc idx) xs = Inr (py_join ''\<newline>'' (map ?g xs))"
    using Cons.IH Cons.prems by simp
  show ?case
    by (simp only: output_loop.simps(2) ih) (use assms(1) Cons.prems in \<open>cases xs; auto simp: Let_def\<close>)
qed simp

lemma output_loop_lines:
  assumes "fmt \<in> {''paths'', ''json''}"
  shows "output_loop J fmt n idx ns =
           Inr (concat (map (\<lambda>nt. (if fmt = ''paths'' then path_str (nr_path nt) else J nt) @ ''\<newline>'') ns))"
  using assms by (induction ns arbitrary: idx) auto

text \<open>
  C33: what each output format prints. \<open>markdown\<close> and \<open>content\<close> print each note's
  text without its trailing newlines and separate notes by a blank line, \<open>paths\<close> and
  \<open>json\<close> print one line per note, and with no match nothing is printed, whatever the
  format, so an unsupported format raises only when a note matched.
\<close>

theorem output_notes_formats:
  "output_notes J ns ''markdown'' =
     Inr (py_join ''\<newline>'' (map (\<lambda>nt. py_rstrip_chars CHR ''\<newline>'' (nr_raw_text nt) @ ''\<newline>'') ns)) \<and>
   output_notes J ns ''content'' =
     Inr (py_join ''\<newline>'' (map (\<lambda>nt. py_rstrip_chars CHR ''\<newline>'' (nr_content nt) @ ''\<newline>'') ns)) \<and>
   output_notes J ns ''paths'' = Inr (concat (map (\<lambda>nt. path_str (nr_path nt) @ ''\<newline>'') ns)) \<and>
   output_notes J ns ''json'' = Inr (concat (map (\<lambda>nt. J nt @ ''\<newline>'') ns)) \<and>
   output_notes J [] fmt = Inr [] \<and>
   output_notes J (nt # ns) ''yaml'' = Inl (UnsupportedFormat ''Unsupported format: yaml'')"
proof (intro conjI)
  show "output_notes J ns ''markdown'' =
     Inr (py_join ''\<newline>'' (map (\<lambda>nt. py_rstrip_chars CHR ''\<newline>'' (nr_raw_text nt) @ ''\<newline>'') ns))"
    using output_loop_text[of "''markdown''" "length ns" 0 ns J] by (simp add: output_notes_def)
  show "output_notes J ns ''content'' =
     Inr (py_join ''\<newline>'' (map (\<lambda>nt. py_rstrip_chars CHR ''\<newline>'' (nr_content nt) @ ''\<newline>'') ns))"
    using output_loop_text[of "''content''" "length ns" 0 ns J] by (simp add: output_notes_def)
  show "output_notes J ns ''paths'' = Inr (concat (map (\<lambda>nt. path_str (nr_path nt) @ ''\<newline>'') ns))"
    using output_loop_lines[of "''paths''" J "length ns" 0 ns] by (simp add: output_notes_def)
  show "output_notes J ns ''json'' = Inr (concat (map (\<lambda>nt. J nt @ ''\<newline>'') ns))"
    using output_loop_lines[of "''json''" J "length ns" 0 ns] by (simp add: output_notes_def)
qed (simp_all add: output_notes_def)

section \<open>Outcomes of a run\<close>

lemma cq_read_note_error:
  "cq_read_note Y p raw = Inl e \<Longrightarrow> \<exists>m. e = FrontmatterValueError m \<or> e = QueryYAMLError m"
  by (auto simp: cq_read_note_def cq_yaml_load_def Let_def sbind_def
           split: if_splits option.splits yval.splits sum.splits)

lemma collect_matches_error:
  "collect_matches Y f acc files = Inl e \<Longrightarrow> \<exists>m. e = FrontmatterValueError m \<or> e = QueryYAMLError m"
proof (induction Y f acc files rule: collect_matches.induct)
  case (2 Y f matches p raw files)
  then show ?case
    by (cases "cq_read_note Y p raw") (auto simp: Let_def split: if_splits dest: cq_read_note_error)
qed simp

lemma output_loop_error: "output_loop J fmt n idx ns = Inl e \<Longrightarrow> \<exists>m. e = UnsupportedFormat m"
  by (induction ns arbitrary: idx) (auto simp: Let_def sbind_def split: if_splits sum.splits)


end
