(* ===== verification/CliMain.thy ===== *)
theory CliMain
  imports Taskwarrior Config
begin

text \<open>
  The whole of \<open>src/scripts/automation/cli.py\<close>: the options of \<open>parse_args\<close>, the level
  that \<open>setup_logging\<close> sets, and \<open>main\<close> from \<open>load_config\<close> and
  \<open>build_consumers\<close> to the dispatch modelled by \<open>Cli.main_run\<close>. A sequence of runs of
  the automation on the same database is the inductive predicate \<open>ledger_reach\<close>; the
  ledger's invariant, unique primary keys and no emission row without its note row, holds
  in every ledger a sequence of runs can leave, crashed runs included.
\<close>

section \<open>The ledger invariant and the handler contract\<close>

definition ledger_ok :: "store \<Rightarrow> bool" where
  "ledger_ok s \<longleftrightarrow> store_wf s \<and> no_orphans s"

definition note_paths :: "store \<Rightarrow> path set" where
  "note_paths s = fst ` set (note_rows s)"

definition res_store :: "('e \<times> store \<times> 'w) + ('c \<times> store \<times> 'w \<times> 'x \<times> bool) \<Rightarrow> store" where
  \<comment> \<open>the ledger a loop of \<open>main\<close> leaves, whether it ended or crashed\<close>
  "res_store r = (case r of Inl (_, s', _) \<Rightarrow> s' | Inr (_, s', _, _, _) \<Rightarrow> s')"

definition handler_ledger :: "('c, 'w) consumer_ops \<Rightarrow> bool" where
  \<comment> \<open>a handler given a note of the ledger leaves the ledger's invariant intact\<close>
  "handler_ledger ops \<longleftrightarrow>
     (\<forall>c st s w. ledger_ok s \<and> np_path (ns_note st) \<in> note_paths s \<longrightarrow>
        (case co_handle ops c st s w of (_, _, s', _) \<Rightarrow> ledger_ok s'))"

section \<open>Options, logging and main\<close>

record cli_args =
  \<comment> \<open>the namespace of \<open>parse_args\<close>\<close>
  ca_config :: "path option"
  ca_consumers :: "string list option"
  ca_list_consumers :: bool
  ca_log_level :: "string option"

definition log_level_choices :: "string list" where
  "log_level_choices = [''DEBUG'', ''INFO'', ''WARNING'', ''ERROR'']"

definition cli_args_ok :: "cli_args \<Rightarrow> bool" where
  \<comment> \<open>\<open>choices=\<close> of \<open>--log-level\<close>; any other value makes \<open>argparse\<close> exit with status 2\<close>
  "cli_args_ok args \<longleftrightarrow> (case ca_log_level args of None \<Rightarrow> True | Some l \<Rightarrow> l \<in> set log_level_choices)"

definition logging_levels :: "(string \<times> nat) list" where
  \<comment> \<open>the integer attributes of the \<open>logging\<close> module with an upper-case name\<close>
  "logging_levels = [(''CRITICAL'', 50), (''FATAL'', 50), (''ERROR'', 40), (''WARNING'', 30), (''WARN'', 30),
                     (''INFO'', 20), (''DEBUG'', 10), (''NOTSET'', 0)]"

definition logging_level :: "string \<Rightarrow> exn + nat" where
  \<comment> \<open>\<open>setup_logging(level)\<close>: the level \<open>getattr(logging, level.upper(), logging.INFO)\<close> gives
     to \<open>basicConfig\<close>; the attributes \<open>BASIC_FORMAT\<close> (a string) and \<open>_STYLES\<close> (a dict)
     are not levels, and \<open>basicConfig\<close> rejects them (the message of the
     \<open>TypeError\<close> ends with the repr of the dict, left out here)\<close>
  "logging_level level =
     (let name = py_upper level
      in if name = ''BASIC_FORMAT''
         then Inl (ValueError (''Unknown level: '' @ quoted ''%(levelname)s:%(name)s:%(message)s''))
         else if name = ''_STYLES'' then Inl (TypeError ''Level not an integer or a valid string'')
         else Inr (case map_of logging_levels name of Some n \<Rightarrow> n | None \<Rightarrow> 20))"

definition config_path :: "string \<Rightarrow> path option \<Rightarrow> path" where
  \<comment> \<open>the file \<open>load_config(path)\<close> reads: \<open>~/.config/para-organize/automations.toml\<close> by default\<close>
  "config_path home p =
     (case p of None \<Rightarrow> path_of_str (home @ ''/.config/para-organize/automations.toml'') | Some q \<Rightarrow> q)"

definition tw_classes ::
  "(string set \<Rightarrow> string list) \<Rightarrow> automation_config \<Rightarrow> (consumer_config, tw_world, tw) registry" where
  \<comment> \<open>\<open>REGISTRY\<close> once \<open>taskwarrior.py\<close> is imported; \<open>cls(consumer_config, config)\<close> passes
     the global configuration to the constructor\<close>
  "tw_classes order cfg = [(''taskwarrior'', tw_init (ac_state_dir cfg) (ac_vault_root cfg) order)]"

datatype cli_outcome =
    CliExit nat
  | CliUsageError  \<comment> \<open>\<open>argparse\<close> rejected the options: exit status 2\<close>
  | CliRaised exn  \<comment> \<open>an exception of \<open>load_config\<close>, \<open>setup_logging\<close> or a constructor escaped \<open>main\<close>\<close>
  | CliCrash crash  \<comment> \<open>the \<open>KeyError\<close> of the tally escaped \<open>main\<close>\<close>

definition cli_input :: "automation_config \<Rightarrow> fs \<Rightarrow> cli_args \<Rightarrow> int \<Rightarrow> main_input" where
  \<comment> \<open>what \<open>main\<close> passes on to the dispatch: the paths of the configuration and the options\<close>
  "cli_input cfg fs1 args now =
     \<lparr>mi_fs = fs1, mi_vault_root = ac_vault_root cfg, mi_capture_dir = ac_capture_dir cfg,
      mi_list_consumers = ca_list_consumers args,
      mi_filters = (case ca_consumers args of None \<Rightarrow> [] | Some ns \<Rightarrow> ns), mi_now = now\<rparr>"

definition cli_main ::
  "('c, 'w) consumer_ops \<Rightarrow> (string \<Rightarrow> string) \<Rightarrow> safe_load option \<Rightarrow> (string \<Rightarrow> string) \<Rightarrow> path \<Rightarrow>
   string \<Rightarrow> (path \<Rightarrow> header option) \<Rightarrow> (automation_config \<Rightarrow> (consumer_config, 'w, 'c) registry) \<Rightarrow> int \<Rightarrow>
   cli_args \<Rightarrow> fs \<Rightarrow> store \<Rightarrow> 'w \<Rightarrow> cli_outcome \<times> string list \<times> fs \<times> store \<times> 'w" where
  \<comment> \<open>\<open>main(argv)\<close>: \<open>T\<close> is what \<open>tomllib\<close> reads from a path (\<open>None\<close> when the file does
     not exist), \<open>S\<close> is \<open>yaml.safe_load\<close> when PyYAML is installed, \<open>classes\<close> the
     registry, \<open>s\<close> the ledger in the database file\<close>
  "cli_main ops H S E cwd home T classes now args fs s w =
     (if \<not> cli_args_ok args then (CliUsageError, [], fs, s, w)
      else (case load_config E cwd home (T (config_path home (ca_config args))) fs of
              Inl e \<Rightarrow> (CliRaised e, [], fs, s, w)
            | Inr (cfg, fs1) \<Rightarrow>
                (case logging_level (case ca_log_level args of Some l \<Rightarrow> l | None \<Rightarrow> ac_log_level cfg) of
                   Inl e \<Rightarrow> (CliRaised e, [], fs1, s, w)
                 | Inr _ \<Rightarrow>
                     (case build_consumers (classes cfg) w (ac_consumers cfg) of
                        (Inl e, w1) \<Rightarrow> (CliRaised e, [], fs1, s, w1)
                      | (Inr cs, w1) \<Rightarrow>
                          (case main_run ops H S cs (cli_input cfg fs1 args now) s w1 of
                             (r, out, s', w') \<Rightarrow>
                               ((case r of Exit n \<Rightarrow> CliExit n | Crash c \<Rightarrow> CliCrash c), out, fs1, s', w'))))))"

section \<open>Runs on one database\<close>

inductive ledger_reach :: "store \<Rightarrow> bool" where
  \<comment> \<open>the ledgers a sequence of runs of the automation leaves in the database file\<close>
  new_database: "ledger_reach empty_store"
| run: "ledger_reach s \<Longrightarrow>
          cli_main tw_ops H S E cwd home T (tw_classes order) now args fs s w = (r, out, fs', s', w') \<Longrightarrow>
          ledger_reach s'"

inductive_cases ledger_reach_runE: "ledger_reach s'"

lemma handler_ledgerD:
  assumes "handler_ledger ops" and "co_handle ops c st s w = (out, c', s', w')"
    and "ledger_ok s" and "np_path (ns_note st) \<in> note_paths s"
  shows "ledger_ok s'"
  using assms(1)[unfolded handler_ledger_def, rule_format, where c = c and st = st and s = s and w = w]
    assms(2-4) by simp

lemma handler_notes:
  assumes "handler_local ops" and "co_handle ops c st s w = (out, c', s', w')"
  shows "note_paths s' = note_paths s"
  using handler_localD[OF assms] by (simp add: note_paths_def)

lemma res_store_simps [simp]:
  "res_store (Inl (e, s, w)) = s" "res_store (Inr (c, s, w, x, f)) = s"
  by (simp_all add: res_store_def)

lemma res_store_cons [simp]:
  "res_store (case x of Inl e \<Rightarrow> Inl e | Inr (cs', s', w', summ', f') \<Rightarrow> Inr (c # cs', s', w', summ', f'))
     = res_store x"
  by (cases x) (auto simp: res_store_def)

lemma note_paths_get: "p \<in> note_paths s \<longleftrightarrow> get_note_hash s p \<noteq> None"
  by (simp add: note_paths_def get_note_hash_def map_of_eq_None_iff)

lemma dispatch_states_ledger:
  assumes "handler_local ops" and "handler_ledger ops"
  shows "ledger_ok s \<Longrightarrow> (\<forall>st \<in> set sts. np_path (ns_note st) \<in> note_paths s) \<Longrightarrow>
           ledger_ok (res_store (dispatch_states ops c sts s w cnt f)) \<and>
           note_paths (res_store (dispatch_states ops c sts s w cnt f)) = note_paths s"
proof (induction sts arbitrary: c s w cnt f)
  case (Cons st sts)
  show ?case
  proof (cases "co_matches ops c st")
    case True
    obtain out c1 s1 w1 where h: "co_handle ops c st s w = (out, c1, s1, w1)"
      by (cases "co_handle ops c st s w") auto
    have ok1: "ledger_ok s1" using handler_ledgerD[OF assms(2) h Cons.prems(1)] Cons.prems(2) by simp
    have np1: "note_paths s1 = note_paths s" using handler_notes[OF assms(1) h] .
    have ih: "ledger_ok (res_store (dispatch_states ops c' sts s1 w' cnt' f')) \<and>
              note_paths (res_store (dispatch_states ops c' sts s1 w' cnt' f')) = note_paths s" for c' w' cnt' f'
      using Cons.IH[OF ok1, of c' w' cnt' f'] Cons.prems(2) np1 by simp
    show ?thesis
      using dispatch_states_step[OF True h, of sts cnt f] ih ok1 np1
      by (auto split: sum.splits option.splits)
  qed (use Cons in simp)
qed simp

lemma run_consumers_ledger:
  assumes "handler_local ops" and "handler_ledger ops"
  shows "ledger_ok s \<Longrightarrow> (\<forall>st \<in> set states. np_path (ns_note st) \<in> note_paths s) \<Longrightarrow>
           ledger_ok (res_store (run_consumers ops cs states s w summ f))"
proof (induction cs arbitrary: s w summ f)
  case (Cons c cs)
  have pend: "\<forall>st \<in> set (pending_for_consumer s (co_name ops c) states). np_path (ns_note st) \<in> note_paths s"
    using Cons.prems(2) by (simp add: pending_for_consumer_member)
  obtain r where r: "run_consumers ops (c # cs) states s w summ f = r" by simp
  from r show ?case
  proof (cases rule: run_consumers_ConsE)
    case idle
    then show ?thesis using r Cons.IH[OF Cons.prems] by simp
  next
    case (crash e s1 w1)
    then show ?thesis using r dispatch_states_ledger[OF assms Cons.prems(1) pend, of c w zero_counts f] by simp
  next
    case (step c1 s1 w1 cnt f1)
    note d = dispatch_states_ledger[OF assms Cons.prems(1) pend, of c w zero_counts f]
    then have "ledger_ok s1 \<and> (\<forall>st \<in> set states. np_path (ns_note st) \<in> note_paths s1)"
      using Cons.prems(2) step(2) by simp
    then show ?thesis using r step Cons.IH by simp
  qed
qed simp

lemma refresh_ledger:
  assumes "ledger_ok s"
  shows "ledger_ok (snd (refresh now ps s)) \<and>
         (\<forall>st \<in> set (fst (refresh now ps s)). np_path (ns_note st) \<in> note_paths (snd (refresh now ps s)))"
proof
  show "ledger_ok (snd (refresh now ps s))"
    using assms by (simp add: ledger_ok_def refresh_split store_wf_purge store_wf_refresh_upserts
        no_orphans_purge no_orphans_refresh_upserts)
  show "\<forall>st \<in> set (fst (refresh now ps s)). np_path (ns_note st) \<in> note_paths (snd (refresh now ps s))"
  proof
    fix st assume "st \<in> set (fst (refresh now ps s))"
    then have "np_path (ns_note st) \<in> set (map np_path ps)" using refresh_state_notes by fastforce
    then show "np_path (ns_note st) \<in> note_paths (snd (refresh now ps s))"
      by (simp add: note_paths_get refresh_split purge_missing_get_note_hash refresh_upserts_get_note)
  qed
qed

lemma main_run_ledger:
  assumes "handler_local ops" and "handler_ledger ops" and "ledger_ok s"
    and "main_run ops H S cs inp s w = (r, out, s', w')"
  shows "ledger_ok s'"
proof -
  show ?thesis
  proof (cases "iter_note_payloads H S (mi_fs inp) (mi_vault_root inp) (mi_capture_dir inp)")
    case (Inr payloads)
    note rl = refresh_ledger[OF assms(3), of "mi_now inp" payloads]
    obtain states s1 where rf: "refresh (mi_now inp) payloads s = (states, s1)" by fastforce
    have ok: "ledger_ok (res_store (run_consumers ops cs' states s1 w [] False))" for cs'
      using run_consumers_ledger[OF assms(1,2)] rl rf by simp
    have okL: "ledger_ok s2" if "run_consumers ops cs' states s1 w [] False = Inl (e, s2, w2)" for cs' e s2 w2
      using ok[of cs'] that by simp
    have okR: "ledger_ok s2" if "run_consumers ops cs' states s1 w [] False = Inr (c2, s2, w2, m, f)"
      for cs' c2 s2 w2 m f
      using ok[of cs'] that by simp
    show ?thesis using assms(3,4) Inr rf
      by (auto simp: main_run_def Let_def split: if_splits sum.splits dest: okL okR)
  qed (use assms(3,4) in \<open>auto simp: main_run_def Let_def split: if_splits ingest_error.splits\<close>)
qed

lemma mark_emitted_ledger:
  assumes "ledger_ok s" and "p \<in> note_paths s"
  shows "ledger_ok (mark_emitted now c p h st md s)"
  using assms by (auto simp: ledger_ok_def store_wf_def no_orphans_def note_paths_def mark_emitted_def Let_def
                            distinct_update)

lemma tw_handler_ledger: "handler_ledger tw_ops"
  unfolding handler_ledger_def
proof (intro allI impI)
  fix tw :: tw and st :: note_state and s :: store and w :: tw_world
  assume a: "ledger_ok s \<and> np_path (ns_note st) \<in> note_paths s"
  obtain out tw' s' w' where h: "tw_handle tw st s w = (out, tw', s', w')"
    by (cases "tw_handle tw st s w") auto
  from h have "ledger_ok s'"
  proof (cases rule: tw_handle_cases)
    case processed
    then show ?thesis using a mark_emitted_ledger by auto
  qed (use a in simp)
  then show "case co_handle tw_ops tw st s w of (_, _, s', _) \<Rightarrow> ledger_ok s'"
    using h by (simp add: tw_ops_def)
qed

section \<open>Properties of main\<close>

lemma cli_main_cases:
  assumes "cli_main ops H S E cwd home T classes now args fs s w = res"
  obtains (usage) "res = (CliUsageError, [], fs, s, w)"
  | (raised) e fs1 w1 where "res = (CliRaised e, [], fs1, s, w1)"
  | (ran) cfg fs1 cs w1 r out s' w' where "cli_args_ok args"
      and "load_config E cwd home (T (config_path home (ca_config args))) fs = Inr (cfg, fs1)"
      and "build_consumers (classes cfg) w (ac_consumers cfg) = (Inr cs, w1)"
      and "main_run ops H S cs (cli_input cfg fs1 args now) s w1 = (r, out, s', w')"
      and "res = ((case r of Exit n \<Rightarrow> CliExit n | Crash c \<Rightarrow> CliCrash c), out, fs1, s', w')"
proof (cases "cli_args_ok args")
  case False
  then show ?thesis using assms by (intro usage) (simp add: cli_main_def)
next
  case True
  show ?thesis
  proof (cases "load_config E cwd home (T (config_path home (ca_config args))) fs")
    case (Inl e)
    then show ?thesis using assms True by (intro raised[of e fs w]) (simp add: cli_main_def)
  next
    case (Inr p)
    then obtain cfg fs1 where p: "load_config E cwd home (T (config_path home (ca_config args))) fs = Inr (cfg, fs1)"
      by (cases p) auto
    show ?thesis
    proof (cases "logging_level (case ca_log_level args of Some l \<Rightarrow> l | None \<Rightarrow> ac_log_level cfg)")
      case (Inl e)
      then show ?thesis using assms True p by (intro raised[of e fs1 w]) (simp add: cli_main_def)
    next
      case lv: (Inr lv)
      obtain b w1 where bc: "build_consumers (classes cfg) w (ac_consumers cfg) = (b, w1)" by fastforce
      show ?thesis
      proof (cases b)
        case (Inl e)
        then show ?thesis using assms True p lv bc by (intro raised[of e fs1 w1]) (simp add: cli_main_def)
      next
        case (Inr cs)
        obtain r out s' w' where m: "main_run ops H S cs (cli_input cfg fs1 args now) s w1 = (r, out, s', w')"
          by (cases "main_run ops H S cs (cli_input cfg fs1 args now) s w1") auto
        have bc': "build_consumers (classes cfg) w (ac_consumers cfg) = (Inr cs, w1)" using bc Inr by simp
        show ?thesis
          by (rule ran[OF True p bc' m]) (use assms True p lv bc' m in \<open>simp add: cli_main_def\<close>)
      qed
    qed
  qed
qed

lemma tw_classes_names: "names_from_config tw_name (tw_classes order cfg)"
  by (auto simp: tw_classes_def names_from_config_def dest: tw_init_name)

lemma load_config_build:
  "load_config E cwd home ov fs = Inr (cfg, fs') \<Longrightarrow> build_config E cwd home ov = Inr cfg"
  by (auto simp: load_config_def)

text \<open>
  C39: the consumers main lists. With \<open>--list-consumers\<close>, whatever the configuration file
  (with unique keys in its tables), \<open>main\<close> prints the names of the consumers it built in
  sorted order and without a name twice, and exits 0; these names are also the order in
  which a run dispatches.
\<close>

theorem cli_list_consumers_sorted:
  assumes "cli_main tw_ops H S E cwd home T (tw_classes order) now args fs s w = (CliExit 0, out, fs', s', w')"
    and "ca_list_consumers args"
    and "case T (config_path home (ca_config args)) of None \<Rightarrow> True | Some ov \<Rightarrow> header_wf ov"
  shows "sorted out \<and> distinct out"
  using assms(1)
proof (cases rule: cli_main_cases)
  case (ran cfg fs1 cs w1 r out' s'' w'')
  have o: "out = map tw_name cs"
    using ran(4,5) assms(2) by (simp add: main_run_def cli_input_def tw_ops_def)
  have "sorted (map cc_name (ac_consumers cfg)) \<and> distinct (map cc_name (ac_consumers cfg))"
    using config_consumers_order[OF assms(3) load_config_build[OF ran(2)]] .
  then show ?thesis using build_consumers_names[OF tw_classes_names ran(3)] o by simp
qed simp_all

lemma cli_main_ledger:
  assumes "ledger_ok s"
    and "cli_main tw_ops H S E cwd home T (tw_classes order) now args fs s w = (r, out, fs', s', w')"
  shows "ledger_ok s'"
  using assms(2)
proof (cases rule: cli_main_cases)
  case usage
  then have "s' = s" by simp
  then show ?thesis using assms(1) by simp
next
  case (raised e fs1 w1)
  then have "s' = s" by simp
  then show ?thesis using assms(1) by simp
next
  case (ran cfg fs1 cs w1 r' out' s'' w'')
  from ran(5) have "s' = s''" by simp
  then show ?thesis using main_run_ledger[OF tw_handler_local tw_handler_ledger assms(1) ran(4)] by simp
qed

text \<open>
  C40: the ledger invariant over runs. In every ledger that a sequence of runs of the
  automation can leave in a new database, whatever each run's options, configuration,
  notes and Taskwarrior, and whether it ended or crashed, primary keys are unique and every
  emission row belongs to a note row.
\<close>

theorem ledger_reach_ok: "ledger_reach s \<Longrightarrow> store_wf s \<and> no_orphans s"
proof (induction rule: ledger_reach.induct)
  case new_database
  then show ?case by (simp add: empty_store_def store_wf_def no_orphans_def)
next
  case (run s H S E cwd home T order now args fs w r out fs' s' w')
  have "ledger_ok s" using run.IH by (simp add: ledger_ok_def)
  then have "ledger_ok s'" using run.hyps(2) by (rule cli_main_ledger)
  then show ?case by (simp add: ledger_ok_def)
qed

end
