(* ===== verification/Spec2Isabelle.thy ===== *)
theory Spec2Isabelle
  imports Taskwarrior Config CaptureQuery CliMain
begin

text \<open>
  A verification development for para-organize's capture automation
  (\<open>src/scripts/automation\<close>) and its query tool (\<open>src/scripts/capture_query.py\<close>).
  The automation reads notes with a YAML-like header from a capture directory,
  fingerprints them, reconciles them against a SQLite ledger, and dispatches the notes
  that changed since a consumer last saw them to that consumer; the one built-in
  consumer mirrors notes into Taskwarrior. \<open>cli.main\<close> loads the configuration, builds
  the enabled consumers through the registry, refreshes the ledger and runs every
  consumer over its pending notes, isolating the exceptions of each handler. The query
  tool is a separate script that filters the same notes.

  \<^bold>\<open>Theories.\<close>
  \<^item> \<open>Prelude\<close>: the Python string operations the sources call (\<open>strip\<close>,
    \<open>lower\<close>, \<open>splitlines\<close>, \<open>split\<close>, \<open>startswith\<close>, \<open>join\<close>, \<open>str(int)\<close>), on
    characters of code point below 256; the path type; the raising-code bind \<open>sbind\<close>
    on \<open>'e + 'a\<close> (\<open>Inl\<close> is the exception) and the exceptions \<open>exn\<close> the
    sources raise; shared list and map lemmas.
  \<^item> \<open>Frontmatter\<close> (\<open>frontmatter.py\<close>): the header values \<open>yval\<close>, the scalar
    coercion \<open>parse_scalar\<close>, the mutually recursive block and sequence parser and its
    loops (termination from a domain lemma, then a measure), \<open>fallback_parse\<close>,
    \<open>yaml_load\<close> with and without PyYAML (\<open>yaml.safe_load\<close> is the parameter
    \<open>S\<close>, \<open>None\<close> when it is not installed) and \<open>read_note\<close>, which raises
    \<open>header_error\<close> only with PyYAML; \<open>header_wf\<close> (unique keys at every level). C16: \<open>str(int)\<close>
    parses back to the integer; C17: every parsed header is well formed.
  \<^item> \<open>Notes\<close> (\<open>notes.py\<close>): \<open>note_payload\<close>, tags, \<open>to_payload\<close>, the
    legacy file-name pattern and the ingestion walk over a file system given as a list
    of entries, which fails exactly when some eligible file's header raises
    (\<open>collect_payloads_raises\<close>), and never without PyYAML; \<open>str()\<close> and \<open>repr()\<close> of header values; \<open>str()\<close> of paths.
  \<^item> \<open>Store\<close> (\<open>store.py\<close>): both tables as lists of rows keyed by their primary
    keys and every method that writes them; C19: through \<open>ledger_of\<close> they refine the
    ledger contract of two maps (\<open>led_upsert\<close>, \<open>led_purge\<close>, \<open>led_mark\<close>,
    \<open>led_needs\<close>).
  \<^item> \<open>Emitter\<close> (\<open>emitter.py\<close>): \<open>refresh\<close> and \<open>pending_for_consumer\<close>;
    C1 idempotence, C2 deletion with its cascade, C3 the states returned, C4 the ledger
    invariants.
  \<^item> \<open>Consumers\<close> (\<open>consumers/base.py\<close>, \<open>consumers/__init__.py\<close>): the result,
    the interface \<open>consumer_ops\<close> in state-passing form, the registry of constructors
    that return the world they leave, and \<open>build_consumers\<close>; the constructor contract
    \<open>names_from_config\<close>. C20: registration round trip and its errors.
  \<^item> \<open>Cli\<close> (\<open>cli.py\<close>): the inner and outer dispatch loops \<open>dispatch_states\<close> and
    \<open>run_consumers\<close> with the tally, and \<open>main\<close>. The handler contracts
    \<open>handler_local\<close> and \<open>results_tallied\<close> are the interface the consumer discharges.
    C5 isolation between consumers, C6 the failure flag, C7 termination without crash,
    C35 one note whose header does not load aborts the run before any dispatch.
  \<^item> \<open>TaskText\<close> and \<open>Taskwarrior\<close> (\<open>consumers/taskwarrior.py\<close>): the text
    functions (description, tags, keys, \<open>str.format\<close>), the instance \<open>tw\<close> and the
    external world \<open>tw_world\<close>, \<open>tw_init\<close>, \<open>process_note\<close>, the one-time backup
    with its collision loop \<open>next_backup\<close> (a \<open>function\<close> with a measure on the
    finite set of existing paths), and \<open>tw_handle\<close>, which discharges the handler
    contracts (\<open>tw_handler_local\<close>). \<open>__init__\<close> finds the taskrc
    (\<open>resolve_taskrc_path\<close>: the option, then \<open>TASKRC\<close>, then an existing
    \<open>~/.taskrc\<close>) and the data directory (\<open>resolve_data_directory\<close>: an existing
    explicit directory, then \<open>data.location\<close> of the taskrc, then \<open>~/.task\<close>)
    through \<open>Path.expanduser\<close> and \<open>resolve\<close>; \<open>tw_init_data_directory\<close>
    shows a built instance holds an absolute, existing data directory. C9 re-submission,
    C10 the creation cap, C11 and C12 the backup, C13 a fresh backup target, C14 the
    unreachable strict key, C15 a consistent snapshot, C18 the description bound.
    \<open>tw_init_backup_dir\<close>: a built instance's backup directory exists, created even
    with backups disabled (\<open>tw_init_disabled_backup_dir\<close> runs the case where the
    constructor then raises).
  \<^item> \<open>Config\<close> (\<open>config.py\<close>): \<open>deep_merge\<close> (a \<open>function\<close> terminating on the
    size of the overlay) and the normalisation of the consumers table. C21 what the merge
    computes, C22 it keeps tables well formed, C23 consumers sorted and named by key, C24
    its errors. \<open>load_config\<close> is \<open>build_config\<close> (the merge over
    \<open>DEFAULTS\<close>, the lookups with their exceptions, \<open>_expand_path\<close> with
    \<open>Path.resolve\<close> on a purely lexical path, the log level) followed by
    \<open>ensure_state_dirs\<close> on the file-system model. C34 the defaults, C36 the state directories exist afterwards, C37 a non-table
    \<open>vault\<close> raises, C38 the consumers come out sorted.
  \<^item> \<open>CliMain\<close> (\<open>cli.py\<close>): the namespace of \<open>parse_args\<close> with the
    \<open>choices\<close> of \<open>--log-level\<close>, the level \<open>setup_logging\<close> passes to
    \<open>basicConfig\<close>, and \<open>cli_main\<close>: options, \<open>load_config\<close>, logging,
    \<open>build_consumers\<close>, then the dispatch \<open>Cli.main_run\<close>. The inductive
    \<open>ledger_reach\<close> is the set of ledgers any sequence of runs on one database can
    leave; the contract \<open>handler_ledger\<close> (a handler keeps the ledger invariant) is
    discharged by the Taskwarrior handler. C39 \<open>--list-consumers\<close> prints sorted,
    distinct names; C40 every reachable ledger is well formed, crashed runs included.
  \<^item> \<open>CaptureQuery\<close> (\<open>capture_query.py\<close>): reading a note, the \<open>KEY=VALUE\<close>
    options, \<open>build_filters\<close>, \<open>matches_filters\<close>, \<open>get_by_path\<close>, the lazy match loop
    \<open>collect_matches\<close>, \<open>output_notes\<close> and \<open>main\<close>; \<open>yaml.load\<close> is the
    parameter \<open>Y\<close>, which may raise, and \<open>parse_value\<close> falls back to the text
    when it does. C26 the loop against the
    reference \<open>query_spec\<close>, C27 no file is read after the limit, C28 and C29 the option
    parser, C30 the outcomes of \<open>main\<close> (an unparsable header escapes as
    \<open>yaml.YAMLError\<close>), C31 dotted paths compose, C32 relaxing filters
    keeps matches, C33 the output formats.
  \<^item> This theory: the concrete inputs of the witnesses and the properties that span
    components: C8 a Taskwarrior consumer at its cap crashes the run, C25 the consumers
    built from a normalised configuration through the Taskwarrior registry have distinct
    names, which is the hypothesis of C6.

  \<^bold>\<open>Modelling choices.\<close> Exceptions are values: every raise and early return is an
  \<open>Inl\<close> branch, and a handler returns the state its effects left together with its
  outcome. Python's clock is an argument. The SHA-256 fingerprint, PyYAML, \<open>json.dumps\<close>
  and the ISO timestamp parser are parameters: the properties use only that they are
  functions. PyYAML's \<open>safe_load\<close> is an optional parameter: the witnesses run
  without it, on the fallback parser, except the one of C35. Floats of the header
  are exact decimals. Taskwarrior is the record \<open>tw_world\<close>: its database as exported
  JSON objects, the outcome of each command, and what the constructor reads from the
  process (\<open>TASKRC\<close>, home directories, working directory, files). The enumeration order of a Python set,
  which decides the project in \<open>_prepare_tags\<close>, is the field \<open>set_order\<close>. No
  loop needs fuel: every loop is structural recursion or a \<open>function\<close> with a measure.

  \<^bold>\<open>Findings.\<close> A \<open>limit\<close> result of the Taskwarrior consumer has no key in the
  tally of \<open>cli.main\<close> and crashes the run (C8); a handler that returns status \<open>error\<close>
  does not set the failure flag (C6); the strict deduplication key never decides a skip
  (C14); \<open>--limit 0\<close> of the query tool is no limit and a negative limit keeps one match
  (C26); with PyYAML installed one note whose header is not valid YAML or not a mapping
  aborts the whole run, where the spec wants per-file ingestion never to fail (C35). A
  configured \<open>log_level\<close> of \<open>basic_format\<close> or \<open>_styles\<close> makes
  \<open>setup_logging\<close> raise, and any other unknown level silently falls back to
  \<open>INFO\<close>. The Taskwarrior constructor creates its backup directory even when backups
  are disabled and before a failure it then reports.

  \<^bold>\<open>Not modelled.\<close> The tokenising of argv by \<open>argparse\<close> (the model starts
  from the namespace it returns) and the records \<open>logging\<close> writes; the TOML syntax
  (\<open>tomllib\<close> is the parameter \<open>T\<close>, a header per path); symbolic links
  under \<open>Path.resolve\<close>; the Taskwarrior constructor's view of the file system
  (\<open>tw_fs\<close>) is kept apart from the capture directory's, as the two are read through
  different paths; the package re-exports of \<open>__init__.py\<close>, which have no behaviour.
\<close>

section \<open>Concrete inputs for the witnesses\<close>

definition ex_path_a :: path where
  "ex_path_a = [''/'', ''capture'', ''a.md'']"

definition ex_payload_a :: note_payload where
  "ex_payload_a = \<lparr>np_path = ex_path_a, np_frontmatter = [(''tags'', YList [YStr ''todo''])],
     np_content = ''Buy milk'', np_raw_text = ''raw a'', np_note_hash = ''h1''\<rparr>"

definition ex_store_settled :: store where
  "ex_store_settled =
     \<lparr>note_rows = [(ex_path_a, \<lparr>row_hash = ''h1'', row_metadata = [], row_seen_at = 0\<rparr>)],
      emission_rows = [((''taskwarrior'', ex_path_a),
        \<lparr>em_hash = ''h1'', em_emitted_at = 0, em_status = ''success'', em_metadata = None\<rparr>)]\<rparr>"

definition ex_state_a :: note_state where
  "ex_state_a = \<lparr>ns_note = ex_payload_a, ns_previous_hash = None\<rparr>"

definition ex_store_a :: store where
  \<comment> \<open>the ledger after the first pass has seen note a\<close>
  "ex_store_a = snd (refresh 7 [ex_payload_a] empty_store)"

definition ex_tw :: tw where
  "ex_tw = \<lparr>tw_name = ''taskwarrior'', marker_tag = ''todo'', strip_tags = {''todo''}, remove_unknown_tags = False,
     project_tag_prefix = ''project:'', default_project = YNone, additional_tags = [], annotation_template = YNone,
     review_tag = None, max_new_tasks_per_run = Some 1, tasks_added = 0, backup_enabled = True,
     backup_dir = [''/'', ''bk''], vault_root = [''/''], backed_up = False, existing_tags = {},
     existing_task_keys = {}, existing_summary_keys = {}, set_order = sorted_list_of_set,
     taskrc_path = None, data_directory = [''/'', ''home'', ''u'', ''.task'']\<rparr>"

definition ex_world :: tw_world where
  "ex_world = \<lparr>tw_db = [], tw_import_ok = (\<lambda>_. True), tw_tags_out = Some [], tw_export_ok = True,
     tw_paths = [], tw_copies = [], tw_copy_ok = True, tw_environ_taskrc = None,
     tw_expanduser = (\<lambda>part. if part = ''~'' then ''/home/u'' else part), tw_cwd = [''/''],
     tw_fs = [([''/'', ''home'', ''u'', ''.task''], None)], tw_now = 7,
     tw_now_ts = ''20260101T000000Z'', tw_parse_ts = (\<lambda>_. None)\<rparr>"

definition ex_world_db :: tw_world where
  \<comment> \<open>Taskwarrior already holds one task\<close>
  "ex_world_db = ex_world\<lparr>tw_db := [YMap [(''description'', YStr ''Buy milk ''), (''project'', YStr ''Home''),
                                            (''tags'', YList [YStr ''Errand''])]]\<rparr>"

definition ex_cfg :: consumer_config where
  "ex_cfg = \<lparr>cc_name = ''taskwarrior'', cc_type = ''taskwarrior'', cc_enabled = True,
     cc_options = [(''max_new_tasks_per_run'', YInt 1)]\<rparr>"

definition ex_tw_known :: tw where
  \<comment> \<open>an instance whose snapshot already holds the task of note a\<close>
  "ex_tw_known = ex_tw\<lparr>existing_task_keys := {(''buy milk'', [], [])}, existing_summary_keys := {(''buy milk'', [])}\<rparr>"

definition ex_handle :: "string \<Rightarrow> note_state \<Rightarrow> store \<Rightarrow> unit \<Rightarrow> outcome \<times> string \<times> store \<times> unit" where
  \<comment> \<open>a consumer named \<open>flaky\<close> always raises; any other settles every note\<close>
  "ex_handle c st s u =
     (if c = ''flaky'' then (Inl (OSError ''unreachable''), c, s, u)
      else (Inr \<lparr>cr_status = ''success'', cr_note_path = np_path (ns_note st), cr_message = ''ok'', cr_metadata = None\<rparr>,
            c, mark_emitted 0 c (np_path (ns_note st)) (np_note_hash (ns_note st)) ''success'' None s, u))"

definition ex_ops :: "(string, unit) consumer_ops" where
  "ex_ops = \<lparr>co_name = id, co_matches = (\<lambda>c st. True), co_handle = ex_handle\<rparr>"

definition ex_defaults :: header where
  \<comment> \<open>a defaults table with a nested table\<close>
  "ex_defaults = [(''state_dir'', YStr ''state''),
                  (''backup'', YMap [(''enabled'', YBool True), (''directory'', YStr ''backups'')])]"

definition ex_overlay :: header where
  \<comment> \<open>a user table that switches the backup off\<close>
  "ex_overlay = [(''backup'', YMap [(''enabled'', YBool False)])]"

definition ex_consumers :: header where
  \<comment> \<open>a \<open>consumers\<close> table with an enabled and a disabled entry\<close>
  "ex_consumers = [(''todo'', YMap [(''type'', YStr ''taskwarrior'')]),
                   (''mirror'', YMap [(''type'', YStr ''taskwarrior''), (''enabled'', YBool False)])]"

definition ex_Y :: safe_load where
  \<comment> \<open>a YAML loader: the header text \<open>bad\<close> loads as a string, \<open>x: [\<close> does not parse,
     any other text loads as a tagged table\<close>
  "ex_Y t = (if t = ''bad\<newline>'' then Inr (YStr t)
             else if t = ''x: [\<newline>'' then Inl ''while parsing a flow sequence''
             else Inr (YMap [(''tags'', YList [YStr ''a'', YStr ''b''])]))"

definition ex_note1 :: note_record where
  "ex_note1 = \<lparr>nr_path = [''/'', ''v'', ''c'', ''1.md''], nr_frontmatter = [(''tags'', YList [YStr ''a'', YStr ''b''])],
     nr_content = ''Hello World\<newline>'', nr_raw_text = ''---\<newline>x\<newline>---\<newline>Hello World\<newline>''\<rparr>"

definition ex_note2 :: note_record where
  "ex_note2 = \<lparr>nr_path = [''/'', ''v'', ''c'', ''2.md''], nr_frontmatter = [],
     nr_content = ''plain'', nr_raw_text = ''plain''\<rparr>"

definition ex_files :: "(path \<times> string) list" where
  "ex_files = [(nr_path ex_note1, nr_raw_text ex_note1), (nr_path ex_note2, nr_raw_text ex_note2)]"

definition ex_bad :: "(path \<times> string) list" where
  \<comment> \<open>a note whose header is not a mapping\<close>
  "ex_bad = [([''/'', ''v'', ''c'', ''3.md''], ''---\<newline>bad\<newline>---\<newline>'')]"

definition ex_filters :: filters where
  \<comment> \<open>\<open>--tag a --tag b --require-all-tags --search world --limit 1\<close>\<close>
  "ex_filters = \<lparr>f_any_tags = [''a'', ''b''], f_require_all_tags = True, f_timestamps = [], f_created_dates = [],
     f_last_edited_dates = [], f_capture_ids = [], f_processing_statuses = [], f_modalities = [],
     f_require_all_modalities = False, f_contexts = [], f_require_all_contexts = False, f_sources = [],
     f_require_all_sources = False, f_ids = [], f_aliases = [], f_where_clauses = [], f_contains = [''world''],
     f_case_sensitive = False, f_limit = Some 1\<rparr>"

definition ex_args :: query_args where
  \<comment> \<open>\<open>--root /v --capture-dir c --tag a --format paths --limit 1\<close>\<close>
  "ex_args = \<lparr>a_root = [''/'', ''v''], a_capture_dir = [''c''], a_timestamp = None, a_created_date = None,
     a_last_edited_date = None, a_capture_id = None, a_processing_status = None, a_id = None, a_alias = None,
     a_tag = Some [''a''], a_require_all_tags = False, a_modality = None, a_require_all_modalities = False,
     a_context = None, a_require_all_contexts = False, a_source = None, a_require_all_sources = False,
     a_location = None, a_metadata = None, a_where = None, a_search = None, a_case_sensitive = False,
     a_format = ''paths'', a_limit = Some 1\<rparr>"

definition ex_fs :: fs where
  "ex_fs = ([''/'', ''v'', ''c''], None) # map (\<lambda>(p, raw). (p, Some raw)) ex_files"

definition ex_fs_bad :: fs where
  "ex_fs_bad = ([''/'', ''v'', ''c''], None) # map (\<lambda>(p, raw). (p, Some raw)) ex_bad"

definition ex_fs_unparsable :: fs where
  \<comment> \<open>a capture directory holding one note whose header is not YAML\<close>
  "ex_fs_unparsable = [([''/'', ''v'', ''c''], None), ([''/'', ''v'', ''c'', ''4.md''], Some ''---\<newline>x: [\<newline>---\<newline>'')]"

lemmas ex_query_defs = ex_Y_def ex_note1_def ex_note2_def ex_files_def ex_bad_def ex_filters_def ex_args_def
  ex_fs_def ex_fs_bad_def ex_fs_unparsable_def

definition ex_acfg :: automation_config where
  "ex_acfg = \<lparr>ac_vault_root = [''/'', ''v''], ac_capture_dir = [''/'', ''v'', ''c''], ac_state_dir = [''/'', ''s''],
     ac_database_path = [''/'', ''s'', ''db'', ''a.db''], ac_log_level = ''INFO'', ac_consumers = []\<rparr>"

definition ex_user_file :: header where
  \<comment> \<open>a user file with two consumers, listed out of name order\<close>
  "ex_user_file = [(''consumers'', YMap [(''b'', YMap [(''type'', YStr ''taskwarrior'')]),
                                        (''a'', YMap [(''type'', YStr ''taskwarrior''), (''enabled'', YBool False)])])]"

lemmas ex_defs = ex_path_a_def ex_payload_a_def ex_store_settled_def ex_state_a_def ex_store_a_def
  ex_tw_def ex_world_def ex_world_db_def ex_cfg_def ex_ops_def ex_handle_def ex_tw_known_def

section \<open>Witnesses\<close>

theorem refresh_idempotent_pending_witness:
  "get_emission_hash ex_store_settled ''taskwarrior'' (np_path ex_payload_a) = Some (np_note_hash ex_payload_a)
   \<and> pending_for_consumer (snd (refresh 7 [ex_payload_a] ex_store_settled)) ''taskwarrior''
       (fst (refresh 7 [ex_payload_a] ex_store_settled)) = []"
proof -
  have h: "\<forall>n \<in> set [ex_payload_a]. get_emission_hash ex_store_settled ''taskwarrior'' (np_path n) = Some (np_note_hash n)"
    by (simp add: ex_defs get_emission_hash_def)
  show ?thesis using h Emitter.refresh_idempotent_pending[OF h] by simp
qed

theorem refresh_deletes_missing_witness:
  "get_note_hash ex_store_settled ex_path_a \<noteq> None \<and> ex_path_a \<notin> set (map np_path [])
   \<and> get_note_hash (snd (refresh 7 [] ex_store_settled)) ex_path_a = None
   \<and> (\<forall>c. get_emission_hash (snd (refresh 7 [] ex_store_settled)) c ex_path_a = None)"
proof -
  have h1: "get_note_hash ex_store_settled ex_path_a \<noteq> None"
    by (simp add: ex_defs get_note_hash_def)
  have h2: "ex_path_a \<notin> set (map np_path [])" by simp
  show ?thesis using h1 h2 Emitter.refresh_deletes_missing[OF h1 h2, of 7] by blast
qed

theorem refresh_states_witness:
  "distinct (map np_path [ex_payload_a])
   \<and> map ns_note (fst (refresh 7 [ex_payload_a] empty_store)) = [ex_payload_a]
   \<and> ns_previous_hash (fst (refresh 7 [ex_payload_a] empty_store) ! 0) = None
   \<and> get_note_hash (snd (refresh 7 [ex_payload_a] empty_store)) ex_path_a = Some ''h1''"
proof -
  have h: "distinct (map np_path [ex_payload_a])" by simp
  note r = Emitter.refresh_states[OF h, of 7 empty_store]
  then show ?thesis
    using h by (simp add: ex_defs empty_store_def get_note_hash_def)
qed

theorem refresh_preserves_wf_witness:
  "store_wf ex_store_settled \<and> no_orphans ex_store_settled
   \<and> store_wf (snd (refresh 7 [] ex_store_settled)) \<and> no_orphans (snd (refresh 7 [] ex_store_settled))"
proof -
  have h1: "store_wf ex_store_settled" by (simp add: ex_defs store_wf_def)
  have h2: "no_orphans ex_store_settled" by (simp add: ex_defs no_orphans_def)
  show ?thesis using h1 h2 Emitter.refresh_preserves_wf[OF h1 h2, of 7 "[]"] by blast
qed

section \<open>Properties across components\<close>

text \<open>
  C8: a consumer at its creation cap crashes the run. When a Taskwarrior consumer has
  reached \<open>max_new_tasks_per_run\<close> and a pending note carries its marker tag, the
  handler returns a result with status \<open>limit\<close>, which has no key in the tally of
  \<open>cli.main\<close>: the dispatch loop stops with \<open>KeyError\<close>, leaving the ledger and
  Taskwarrior as they were, and no later note or consumer is dispatched.
\<close>

theorem limit_result_crashes_run:
  assumes "max_new_tasks_per_run tw = Some l" and "l \<le> tasks_added tw" and "tw_matches tw st"
  shows "dispatch_states tw_ops tw (st # sts) s w cnt f = Inl (SummaryKeyError ''limit'', s, w)"
  using assms by (simp add: tw_ops_def tw_handle_def process_note_def bump_def Let_def)

text \<open>
  C25: configuration and registry agree on names. The consumers \<open>main\<close> builds from a
  normalised \<open>consumers\<close> table through the Taskwarrior registry carry distinct names,
  each a key of the table: the distinctness the failure flag of the run (C6) assumes
  holds of every run \<open>main\<close> starts.
\<close>

theorem configured_consumers_distinct:
  assumes "normalise_consumers (YMap d) = Inr cfgs" and "distinct (map fst d)"
    and "tw_registry state_dir vroot order = Inr reg" and "build_consumers reg w cfgs = (Inr cs, w')"
  shows "distinct (map (co_name tw_ops) cs) \<and> set (map (co_name tw_ops) cs) \<subseteq> fst ` set d"
proof -
  have n: "map cc_name cfgs = sort (map fst d)"
    using assms(1) by (simp add: normalise_consumers_def consumers_of_items_names map_sort_key)
  have "co_name tw_ops = tw_name" by (simp add: tw_ops_def)
  moreover note build_consumers_names[OF tw_registry_names[OF assms(3)] assms(4)]
  ultimately show ?thesis using n assms(2) by simp
qed

lemma case_sum_InrE:
  assumes "case x of Inl a \<Rightarrow> False | Inr b \<Rightarrow> P b"
  obtains b where "x = Inr b" and "P b"
  using assms by (cases x) auto

lemma case_result_InrE:
  assumes "case x of (Inl a, w) \<Rightarrow> False | (Inr b, w) \<Rightarrow> P b w"
  obtains b w where "x = (Inr b, w)" and "P b w"
  using assms by (cases x; cases "fst x") auto

section \<open>Witnesses of the run\<close>


theorem run_consumers_failure_flag_witness:
  "results_tallied ex_ops \<and> distinct (map (co_name ex_ops) [''flaky'', ''mirror'']) \<and>
   (case run_consumers ex_ops [''flaky'', ''mirror''] [ex_state_a] ex_store_a () [] False of
      Inl _ \<Rightarrow> False
    | Inr (cs', s', w', summ, f) \<Rightarrow> f \<and> (\<exists>n k. map_of summ n = Some k \<and> 0 < n_error k))"
proof -
  have t: "results_tallied ex_ops" by (simp add: results_tallied_def ex_ops_def ex_handle_def)
  have d: "distinct (map (co_name ex_ops) [''flaky'', ''mirror''])" by (simp add: ex_ops_def)
  have "case run_consumers ex_ops [''flaky'', ''mirror''] [ex_state_a] ex_store_a () [] False of
          Inl _ \<Rightarrow> False | Inr (cs', s', w', summ, f) \<Rightarrow> f"
    unfolding ex_defs by code_simp
  then obtain r where r: "run_consumers ex_ops [''flaky'', ''mirror''] [ex_state_a] ex_store_a () [] False = Inr r"
      and f: "case r of (cs', s', w', summ, f) \<Rightarrow> f"
    by (rule case_sum_InrE)
  obtain cs' s' w' summ fl where rr: "r = (cs', s', w', summ, fl)" by (cases r) auto
  show ?thesis
    using Cli.run_consumers_failure_flag[OF t d r[unfolded rr]] t d r rr f by simp
qed

theorem run_consumers_total_witness:
  "results_tallied ex_ops \<and> (\<exists>r. run_consumers ex_ops [''flaky'', ''mirror''] [ex_state_a] ex_store_a () [] False = Inr r)"
proof -
  have t: "results_tallied ex_ops" by (simp add: results_tallied_def ex_ops_def ex_handle_def)
  show ?thesis using Cli.run_consumers_total[OF t] t by blast
qed

theorem limit_result_crashes_run_witness:
  "max_new_tasks_per_run (ex_tw\<lparr>tasks_added := 1\<rparr>) = Some 1 \<and> 1 \<le> tasks_added (ex_tw\<lparr>tasks_added := 1\<rparr>) \<and>
   tw_matches (ex_tw\<lparr>tasks_added := 1\<rparr>) ex_state_a \<and>
   dispatch_states tw_ops (ex_tw\<lparr>tasks_added := 1\<rparr>) [ex_state_a] ex_store_a ex_world zero_counts False
     = Inl (SummaryKeyError ''limit'', ex_store_a, ex_world)"
proof -
  have h1: "max_new_tasks_per_run (ex_tw\<lparr>tasks_added := 1\<rparr>) = Some 1" by (simp add: ex_tw_def)
  have h2: "1 \<le> tasks_added (ex_tw\<lparr>tasks_added := 1\<rparr>)" by simp
  have h3: "tw_matches (ex_tw\<lparr>tasks_added := 1\<rparr>) ex_state_a"
    unfolding ex_defs tw_matches_def by code_simp
  show ?thesis using limit_result_crashes_run[OF h1 h2 h3] h1 h2 h3 by blast
qed

section \<open>Witnesses of the Taskwarrior consumer\<close>

theorem process_note_resubmit_witness:
  "case process_note ex_tw ex_world ex_payload_a of
     (Inl _, _) \<Rightarrow> False
   | (Inr r, tw', w') \<Rightarrow> cr_status r = ''success'' \<and>
       summary_key (build_description ex_payload_a) (snd (prepare_tags tw' ex_payload_a))
         = summary_key (build_description ex_payload_a) (snd (prepare_tags ex_tw ex_payload_a)) \<and>
       (\<exists>r2. process_note tw' w' ex_payload_a = (Inr r2, tw', w') \<and> cr_status r2 \<noteq> ''success'')"
proof -
  have e: "case process_note ex_tw ex_world ex_payload_a of
     (Inl _, _) \<Rightarrow> False
   | (Inr r, tw', w') \<Rightarrow> cr_status r = ''success'' \<and>
       summary_key (build_description ex_payload_a) (snd (prepare_tags tw' ex_payload_a))
         = summary_key (build_description ex_payload_a) (snd (prepare_tags ex_tw ex_payload_a))"
    unfolding ex_defs by code_simp
  obtain o1 tw' w' where p: "process_note ex_tw ex_world ex_payload_a = (o1, tw', w')"
    by (cases "process_note ex_tw ex_world ex_payload_a") auto
  then obtain r where o: "o1 = Inr r" using e by (cases o1) auto
  show ?thesis
    using Taskwarrior.process_note_resubmit[of ex_tw ex_world ex_payload_a r tw' w' ex_payload_a] e p o by simp
qed

theorem dispatch_cap_witness:
  "max_new_tasks_per_run ex_tw = Some 1 \<and> tasks_added ex_tw \<le> 1 \<and>
   (case dispatch_states tw_ops ex_tw [ex_state_a] ex_store_a ex_world zero_counts False of
      Inr (tw', s', w', cnt', f') \<Rightarrow> length (tw_db w') + tasks_added ex_tw \<le> length (tw_db ex_world) + 1
    | Inl (e, s'', w'') \<Rightarrow> length (tw_db w'') + tasks_added ex_tw \<le> length (tw_db ex_world) + 1)"
proof -
  have h: "max_new_tasks_per_run ex_tw = Some 1" "tasks_added ex_tw \<le> 1" by (simp_all add: ex_tw_def)
  note c = Taskwarrior.dispatch_cap[OF h, of "[ex_state_a]" ex_store_a ex_world zero_counts False]
  show ?thesis
    using h c by (auto split: sum.splits)
qed

theorem dispatch_backup_once_witness:
  "case dispatch_states tw_ops ex_tw [ex_state_a, ex_state_a] ex_store_a ex_world zero_counts False of
     Inr (tw', s', w', cnt', f') \<Rightarrow> length (tw_copies w') \<le> length (tw_copies ex_world) + (if backed_up ex_tw then 0 else 1)
   | Inl (e, s'', w'') \<Rightarrow> length (tw_copies w'') \<le> length (tw_copies ex_world) + (if backed_up ex_tw then 0 else 1)"
  using Taskwarrior.dispatch_backup_once[of ex_tw "[ex_state_a, ex_state_a]" ex_store_a ex_world zero_counts False]
  by (auto split: sum.splits)

theorem dispatch_backup_before_import_witness:
  "backup_enabled ex_tw \<and>
   (case dispatch_states tw_ops ex_tw [ex_state_a] ex_store_a ex_world zero_counts False of
      Inr (tw', s', w', cnt', f') \<Rightarrow> length (tw_db ex_world) < length (tw_db w') \<and>
        backed_up tw' \<and> (backed_up ex_tw \<or> length (tw_copies ex_world) < length (tw_copies w'))
    | Inl _ \<Rightarrow> False)"
proof -
  have b: "backup_enabled ex_tw" by (simp add: ex_tw_def)
  have "case dispatch_states tw_ops ex_tw [ex_state_a] ex_store_a ex_world zero_counts False of
          Inr (tw', s', w', cnt', f') \<Rightarrow> length (tw_db ex_world) < length (tw_db w') | Inl _ \<Rightarrow> False"
    unfolding ex_defs by code_simp
  then obtain r where r: "dispatch_states tw_ops ex_tw [ex_state_a] ex_store_a ex_world zero_counts False = Inr r"
      and g: "case r of (tw', s', w', cnt', f') \<Rightarrow> length (tw_db ex_world) < length (tw_db w')"
    by (rule case_sum_InrE)
  obtain tw' s' w' cnt' f' where rr: "r = (tw', s', w', cnt', f')" by (cases r) auto
  show ?thesis
    using Taskwarrior.dispatch_backup_before_import[OF b, of "[ex_state_a]" ex_store_a ex_world zero_counts False tw' s' w' cnt' f']
      b r rr g by simp
qed

theorem strict_key_unreachable_witness:
  "keys_consistent ex_tw_known \<and>
   (case process_note ex_tw_known ex_world ex_payload_a of
      (Inl _, _) \<Rightarrow> False
    | (Inr r, _) \<Rightarrow> cr_message r = ''duplicate task (description/project)'' \<and> cr_message r \<noteq> ''duplicate task'')"
proof -
  have k: "keys_consistent ex_tw_known" by (simp add: keys_consistent_def ex_tw_known_def ex_tw_def py_string_defs)
  have e: "case process_note ex_tw_known ex_world ex_payload_a of
      (Inl _, _) \<Rightarrow> False | (Inr r, _) \<Rightarrow> cr_message r = ''duplicate task (description/project)''"
    unfolding ex_defs by code_simp
  obtain o1 tw' w' where p: "process_note ex_tw_known ex_world ex_payload_a = (o1, tw', w')"
    by (cases "process_note ex_tw_known ex_world ex_payload_a") auto
  then obtain r where o: "o1 = Inr r" using e by (cases o1) auto
  show ?thesis
    using Taskwarrior.strict_key_unreachable[OF k, of ex_world ex_payload_a r tw' w'] k e p o by simp
qed

theorem tw_init_keys_consistent_witness:
  "case tw_init [''/'', ''st''] [''/''] sorted_list_of_set ex_cfg ex_world_db of
     (Inl _, _) \<Rightarrow> False | (Inr tw, _) \<Rightarrow> existing_task_keys tw \<noteq> {} \<and> keys_consistent tw"
proof -
  have "case tw_init [''/'', ''st''] [''/''] sorted_list_of_set ex_cfg ex_world_db of
          (Inl _, _) \<Rightarrow> False | (Inr tw, _) \<Rightarrow> existing_task_keys tw \<noteq> {}"
    unfolding ex_defs by code_simp
  then obtain tw w' where t: "tw_init [''/'', ''st''] [''/''] sorted_list_of_set ex_cfg ex_world_db = (Inr tw, w')"
      and ne: "existing_task_keys tw \<noteq> {}"
    by (rule case_result_InrE)
  show ?thesis using Taskwarrior.tw_init_keys_consistent[OF t] t ne by simp
qed

theorem tw_init_disabled_backup_dir:
  "case tw_init [''/'', ''st''] [''/''] sorted_list_of_set
          (ex_cfg\<lparr>cc_options := [(''backup'', YMap [(''enabled'', YBool False)])]\<rparr>) (ex_world\<lparr>tw_fs := []\<rparr>) of
     (r, w') \<Rightarrow> (case r of Inl e \<Rightarrow> e = exn.FileNotFoundError ''Taskwarrior data directory not found: /home/u/.task''
                         | Inr _ \<Rightarrow> False) \<and>
               map_of (tw_fs w') [''/'', ''st'', ''backups'', ''taskwarrior''] = Some None"
  unfolding ex_defs by code_simp

section \<open>Witness of the registry\<close>

theorem register_roundtrip_witness:
  "register ''taskwarrior'' (tw_init [''/'', ''st''] [''/''] sorted_list_of_set) []
     = Inr [(''taskwarrior'', tw_init [''/'', ''st''] [''/''] sorted_list_of_set)] \<and>
   get_consumer_class [(''taskwarrior'', tw_init [''/'', ''st''] [''/''] sorted_list_of_set)] ''taskwarrior''
     = Inr (tw_init [''/'', ''st''] [''/''] sorted_list_of_set) \<and>
   register ''taskwarrior'' (tw_init [''/''] [''/''] sorted_list_of_set)
       [(''taskwarrior'', tw_init [''/'', ''st''] [''/''] sorted_list_of_set)]
     = Inl (ValueError (''Consumer type '' @ quoted ''taskwarrior'' @ '' already registered.'')) \<and>
   get_consumer_class [(''taskwarrior'', tw_init [''/'', ''st''] [''/''] sorted_list_of_set)] ''todoist''
     = get_consumer_class [] ''todoist''"
proof -
  have h: "register ''taskwarrior'' (tw_init [''/'', ''st''] [''/''] sorted_list_of_set) []
             = Inr [(''taskwarrior'', tw_init [''/'', ''st''] [''/''] sorted_list_of_set)]"
    by (simp add: register_def)
  note r = Consumers.register_roundtrip[OF h, where cls' = "tw_init [''/''] [''/''] sorted_list_of_set"]
  show ?thesis using h r by simp
qed

section \<open>Witnesses of the configuration\<close>

theorem deep_merge_lookup_witness:
  "distinct (map fst ex_overlay) \<and>
   map_of (deep_merge ex_defaults ex_overlay) ''backup''
     = Some (YMap [(''enabled'', YBool False), (''directory'', YStr ''backups'')]) \<and>
   map_of (deep_merge ex_defaults ex_overlay) ''state_dir'' = Some (YStr ''state'')"
  using Config.deep_merge_lookup[of ex_overlay ex_defaults "''backup''"]
        Config.deep_merge_lookup[of ex_overlay ex_defaults "''state_dir''"]
  by (simp add: ex_defaults_def ex_overlay_def)


theorem normalise_consumers_names_witness:
  "distinct (map fst ex_consumers) \<and>
   (case normalise_consumers (YMap ex_consumers) of
      Inl _ \<Rightarrow> False | Inr cfgs \<Rightarrow> map cc_name cfgs = [''mirror'', ''todo''])"
proof -
  have d: "distinct (map fst ex_consumers)" by (simp add: ex_consumers_def)
  have "case normalise_consumers (YMap ex_consumers) of Inl _ \<Rightarrow> False | Inr cfgs \<Rightarrow> True"
    unfolding ex_consumers_def by code_simp
  then obtain cfgs where c: "normalise_consumers (YMap ex_consumers) = Inr cfgs"
    by (rule case_sum_InrE)
  have "sort (map fst ex_consumers) = [''mirror'', ''todo'']" by (simp add: ex_consumers_def)
  then show ?thesis using Config.normalise_consumers_names[OF c d] c d by simp
qed

theorem configured_consumers_distinct_witness:
  "case normalise_consumers (YMap ex_consumers) of
     Inl _ \<Rightarrow> False
   | Inr cfgs \<Rightarrow> (case build_consumers [(''taskwarrior'', tw_init [''/'', ''st''] [''/''] sorted_list_of_set)] ex_world cfgs of
        (Inl _, _) \<Rightarrow> False
      | (Inr cs, _) \<Rightarrow> map (co_name tw_ops) cs = [''todo''] \<and> distinct (map (co_name tw_ops) cs))"
proof -
  have d: "distinct (map fst ex_consumers)" by (simp add: ex_consumers_def)
  have r: "tw_registry [''/'', ''st''] [''/''] sorted_list_of_set
             = Inr [(''taskwarrior'', tw_init [''/'', ''st''] [''/''] sorted_list_of_set)]"
    by (simp add: tw_registry_def register_def)
  have "case normalise_consumers (YMap ex_consumers) of
          Inl _ \<Rightarrow> False
        | Inr cfgs \<Rightarrow> (case build_consumers [(''taskwarrior'', tw_init [''/'', ''st''] [''/''] sorted_list_of_set)] ex_world cfgs of
             (Inl _, _) \<Rightarrow> False | (Inr cs, _) \<Rightarrow> map (co_name tw_ops) cs = [''todo''])"
    unfolding ex_consumers_def ex_world_def tw_ops_def by code_simp
  then obtain cfgs where c: "normalise_consumers (YMap ex_consumers) = Inr cfgs"
      and b: "case build_consumers [(''taskwarrior'', tw_init [''/'', ''st''] [''/''] sorted_list_of_set)] ex_world cfgs of
                (Inl _, _) \<Rightarrow> False | (Inr cs, _) \<Rightarrow> map (co_name tw_ops) cs = [''todo'']"
    by (rule case_sum_InrE)
  from b obtain cs w' where
    cs: "build_consumers [(''taskwarrior'', tw_init [''/'', ''st''] [''/''] sorted_list_of_set)] ex_world cfgs = (Inr cs, w')"
    and n: "map (co_name tw_ops) cs = [''todo'']"
    by (rule case_result_InrE)
  show ?thesis using configured_consumers_distinct[OF c d r cs] c cs n by simp
qed

section \<open>Witnesses of the query tool\<close>

theorem query_collects_matches_witness:
  "map (\<lambda>(p, raw). cq_read_note ex_Y p raw) ex_files = map Inr [ex_note1, ex_note2] \<and>
   collect_matches ex_Y ex_filters [] ex_files = Inr [ex_note1]"
proof -
  have r: "map (\<lambda>(p, raw). cq_read_note ex_Y p raw) ex_files = map Inr [ex_note1, ex_note2]"
    unfolding ex_query_defs by code_simp
  have "query_spec (f_limit ex_filters) (filter (\<lambda>n. matches_filters n ex_filters) [ex_note1, ex_note2]) = [ex_note1]"
    unfolding ex_query_defs by code_simp
  then show ?thesis using CaptureQuery.query_collects_matches[OF r, of ex_filters] r by simp
qed

theorem query_stops_at_limit_witness:
  "collect_matches ex_Y ex_filters [] ex_files = Inr [ex_note1] \<and> limit_reached (f_limit ex_filters) 1 \<and>
   isl (collect_matches ex_Y ex_filters [] ex_bad) \<and>
   collect_matches ex_Y ex_filters [] (ex_files @ ex_bad) = Inr [ex_note1]"
proof -
  have c: "collect_matches ex_Y ex_filters [] ex_files = Inr [ex_note1]" unfolding ex_query_defs by code_simp
  have l: "limit_reached (f_limit ex_filters) (length [ex_note1])" by (simp add: ex_filters_def limit_reached_def)
  have b: "isl (collect_matches ex_Y ex_filters [] ex_bad)" unfolding ex_query_defs by code_simp
  show ?thesis using CaptureQuery.query_stops_at_limit[OF c _ l, of ex_bad] c l b by simp
qed

theorem parse_key_value_roundtrip_witness:
  "''city'' \<noteq> [] \<and> CHR ''='' \<notin> set ''city'' \<and> py_strip ''city'' = ''city'' \<and> py_strip ''a=b'' = ''a=b'' \<and>
   parse_key_value (''city'' @ ''='' @ ''a=b'') = Inr (''city'', ''a=b'')"
proof -
  have h: "''city'' \<noteq> []" "CHR ''='' \<notin> set ''city''" "py_strip ''city'' = ''city''" "py_strip ''a=b'' = ''a=b''"
    by code_simp+
  show ?thesis using CaptureQuery.parse_key_value_roundtrip[OF h] h by simp
qed


theorem matches_filters_relax_witness:
  "matches_filters ex_note1 ex_filters \<and> set [] \<subseteq> set (f_where_clauses ex_filters) \<and>
   matches_filters ex_note1 (ex_filters\<lparr>f_require_all_tags := False, f_require_all_modalities := False,
     f_require_all_contexts := False, f_require_all_sources := False, f_where_clauses := [], f_case_sensitive := False\<rparr>)"
proof -
  have m: "matches_filters ex_note1 ex_filters" unfolding ex_query_defs by code_simp
  have s: "set [] \<subseteq> set (f_where_clauses ex_filters)" by simp
  show ?thesis using CaptureQuery.matches_filters_relax[OF m s] m s by simp
qed

section \<open>Witnesses of loading the configuration\<close>

theorem load_config_defaults_witness:
  "py_startswith ''/home/u'' ''/'' \<and> ''..'' \<notin> set (path_of_str ''/home/u'') \<and>
   (\<exists>cfg. build_config (\<lambda>s. s) [''/''] ''/home/u'' None = Inr cfg \<and>
      ac_capture_dir cfg = [''/'', ''home'', ''u'', ''notes'', ''capture'', ''raw_capture''] \<and>
      map cc_name (ac_consumers cfg) = [''taskwarrior''])"
proof -
  have h: "py_startswith ''/home/u'' ''/''" "''..'' \<notin> set (path_of_str ''/home/u'')"
    and p: "path_of_str ''/home/u'' = [''/'', ''home'', ''u'']" by code_simp+
  show ?thesis using Config.load_config_defaults[OF h, of "[''/'']"] h p by auto
qed

theorem expand_path_under_base_witness:
  "is_absolute [''/'', ''v''] \<and> ''..'' \<notin> set [''/'', ''v''] \<and> \<not> py_startswith ''c/d'' ''/'' \<and>
   ''..'' \<notin> set (path_of_str ''c/d'') \<and>
   expand_path (\<lambda>s. s) [''/''] ''c/d'' (Some [''/'', ''v'']) = [''/'', ''v'', ''c'', ''d''] \<and>
   expand_path (\<lambda>s. s) [''/''] ''../x'' (Some [''/'', ''v'']) = [''/'', ''x'']"
proof -
  have h: "is_absolute [''/'', ''v'']" "''..'' \<notin> set [''/'', ''v'']" "\<not> py_startswith ''c/d'' ''/''"
      "''..'' \<notin> set (path_of_str ''c/d'')"
    and p: "path_of_str ''c/d'' = [''c'', ''d'']"
    and esc: "expand_path (\<lambda>s. s) [''/''] ''../x'' (Some [''/'', ''v'']) = [''/'', ''x'']" by code_simp+
  show ?thesis
    using Config.expand_path_under_base[of "[''/'', ''v'']" "\<lambda>s. s" "''c/d''" "[''/'']"] h p esc by simp
qed

theorem ensure_state_dirs_creates_witness:
  "2 \<le> length (ac_state_dir ex_acfg) \<and>
   (case ensure_state_dirs ex_acfg [] of
      Inl _ \<Rightarrow> False
    | Inr fs' \<Rightarrow> map_of fs' [''/'', ''s'', ''backups''] = Some None \<and> map_of fs' [''/'', ''s'', ''db''] = Some None)"
proof -
  have l: "2 \<le> length (ac_state_dir ex_acfg)" by (simp add: ex_acfg_def)
  have "case ensure_state_dirs ex_acfg [] of Inl _ \<Rightarrow> False | Inr fs' \<Rightarrow> True"
    unfolding ex_acfg_def by code_simp
  then obtain fs' where e: "ensure_state_dirs ex_acfg [] = Inr fs'" by (rule case_sum_InrE)
  have "path_parent (ac_database_path ex_acfg) = [''/'', ''s'', ''db'']"
    by (simp add: ex_acfg_def path_parent_def)
  then show ?thesis using Config.ensure_state_dirs_creates[OF e l] e l by (simp add: ex_acfg_def)
qed

theorem build_config_vault_not_table_witness:
  "distinct (map fst [(''vault'', YStr ''x'')]) \<and> map_of [(''vault'', YStr ''x'')] ''vault'' = Some (YStr ''x'') \<and>
   build_config (\<lambda>s. s) [''/''] ''/home/u'' (Some [(''vault'', YStr ''x'')])
     = Inl (TypeError ''object is not subscriptable'')"
  using Config.build_config_vault_not_table[of "[(''vault'', YStr ''x'')]" "YStr ''x''" "\<lambda>s. s" "[''/'']" "''/home/u''"]
  by simp

theorem build_config_consumers_sorted_witness:
  "header_wf ex_user_file \<and>
   (case build_config (\<lambda>s. s) [''/''] ''/home/u'' (Some ex_user_file) of
      Inl _ \<Rightarrow> False
    | Inr cfg \<Rightarrow> map cc_name (ac_consumers cfg) = [''a'', ''b'', ''taskwarrior''] \<and>
                 sorted (map cc_name (ac_consumers cfg)))"
proof -
  have w: "header_wf ex_user_file" by (simp add: ex_user_file_def header_wf_def)
  have "case build_config (\<lambda>s. s) [''/''] ''/home/u'' (Some ex_user_file) of
          Inl _ \<Rightarrow> False | Inr cfg \<Rightarrow> map cc_name (ac_consumers cfg) = [''a'', ''b'', ''taskwarrior'']"
    unfolding ex_user_file_def by code_simp
  then obtain cfg where b: "build_config (\<lambda>s. s) [''/''] ''/home/u'' (Some ex_user_file) = Inr cfg"
      and n: "map cc_name (ac_consumers cfg) = [''a'', ''b'', ''taskwarrior'']"
    by (rule case_sum_InrE)
  show ?thesis using Config.build_config_consumers_sorted[OF w b] w b n by simp
qed

section \<open>Witnesses of the command line\<close>

definition ex_cli_args :: cli_args where
  "ex_cli_args = \<lparr>ca_config = None, ca_consumers = None, ca_list_consumers = False, ca_log_level = None\<rparr>"

definition ex_run_fs :: fs where
  \<comment> \<open>the default capture directory under the home \<open>/home/u\<close>, holding one note tagged \<open>todo\<close>\<close>
  "ex_run_fs = [([''/'', ''home'', ''u'', ''notes'', ''capture'', ''raw_capture''], None),
                ([''/'', ''home'', ''u'', ''notes'', ''capture'', ''raw_capture'', ''a.md''],
                 Some ''---\<newline>tags: [todo]\<newline>---\<newline>Buy milk\<newline>'')]"

theorem cli_list_consumers_sorted_witness:
  "case cli_main tw_ops (\<lambda>t. t) None (\<lambda>s. s) [''/''] ''/home/u'' (\<lambda>_. None) (tw_classes sorted_list_of_set) 7
          (ex_cli_args\<lparr>ca_list_consumers := True\<rparr>) [] empty_store ex_world of
     (r, out, _) \<Rightarrow> r = CliExit 0 \<and> out = [''taskwarrior''] \<and> sorted out \<and> distinct out"
proof -
  have e: "case cli_main tw_ops (\<lambda>t. t) None (\<lambda>s. s) [''/''] ''/home/u'' (\<lambda>_. None) (tw_classes sorted_list_of_set) 7
          (ex_cli_args\<lparr>ca_list_consumers := True\<rparr>) [] empty_store ex_world of
     (r, out, _) \<Rightarrow> r = CliExit 0 \<and> out = [''taskwarrior'']"
    unfolding ex_cli_args_def ex_world_def by code_simp
  obtain r out fs' s' w' where m: "cli_main tw_ops (\<lambda>t. t) None (\<lambda>s. s) [''/''] ''/home/u'' (\<lambda>_. None)
      (tw_classes sorted_list_of_set) 7 (ex_cli_args\<lparr>ca_list_consumers := True\<rparr>) [] empty_store ex_world =
      (r, out, fs', s', w')"
    using prod_cases5 by blast
  with e have r: "r = CliExit 0" and o: "out = [''taskwarrior'']" by simp_all
  have "sorted out \<and> distinct out"
    using CliMain.cli_list_consumers_sorted[of "\<lambda>t. t" None "\<lambda>s. s" "[''/'']" "''/home/u''" "\<lambda>_. None"
        sorted_list_of_set 7 "ex_cli_args\<lparr>ca_list_consumers := True\<rparr>" "[]" empty_store ex_world out fs' s' w']
      m r by simp
  with m r o show ?thesis by simp
qed

theorem ledger_reach_ok_witness:
  "case cli_main tw_ops (\<lambda>t. t) None (\<lambda>s. s) [''/''] ''/home/u'' (\<lambda>_. None) (tw_classes sorted_list_of_set) 7
          ex_cli_args ex_run_fs empty_store ex_world of
     (_, _, _, s', _) \<Rightarrow> emission_rows s' \<noteq> [] \<and> store_wf s' \<and> no_orphans s'"
proof -
  have e: "case cli_main tw_ops (\<lambda>t. t) None (\<lambda>s. s) [''/''] ''/home/u'' (\<lambda>_. None) (tw_classes sorted_list_of_set) 7
          ex_cli_args ex_run_fs empty_store ex_world of
     (_, _, _, s', _) \<Rightarrow> emission_rows s' \<noteq> []"
    unfolding ex_cli_args_def ex_run_fs_def ex_world_def by code_simp
  obtain r out fs' s' w' where m: "cli_main tw_ops (\<lambda>t. t) None (\<lambda>s. s) [''/''] ''/home/u'' (\<lambda>_. None)
      (tw_classes sorted_list_of_set) 7 ex_cli_args ex_run_fs empty_store ex_world = (r, out, fs', s', w')"
    using prod_cases5 by blast
  have "ledger_reach s'" by (rule ledger_reach.run[OF ledger_reach.new_database m])
  then have "store_wf s' \<and> no_orphans s'" by (rule CliMain.ledger_reach_ok)
  with e m show ?thesis by simp
qed

section \<open>Witness of the ingestion with PyYAML\<close>

definition ex_safe_load :: safe_load where
  \<comment> \<open>\<open>yaml.safe_load\<close> on a header holding the list \<open>- x\<close>\<close>
  "ex_safe_load text = Inr (YList [YStr ''x''])"

definition ex_inp_yaml :: main_input where
  \<comment> \<open>a capture directory \<open>/c\<close> whose one note has a list for a header\<close>
  "ex_inp_yaml = \<lparr>mi_fs = [([''/'', ''c''], None), ([''/'', ''c'', ''a.md''], Some ''---\<newline>- x\<newline>---\<newline>body'')],
     mi_vault_root = [''/''], mi_capture_dir = [''/'', ''c''], mi_list_consumers = False, mi_filters = [],
     mi_now = 7\<rparr>"

theorem main_run_bad_header_aborts_witness:
  "read_note (Some ex_safe_load) [''/'', ''c'', ''a.md''] ''---\<newline>- x\<newline>---\<newline>body''
     = Inl (HeaderValueError ''Frontmatter must be a mapping.'') \<and>
   (\<exists>e. main_run tw_ops (\<lambda>t. t) (Some ex_safe_load) [ex_tw] ex_inp_yaml empty_store ex_world
          = (Crash (HeaderRaised e), [], empty_store, ex_world))"
proof -
  have r: "read_note (Some ex_safe_load) [''/'', ''c'', ''a.md''] ''---\<newline>- x\<newline>---\<newline>body''
     = Inl (HeaderValueError ''Frontmatter must be a mapping.'')"
    unfolding ex_safe_load_def by code_simp
  have h: "\<not> mi_list_consumers ex_inp_yaml" "mi_filters ex_inp_yaml = []"
      "is_absolute (mi_capture_dir ex_inp_yaml)" "path_exists (mi_fs ex_inp_yaml) (mi_capture_dir ex_inp_yaml)"
      "([''/'', ''c'', ''a.md''], Some ''---\<newline>- x\<newline>---\<newline>body'')
         \<in> set (rglob_md (mi_fs ex_inp_yaml) (mi_capture_dir ex_inp_yaml))"
      "\<not> is_legacy_daily (path_name [''/'', ''c'', ''a.md''])"
    unfolding ex_inp_yaml_def by code_simp+
  have "isl (read_note (Some ex_safe_load) [''/'', ''c'', ''a.md''] ''---\<newline>- x\<newline>---\<newline>body'')"
    using r by simp
  with h have "(\<exists>e. main_run tw_ops (\<lambda>t. t) (Some ex_safe_load) [ex_tw] ex_inp_yaml empty_store ex_world
          = (Crash (HeaderRaised e), [], empty_store, ex_world))"
    using Cli.main_run_bad_header_aborts[of ex_inp_yaml "[''/'', ''c'', ''a.md'']"
        "''---\<newline>- x\<newline>---\<newline>body''" "Some ex_safe_load" tw_ops "\<lambda>t. t" "[ex_tw]" empty_store ex_world]
    by simp
  with r show ?thesis by simp
qed

end
